(* ===== verification/Agent_Prelude.thy ===== *)
theory Agent_Prelude
  imports Complex_Main "HOL-Library.Word"
begin

text \<open>
  Shared vocabulary of the development: the machine integer types, the exceptions a C++
  handler can end in, the collections of simplification rules the component theories fill,
  and the generic lemmas on results and lists that several components use.
\<close>

section \<open>Types\<close>

type_synonym i64 = "64 word"
type_synonym u64 = "64 word"
type_synonym u32 = "32 word"
type_synonym u8 = "8 word"

text \<open>
  A C++ handler either returns or ends abnormally. \<open>InvalidArgument\<close> and \<open>OutOfRange\<close>
  are thrown by \<open>std::stoll\<close>, \<open>NoSuchPrimitive\<close> by the lanelet layer's \<open>get\<close>,
  \<open>RuntimeError\<close> by the code's own \<open>throw std::runtime_error\<close>, \<open>BadIndex\<close>
  is an element access past the end, \<open>NullPointer\<close> a dereferenced null, and
  \<open>Uninitialised\<close> the use of a variable that was never assigned.
\<close>

datatype exn =
    InvalidArgument
  | OutOfRange
  | NoSuchPrimitive
  | RuntimeError string
  | BadIndex
  | NullPointer
  | Uninitialised

named_theorems ctrl_defs "definitions of the trip controller's operations"
named_theorems lane_defs "definitions of the lanelet map's operations"

section \<open>Results\<close>

lemmas result_splits = sum.splits option.splits prod.splits if_splits

lemma case_sum_InrD:
  "(case r of Inl e \<Rightarrow> Inl e | Inr v \<Rightarrow> f v) = Inr w \<Longrightarrow> \<exists>v. r = Inr v \<and> f v = Inr w"
  by (cases r) auto

lemma map_snd_InrD: "map_sum id snd r = Inr v \<Longrightarrow> \<exists>a. r = Inr (a, v)"
  by (cases r) auto

section \<open>Lists\<close>

lemma distinct_map_inj:
  "distinct (map f xs) \<Longrightarrow> a \<in> set xs \<Longrightarrow> b \<in> set xs \<Longrightarrow> f a = f b \<Longrightarrow> a = b"
  by (induction xs) (auto simp: image_iff)

lemma find_map_Some:
  "distinct (map f xs) \<Longrightarrow> a \<in> set xs \<Longrightarrow> find (\<lambda>b. f b = f a) xs = Some a"
  by (induction xs) (auto simp: image_iff)

lemma find_SomeD: "find P xs = Some a \<Longrightarrow> a \<in> set xs \<and> P a"
  by (auto simp: find_Some_iff)

lemma find_NoneD: "find P xs = None \<Longrightarrow> a \<in> set xs \<Longrightarrow> \<not> P a"
  by (auto simp: find_None_iff)

lemma find_app: "find P (xs @ ys) = (case find P xs of None \<Rightarrow> find P ys | Some a \<Rightarrow> Some a)"
  by (induction xs) auto

lemma length_le_of_distinct_subset:
  "distinct (map f xs) \<Longrightarrow> f ` set xs \<subseteq> g ` set ys \<Longrightarrow> length xs \<le> length ys"
proof -
  assume d: "distinct (map f xs)" and s: "f ` set xs \<subseteq> g ` set ys"
  have "length xs = card (f ` set xs)"
    using distinct_card [OF d] by simp
  also have "\<dots> \<le> card (g ` set ys)"
    by (rule card_mono [OF _ s]) simp
  also have "\<dots> \<le> length ys"
    using card_image_le [of "set ys" g] card_length [of ys] by simp
  finally show ?thesis .
qed

lemma map_append3E:
  assumes "map f xs = as @ bs @ cs"
  obtains us vs ws where "xs = us @ vs @ ws" "map f us = as" "map f vs = bs" "map f ws = cs"
proof -
  obtain us r where r: "xs = us @ r" "as = map f us" "bs @ cs = map f r"
    using assms unfolding map_eq_append_conv by blast
  obtain vs ws where "r = vs @ ws" "bs = map f vs" "cs = map f ws"
    using r(3) [symmetric] unfolding map_eq_append_conv by blast
  with r that show thesis by simp
qed

end
