(* ===== verification/Cxx.thy ===== *)
theory Cxx
  imports Agent_Prelude
begin

text \<open>
  The part of the C++ standard library the agent computes with: \<open>std::to_string\<close> and
  \<open>std::stoll\<close> on 64-bit integers, \<open>duration_cast\<close> to milliseconds, \<open>std::clamp\<close>,
  \<open>std::atan2\<close> and \<open>std::numeric_limits<double>::max()\<close>. The values of type
  \<open>double\<close> are modelled as real numbers: arithmetic is exact, and the special values (NaN,
  infinities, signed zeros) and rounding are outside the model.
\<close>

section \<open>Decimal printing and parsing of 64-bit integers\<close>

definition digit_char :: "nat \<Rightarrow> char" where
  "digit_char d = char_of (48 + d)"

fun show_nat :: "nat \<Rightarrow> string" where
  "show_nat n = (if n < 10 then [digit_char n] else show_nat (n div 10) @ [digit_char (n mod 10)])"

declare show_nat.simps [simp del]

definition to_string :: "i64 \<Rightarrow> string" where
  "to_string w =
     (if sint w < 0 then CHR ''-'' # show_nat (nat (- sint w)) else show_nat (nat (sint w)))"

definition is_space :: "char \<Rightarrow> bool" where
  "is_space c \<longleftrightarrow> (let n = (of_char c :: nat) in n = 32 \<or> 9 \<le> n \<and> n \<le> 13)"

definition is_digit :: "char \<Rightarrow> bool" where
  "is_digit c \<longleftrightarrow> (let n = (of_char c :: nat) in 48 \<le> n \<and> n \<le> 57)"

definition digit_val :: "char \<Rightarrow> nat" where
  "digit_val c = of_char c - 48"

definition digits_val :: "string \<Rightarrow> nat" where
  "digits_val = foldl (\<lambda>n c. 10 * n + digit_val c) 0"

definition split_sign :: "string \<Rightarrow> bool \<times> string" where
  "split_sign s =
     (case s of
        [] \<Rightarrow> (False, [])
      | c # cs \<Rightarrow>
          if c = CHR ''-'' then (True, cs)
          else if c = CHR ''+'' then (False, cs)
          else (False, s))"

text \<open>
  \<open>std::stoll(s)\<close>: leading white space, an optional sign, then the longest run of digits;
  what follows is ignored. It throws when there is no digit, and when the value does not fit.
\<close>

definition stoll :: "string \<Rightarrow> exn + i64" where
  "stoll s =
     (let (neg, rest) = split_sign (dropWhile is_space s);
          ds = takeWhile is_digit rest;
          v = (if neg then - int (digits_val ds) else int (digits_val ds))
      in if ds = [] then Inl InvalidArgument
         else if v < - (2 ^ 63) \<or> 2 ^ 63 \<le> v then Inl OutOfRange
         else Inr (word_of_int v))"

lemma of_digit_char [simp]: "d < 10 \<Longrightarrow> of_char (digit_char d) = (48 + d :: nat)"
  by (simp add: digit_char_def of_char_of)

lemma digit_char_props [simp]:
  assumes "d < 10"
  shows "is_digit (digit_char d)" and "digit_val (digit_char d) = d"
    and "\<not> is_space (digit_char d)"
    and "digit_char d \<noteq> CHR ''-''" and "digit_char d \<noteq> CHR ''+''"
proof -
  show "is_digit (digit_char d)" "digit_val (digit_char d) = d" "\<not> is_space (digit_char d)"
    using assms by (simp_all add: is_digit_def digit_val_def is_space_def Let_def)
  have "(of_char (digit_char d) :: nat) \<noteq> of_char (CHR ''-'')"
    and "(of_char (digit_char d) :: nat) \<noteq> of_char (CHR ''+'')"
    using assms by simp_all
  then show "digit_char d \<noteq> CHR ''-''" "digit_char d \<noteq> CHR ''+''" by metis+
qed

lemma show_nat_nonempty [simp]: "show_nat n \<noteq> []"
  by (subst show_nat.simps) simp

lemma show_nat_digits: "c \<in> set (show_nat n) \<Longrightarrow> is_digit c"
proof (induction n rule: show_nat.induct)
  case (1 n)
  then show ?case by (subst (asm) show_nat.simps) (auto split: if_splits)
qed

lemma digits_val_snoc [simp]: "digits_val (s @ [c]) = 10 * digits_val s + digit_val c"
  by (simp add: digits_val_def)

lemma digits_val_show_nat [simp]: "digits_val (show_nat n) = n"
proof (induction n rule: show_nat.induct)
  case (1 n)
  then show ?case
    by (subst show_nat.simps) (auto simp: digits_val_def)
qed

lemma show_nat_hd: "\<exists>d cs. d < 10 \<and> show_nat n = digit_char d # cs"
proof (induction n rule: show_nat.induct)
  case (1 n)
  show ?case
  proof (cases "n < 10")
    case True
    then show ?thesis by (subst show_nat.simps) auto
  next
    case False
    with 1 obtain d cs where "d < 10" "show_nat (n div 10) = digit_char d # cs" by blast
    with False show ?thesis by (subst show_nat.simps) auto
  qed
qed

lemma takeWhile_show_nat [simp]: "takeWhile is_digit (show_nat n) = show_nat n"
  using show_nat_digits by (simp add: takeWhile_eq_all_conv)

lemma split_sign_show_nat [simp]: "split_sign (show_nat n) = (False, show_nat n)"
proof -
  obtain d cs where "d < 10" "show_nat n = digit_char d # cs" using show_nat_hd by blast
  then show ?thesis by (simp add: split_sign_def)
qed

lemma dropWhile_show_nat [simp]: "dropWhile is_space (show_nat n) = show_nat n"
proof -
  obtain d cs where "d < 10" "show_nat n = digit_char d # cs" using show_nat_hd by blast
  then show ?thesis by simp
qed

lemma sint_i64_range: "- (2 ^ 63) \<le> sint (w :: i64) \<and> sint w < 2 ^ 63"
  using sint_greater_eq [of w] sint_lt [of w] by simp

lemma stoll_show_nat: "int n < 2 ^ 63 \<Longrightarrow> stoll (show_nat n) = Inr (word_of_int (int n))"
  by (simp add: stoll_def)

lemma stoll_minus_show_nat:
  "int n \<le> 2 ^ 63 \<Longrightarrow> stoll (CHR ''-'' # show_nat n) = Inr (word_of_int (- int n))"
  by (simp add: stoll_def split_sign_def is_space_def)

lemma stoll_to_string [simp]: "stoll (to_string w) = Inr w"
proof (cases "sint w < 0")
  case True
  with sint_i64_range [of w] have "int (nat (- sint w)) \<le> 2 ^ 63" by simp
  with True show ?thesis
    by (simp add: to_string_def stoll_minus_show_nat)
next
  case False
  with sint_i64_range [of w] have "int (nat (sint w)) < 2 ^ 63" by simp
  with False show ?thesis
    by (simp add: to_string_def stoll_show_nat)
qed

lemma to_string_inject [simp]: "to_string v = to_string w \<longleftrightarrow> v = w"
  by (metis stoll_to_string sum.inject(2))

lemma stoll_empty [simp]: "stoll [] = Inl InvalidArgument"
  by (simp add: stoll_def split_sign_def)

section \<open>Time\<close>

text \<open>
  A \<open>steady_clock\<close> time point is its count of nanoseconds; the default constructed one is 0.
  \<open>duration_cast\<close> to milliseconds truncates toward zero.
\<close>

type_synonym time_point = int

definition trunc_div :: "int \<Rightarrow> int \<Rightarrow> int" where
  "trunc_div a b = sgn a * sgn b * (\<bar>a\<bar> div \<bar>b\<bar>)"

definition duration_cast_ms :: "int \<Rightarrow> int" where
  "duration_cast_ms d = trunc_div d 1000000"

lemma duration_cast_ms_nonneg: "0 \<le> d \<Longrightarrow> duration_cast_ms d = d div 1000000"
  by (cases "d = 0") (simp_all add: duration_cast_ms_def trunc_div_def sgn_if)

lemma duration_cast_ms_ge:
  "0 < k \<Longrightarrow> k \<le> duration_cast_ms d \<longleftrightarrow> k * 1000000 \<le> d"
proof (cases "0 \<le> d")
  case True
  assume "0 < k"
  have "k \<le> d div 1000000 \<longleftrightarrow> k * 1000000 \<le> d" by arith
  with True show ?thesis by (simp add: duration_cast_ms_nonneg)
next
  case False
  assume "0 < k"
  moreover have "0 \<le> \<bar>d\<bar> div 1000000" by simp
  ultimately show ?thesis
    using False by (simp add: duration_cast_ms_def trunc_div_def sgn_if)
qed

section \<open>Floating point\<close>

definition dbl_max :: real where
  "dbl_max = 2 ^ 1024 - 2 ^ 971"

definition std_clamp :: "real \<Rightarrow> real \<Rightarrow> real \<Rightarrow> real" where
  "std_clamp v lo hi = (if v < lo then lo else if hi < v then hi else v)"

definition atan2 :: "real \<Rightarrow> real \<Rightarrow> real" where
  "atan2 y x =
     (if 0 < x then arctan (y / x)
      else if x < 0 then (if 0 \<le> y then arctan (y / x) + pi else arctan (y / x) - pi)
      else if 0 < y then pi / 2 else if y < 0 then - (pi / 2) else 0)"

lemma std_clamp_range: "lo \<le> hi \<Longrightarrow> lo \<le> std_clamp v lo hi \<and> std_clamp v lo hi \<le> hi"
  by (simp add: std_clamp_def)

lemma std_clamp_lo: "v < lo \<Longrightarrow> std_clamp v lo hi = lo"
  and std_clamp_hi: "hi < v \<Longrightarrow> lo \<le> hi \<Longrightarrow> std_clamp v lo hi = hi"
  and std_clamp_mid: "lo \<le> v \<Longrightarrow> v \<le> hi \<Longrightarrow> std_clamp v lo hi = v"
  by (simp_all add: std_clamp_def)

text \<open>\<open>atan2\<close> gives the polar angle of the vector.\<close>

lemma sqrt_ratio:
  fixes x y :: real
  assumes "x \<noteq> 0"
  shows "sqrt (1 + (y / x)\<^sup>2) = sqrt (x\<^sup>2 + y\<^sup>2) / \<bar>x\<bar>"
proof -
  have "1 + (y / x)\<^sup>2 = (x\<^sup>2 + y\<^sup>2) / x\<^sup>2"
    using assms by (simp add: power_divide field_simps)
  then show ?thesis by (simp add: real_sqrt_divide)
qed

lemma atan2_polar:
  assumes "x \<noteq> 0 \<or> y \<noteq> 0"
  shows "cos (atan2 y x) * sqrt (x\<^sup>2 + y\<^sup>2) = x \<and> sin (atan2 y x) * sqrt (x\<^sup>2 + y\<^sup>2) = y"
proof (cases "x = 0")
  case True
  with assms show ?thesis by (auto simp: atan2_def)
next
  case False
  then have "sqrt (x\<^sup>2 + y\<^sup>2) \<noteq> 0" by (simp add: sum_power2_eq_zero_iff)
  with False show ?thesis
    by (auto simp: atan2_def cos_arctan sin_arctan sqrt_ratio cos_add cos_diff sin_add sin_diff)
qed

end
