(* ===== verification/LaneletMap.thy ===== *)
theory LaneletMap
  imports Cxx
begin

text \<open>
  The spatial queries of \<open>map_routes/LaneletMap.h\<close> and \<open>LaneletMap.cc\<close>: the two
  nearest-lane scans, the lookup by id, the projection onto a centre line, and the cache of
  resolved lanes all of them share. Although the queries are \<open>const\<close> in the code they append to
  the \<open>mutable\<close> cache, so each takes the map object and returns it.

  What lanelet2 and the MGRS projector compute is data of the object: the lanelets of the
  loaded layer in iteration order, the two directions of the projection, and the routing
  graph's reachable sets. \<open>wf_map\<close> states what the code relies on about them.
\<close>

section \<open>Data\<close>

record gps_coord =
  latitude :: real
  longitude :: real

record local_coord =
  pos_x :: real
  pos_y :: real
  pos_z :: real

record orientation =
  ori_x :: real
  ori_y :: real
  ori_z :: real
  ori_w :: real
  yaw_degrees :: real

record lane_info =
  lane_id :: i64
  lane_gps :: gps_coord
  lane_local :: local_coord
  lane_orientation :: orientation

record fixed_start =
  fs_name :: string
  fs_gps :: gps_coord
  fs_local :: local_coord
  fs_orientation :: orientation

text \<open>What the code reads of a lanelet: its id, its \<open>subtype\<close> attribute and its centre line.\<close>

record lanelet =
  ll_id :: i64
  ll_subtype :: "string option"
  ll_centerline :: "local_coord list"

record projector =
  proj_forward :: "gps_coord \<Rightarrow> local_coord"
  proj_reverse :: "local_coord \<Rightarrow> gps_coord"

record routing_graph =
  reachable_set :: "lanelet \<Rightarrow> real \<Rightarrow> lanelet list"
  following :: "lanelet \<Rightarrow> lanelet list"
  previous :: "lanelet \<Rightarrow> lanelet list"
  left_of :: "lanelet \<Rightarrow> lanelet option"
  right_of :: "lanelet \<Rightarrow> lanelet option"

text \<open>
  The object. \<open>invalid_id\<close> is the value of \<open>lanelet::InvalidId\<close>; \<open>the_map\<close> and
  \<open>the_graph\<close> are shared pointers, \<open>None\<close> when null.
\<close>

record lanelet_map =
  offset_x :: real
  offset_y :: real
  invalid_id :: i64
  the_graph :: "routing_graph option"
  the_map :: "lanelet list option"
  the_projector :: projector
  cache :: "lane_info list"
  default_start :: "fixed_start option"

definition default_orientation :: orientation where
  "default_orientation = \<lparr>ori_x = 0, ori_y = 0, ori_z = 0, ori_w = 0, yaw_degrees = 0\<rparr>"

section \<open>Basic queries\<close>

definition laneletLayer :: "lanelet_map \<Rightarrow> lanelet list" where
  "laneletLayer m = (case the_map m of None \<Rightarrow> [] | Some lls \<Rightarrow> lls)"

definition isLoaded :: "lanelet_map \<Rightarrow> bool" where
  "isLoaded m \<longleftrightarrow> (case the_map m of None \<Rightarrow> False | Some lls \<Rightarrow> lls \<noteq> [])"

definition getLaneletCount :: "lanelet_map \<Rightarrow> nat" where
  "getLaneletCount m = (case the_map m of None \<Rightarrow> 0 | Some lls \<Rightarrow> length lls)"

definition gpsToLocal :: "lanelet_map \<Rightarrow> gps_coord \<Rightarrow> local_coord" where
  "gpsToLocal m g = proj_forward (the_projector m) g"

definition localToGps :: "lanelet_map \<Rightarrow> local_coord \<Rightarrow> gps_coord" where
  "localToGps m l = proj_reverse (the_projector m) l"

definition layer_get :: "lanelet_map \<Rightarrow> i64 \<Rightarrow> exn + lanelet" where
  "layer_get m i =
     (case the_map m of
        None \<Rightarrow> Inl NullPointer
      | Some lls \<Rightarrow>
          (case find (\<lambda>ll. ll_id ll = i) lls of
             None \<Rightarrow> Inl NoSuchPrimitive
           | Some ll \<Rightarrow> Inr ll))"

section \<open>Projection onto a centre line\<close>

text \<open>
  The body of the loop over the segments of the centre line: the point of the segment
  nearest to the target, and its planar distance.
\<close>

definition segment_param :: "local_coord \<Rightarrow> local_coord \<Rightarrow> local_coord \<Rightarrow> real" where
  "segment_param target p0 p1 =
     (let dx = pos_x p1 - pos_x p0;
          dy = pos_y p1 - pos_y p0;
          seg_len2 = dx * dx + dy * dy
      in if seg_len2 > 0
         then std_clamp (((pos_x target - pos_x p0) * dx + (pos_y target - pos_y p0) * dy) / seg_len2) 0 1
         else 0)"

definition segment_point :: "local_coord \<Rightarrow> local_coord \<Rightarrow> local_coord \<Rightarrow> local_coord" where
  "segment_point target p0 p1 =
     (let t = segment_param target p0 p1
      in \<lparr>pos_x = pos_x p0 + t * (pos_x p1 - pos_x p0),
          pos_y = pos_y p0 + t * (pos_y p1 - pos_y p0),
          pos_z = pos_z p0\<rparr>)"

definition planar_dist :: "local_coord \<Rightarrow> local_coord \<Rightarrow> real" where
  "planar_dist a b =
     sqrt ((pos_x a - pos_x b) * (pos_x a - pos_x b) + (pos_y a - pos_y b) * (pos_y a - pos_y b))"

fun project_loop ::
  "local_coord \<Rightarrow> local_coord list \<Rightarrow> real \<times> local_coord option \<Rightarrow> real \<times> local_coord option" where
  "project_loop target (p0 # p1 # ps) (min_dist, best_point) =
     (let p = segment_point target p0 p1;
          dist = planar_dist target p
      in project_loop target (p1 # ps)
           (if dist < min_dist then (dist, Some p) else (min_dist, best_point)))"
| "project_loop target [p0] acc = acc"
| "project_loop target [] acc = acc"

definition projectOntoLaneCenterline :: "lanelet_map \<Rightarrow> gps_coord \<Rightarrow> i64 \<Rightarrow> exn + local_coord" where
  "projectOntoLaneCenterline m g i =
     (case layer_get m i of
        Inl e \<Rightarrow> Inl e
      | Inr ll \<Rightarrow>
          (case snd (project_loop (gpsToLocal m g) (ll_centerline ll) (dbl_max, None)) of
             None \<Rightarrow> Inl Uninitialised
           | Some p \<Rightarrow> Inr p))"

section \<open>Lane descriptions\<close>

definition laneletYaw :: "lanelet \<Rightarrow> real" where
  "laneletYaw ll =
     (let cl = ll_centerline ll
      in if length cl < 2 then 0
         else atan2 (pos_y (last cl) - pos_y (hd cl)) (pos_x (last cl) - pos_x (hd cl)))"

definition yawToQuat :: "real \<Rightarrow> real \<times> real" where
  "yawToQuat yaw_rad = (let h = yaw_rad * (1/2) in (sin h, cos h))"

definition makeLaneInfo :: "lanelet_map \<Rightarrow> lanelet \<Rightarrow> gps_coord \<Rightarrow> exn + lane_info" where
  "makeLaneInfo m ll g =
     (case projectOntoLaneCenterline m g (ll_id ll) of
        Inl e \<Rightarrow> Inl e
      | Inr projected \<Rightarrow>
          (let yaw_rad = laneletYaw ll;
               (qz, qw) = yawToQuat yaw_rad
           in Inr \<lparr>lane_id = ll_id ll,
                   lane_gps = localToGps m projected,
                   lane_local = projected,
                   lane_orientation = \<lparr>ori_x = 0, ori_y = 0, ori_z = qz, ori_w = qw,
                                       yaw_degrees = yaw_rad * 180 / pi\<rparr>\<rparr>))"

section \<open>The nearest-lane scan\<close>

definition excluded_subtype :: "string \<Rightarrow> bool" where
  "excluded_subtype st \<longleftrightarrow>
     st = ''crosswalk'' \<or> st = ''walkway'' \<or> st = ''stairs'' \<or> st = ''pedestrian''"

definition drivable :: "lanelet \<Rightarrow> bool" where
  "drivable ll \<longleftrightarrow> (case ll_subtype ll of None \<Rightarrow> True | Some st \<Rightarrow> \<not> excluded_subtype st)"

definition midpoint :: "local_coord list \<Rightarrow> local_coord" where
  "midpoint cl = cl ! (length cl div 2)"

definition midpoint_dist :: "lanelet_map \<Rightarrow> local_coord \<Rightarrow> lanelet \<Rightarrow> real" where
  "midpoint_dist m target ll =
     (let mid = midpoint (ll_centerline ll);
          lx = offset_x m + pos_x mid;
          ly = offset_y m + pos_y mid;
          dx = lx - pos_x target;
          dy = ly - pos_y target
      in sqrt (dx * dx + dy * dy))"

text \<open>The body of the loop both queries run over their candidates, and the loop.\<close>

definition scan_step :: "lanelet_map \<Rightarrow> local_coord \<Rightarrow> lanelet \<Rightarrow> real \<times> i64 \<Rightarrow> real \<times> i64" where
  "scan_step m target ll acc =
     (if \<not> drivable ll then acc
      else if ll_centerline ll = [] then acc
      else (let dist = midpoint_dist m target ll
            in if dist < fst acc then (dist, ll_id ll) else acc))"

definition nearest_scan :: "lanelet_map \<Rightarrow> local_coord \<Rightarrow> lanelet list \<Rightarrow> real \<times> i64" where
  "nearest_scan m target candidates = fold (scan_step m target) candidates (dbl_max, invalid_id m)"

section \<open>The cached lookups\<close>

definition cache_find :: "lanelet_map \<Rightarrow> i64 \<Rightarrow> lane_info option" where
  "cache_find m i = find (\<lambda>cached. lane_id cached = i) (cache m)"

definition emplace_lane :: "lanelet_map \<Rightarrow> lanelet \<Rightarrow> gps_coord \<Rightarrow> exn + (lane_info option \<times> lanelet_map)" where
  "emplace_lane m ll g =
     (case makeLaneInfo m ll g of
        Inl e \<Rightarrow> Inl e
      | Inr info \<Rightarrow> Inr (Some info, m\<lparr>cache := cache m @ [info]\<rparr>))"

text \<open>The common end of the two scans: the cache first, otherwise a new entry.\<close>

definition resolve_best :: "lanelet_map \<Rightarrow> gps_coord \<Rightarrow> i64 \<Rightarrow> exn + (lane_info option \<times> lanelet_map)" where
  "resolve_best m g best_id =
     (if best_id = invalid_id m then Inr (None, m)
      else case cache_find m best_id of
             Some cached \<Rightarrow> Inr (Some cached, m)
           | None \<Rightarrow>
               (case layer_get m best_id of
                  Inl e \<Rightarrow> Inl e
                | Inr ll \<Rightarrow> emplace_lane m ll g))"

definition findNearestLane :: "lanelet_map \<Rightarrow> gps_coord \<Rightarrow> exn + (lane_info option \<times> lanelet_map)" where
  "findNearestLane m g =
     (if \<not> isLoaded m then Inr (None, m)
      else resolve_best m g (snd (nearest_scan m (gpsToLocal m g) (laneletLayer m))))"

definition getLaneById :: "lanelet_map \<Rightarrow> i64 \<Rightarrow> exn + (lane_info option \<times> lanelet_map)" where
  "getLaneById m i =
     (case cache_find m i of
        Some cached \<Rightarrow> Inr (Some cached, m)
      | None \<Rightarrow>
          (case the_map m of
             None \<Rightarrow> Inl NullPointer
           | Some lls \<Rightarrow>
               (case find (\<lambda>ll. ll_id ll = i) lls of
                  None \<Rightarrow> Inr (None, m)
                | Some ll \<Rightarrow>
                    (if ll_centerline ll = [] then Inl BadIndex
                     else emplace_lane m ll (localToGps m (midpoint (ll_centerline ll)))))))"

definition connected_candidates ::
  "lanelet_map \<Rightarrow> routing_graph \<Rightarrow> lanelet \<Rightarrow> i64 \<Rightarrow> bool \<Rightarrow> lanelet list" where
  "connected_candidates m rg reference_ll reference_id must_be_reachable_from_ref =
     (if must_be_reachable_from_ref then reachable_set rg reference_ll 8000
      else filter (\<lambda>ll. \<exists>r \<in> set (reachable_set rg ll 8000). ll_id r = reference_id)
             (laneletLayer m))"

definition findNearestConnectedLane ::
  "lanelet_map \<Rightarrow> gps_coord \<Rightarrow> i64 \<Rightarrow> bool \<Rightarrow> exn + (lane_info option \<times> lanelet_map)" where
  "findNearestConnectedLane m g reference_id must_be_reachable_from_ref =
     (case (isLoaded m, the_graph m) of
        (True, Some rg) \<Rightarrow>
          (case layer_get m reference_id of
             Inl e \<Rightarrow> Inl e
           | Inr reference_ll \<Rightarrow>
               resolve_best m g
                 (snd (nearest_scan m (gpsToLocal m g)
                         (connected_candidates m rg reference_ll reference_id must_be_reachable_from_ref))))
      | _ \<Rightarrow> Inr (None, m))"

section \<open>The fixed start position\<close>

definition setDefaultStart :: "lanelet_map \<Rightarrow> string \<Rightarrow> gps_coord \<Rightarrow> exn + lanelet_map" where
  "setDefaultStart m name g =
     (case findNearestLane m g of
        Inl e \<Rightarrow> Inl e
      | Inr (Some lane, m') \<Rightarrow>
          Inr (m'\<lparr>default_start := Some \<lparr>fs_name = name, fs_gps = g, fs_local = lane_local lane,
                                          fs_orientation = lane_orientation lane\<rparr>\<rparr>)
      | Inr (None, m') \<Rightarrow>
          Inr (m'\<lparr>default_start := Some \<lparr>fs_name = name, fs_gps = g, fs_local = gpsToLocal m' g,
                                          fs_orientation = default_orientation\<rparr>\<rparr>))"

definition getDefaultStart :: "lanelet_map \<Rightarrow> fixed_start option" where
  "getDefaultStart m = default_start m"

end
