(* ===== verification/RosMessages.thy ===== *)
theory RosMessages
  imports LaneletMap
begin

text \<open>
  The ROS and Autoware messages the agent reads and writes, with the fields the code uses.
  The message packages are not part of the repository. Where the code compares a message field
  with named constants of its package, the field is a datatype with one constructor for each
  constant the code names and one for every other value.
\<close>

section \<open>Localisation, routing and operation mode\<close>

datatype loc_init_state =
    LS_UNINITIALIZED
  | LS_INITIALIZING
  | LS_INITIALIZED
  | LS_OTHER "16 word"

datatype route_state_value =
    RS_UNSET
  | RS_SET
  | RS_ARRIVED
  | RS_CHANGING
  | RS_OTHER u8

datatype operation_mode_value =
    OM_STOP
  | OM_AUTONOMOUS
  | OM_LOCAL
  | OM_REMOTE
  | OM_OTHER u8

record op_mode_state =
  om_mode :: operation_mode_value
  is_autonomous_mode_available :: bool

section \<open>Routes\<close>

record lanelet_primitive =
  prim_id :: i64
  primitive_type :: string

record lanelet_segment =
  preferred_primitive :: lanelet_primitive
  primitives :: "lanelet_primitive list"

record lanelet_route =
  route_start :: local_coord
  route_goal :: local_coord
  route_segments :: "lanelet_segment list"

definition empty_route :: lanelet_route where
  "empty_route =
     \<lparr>route_start = \<lparr>pos_x = 0, pos_y = 0, pos_z = 0\<rparr>, route_goal = \<lparr>pos_x = 0, pos_y = 0, pos_z = 0\<rparr>,
      route_segments = []\<rparr>"

section \<open>Poses\<close>

text \<open>A stamped pose in a named frame; the time stamp is left out.\<close>

record pose_msg =
  frame_id :: string
  position :: local_coord
  ori4 :: "real \<times> real \<times> real \<times> real"

end
