(* ===== verification/TripTypes.thy ===== *)
theory TripTypes
  imports RosMessages
begin

text \<open>
  The data of a trip: \<open>TripStates.h\<close>, \<open>TripStatus.h\<close> and \<open>TripTimings.h\<close>, and the order
  of the states, which the code uses when it casts a state to \<open>int\<close>.
\<close>

section \<open>States\<close>

datatype trip_state =
    IDLE
  | INITIALIZING_IN_MAP
  | QUERY_PUBLISHING_INITIAL_POSE
  | QUERY_WAITING_LOCALISATION
  | QUERY_PUBLISHING_GOAL
  | QUERY_WAITING_ROUTE
  | QUERY_READING_ETA
  | ROUTES_READY
  | WAITING_FOR_PICKUP_START
  | PUBLISHING_INITIAL_POSE
  | WAITING_LOCALISATION
  | ENGAGING
  | DRIVING_TO_PICKUP
  | WAITING_FOR_MOVE
  | RUNNING
  | COMPLETED
  | CANCELLED
  | FAILED

text \<open>\<open>static_cast<int>(state)\<close>.\<close>

fun trip_state_int :: "trip_state \<Rightarrow> int" where
  "trip_state_int IDLE = 0"
| "trip_state_int INITIALIZING_IN_MAP = 1"
| "trip_state_int QUERY_PUBLISHING_INITIAL_POSE = 2"
| "trip_state_int QUERY_WAITING_LOCALISATION = 3"
| "trip_state_int QUERY_PUBLISHING_GOAL = 4"
| "trip_state_int QUERY_WAITING_ROUTE = 5"
| "trip_state_int QUERY_READING_ETA = 6"
| "trip_state_int ROUTES_READY = 7"
| "trip_state_int WAITING_FOR_PICKUP_START = 8"
| "trip_state_int PUBLISHING_INITIAL_POSE = 9"
| "trip_state_int WAITING_LOCALISATION = 10"
| "trip_state_int ENGAGING = 11"
| "trip_state_int DRIVING_TO_PICKUP = 12"
| "trip_state_int WAITING_FOR_MOVE = 13"
| "trip_state_int RUNNING = 14"
| "trip_state_int COMPLETED = 15"
| "trip_state_int CANCELLED = 16"
| "trip_state_int FAILED = 17"

lemma trip_state_int_inject [simp]: "trip_state_int a = trip_state_int b \<longleftrightarrow> a = b"
  by (cases a; cases b) simp_all

instantiation trip_state :: linorder
begin

definition less_eq_trip_state :: "trip_state \<Rightarrow> trip_state \<Rightarrow> bool" where
  "less_eq_trip_state a b \<longleftrightarrow> trip_state_int a \<le> trip_state_int b"

definition less_trip_state :: "trip_state \<Rightarrow> trip_state \<Rightarrow> bool" where
  "less_trip_state a b \<longleftrightarrow> trip_state_int a < trip_state_int b"

instance
  by standard (auto simp: less_eq_trip_state_def less_trip_state_def)

end

section \<open>Status, query results and held routes\<close>

record trip_status =
  st_state :: trip_state
  start_lanelet_id :: string
  start_x :: real
  start_y :: real
  start_z :: real
  start_qw :: real
  start_qz :: real
  start_gps :: gps_coord
  goal_gps :: gps_coord
  goal_lanelet_id :: string
  goal_x :: real
  goal_y :: real
  goal_z :: real
  goal_qw :: real
  goal_qz :: real
  goal_distance_m :: real
  current_gps :: gps_coord
  trip_started_at :: time_point
  last_state_change :: time_point

definition gps_zero :: gps_coord where
  "gps_zero = \<lparr>latitude = 0, longitude = 0\<rparr>"

text \<open>The value-initialised status \<open>TripStatus{}\<close>.\<close>

definition default_status :: trip_status where
  "default_status =
     \<lparr>st_state = IDLE, start_lanelet_id = [], start_x = 0, start_y = 0, start_z = 0,
      start_qw = 0, start_qz = 0, start_gps = gps_zero, goal_gps = gps_zero, goal_lanelet_id = [],
      goal_x = 0, goal_y = 0, goal_z = 0, goal_qw = 0, goal_qz = 0, goal_distance_m = 0,
      current_gps = gps_zero, trip_started_at = 0, last_state_change = 0\<rparr>"

record leg_eta =
  leg_success :: bool
  leg_distance_m :: real
  leg_eta_seconds :: real
  leg_start_lane_id :: string
  leg_goal_lane_id :: string
  leg_error_message :: string

definition default_leg :: leg_eta where
  "default_leg =
     \<lparr>leg_success = False, leg_distance_m = 0, leg_eta_seconds = 0, leg_start_lane_id = [],
      leg_goal_lane_id = [], leg_error_message = []\<rparr>"

record eta_query_result =
  q_success :: bool
  pickup_leg :: leg_eta
  trip_leg :: leg_eta
  q_error_message :: string
  q_fare :: real

definition default_result :: eta_query_result where
  "default_result =
     \<lparr>q_success = False, pickup_leg = default_leg, trip_leg = default_leg, q_error_message = [],
      q_fare = 0\<rparr>"

record held_route =
  held_route_msg :: lanelet_route
  held_eta_seconds :: real
  held_distance_m :: real
  held_goal_gps :: gps_coord
  held_goal_lane_id :: i64

section \<open>Timings\<close>

record trip_timings =
  initial_pose_delay_ms :: int
  goal_delay_ms :: int
  route_poll_interval_ms :: int
  route_timeout_ms :: int
  loc_timeout_ms :: int
  eta_settle_ms :: int

definition default_timings :: trip_timings where
  "default_timings =
     \<lparr>initial_pose_delay_ms = 15000, goal_delay_ms = 9000, route_poll_interval_ms = 500,
      route_timeout_ms = 30000, loc_timeout_ms = 30000, eta_settle_ms = 2000\<rparr>"

end
