(* ===== verification/LaneSearch.thy ===== *)
theory LaneSearch
  imports LaneletMap
begin

text \<open>
  Correctness of the two search loops of the lanelet map. Both keep the best distance seen so
  far and replace it only by a strictly smaller one; \<open>argmin_loop\<close> states that contract and
  proves once what such a loop returns. The nearest-lane scan and the loop over the segments of
  a centre line are interpretations of it.
\<close>

section \<open>Loops that keep the smallest distance\<close>

locale argmin_loop =
  fixes ok :: "'a \<Rightarrow> bool"
    and dist_of :: "'a \<Rightarrow> real"
    and val_of :: "'a \<Rightarrow> 'k"
    and step :: "'a \<Rightarrow> real \<times> 'k \<Rightarrow> real \<times> 'k"
  assumes step_eq: "step x acc = (if ok x \<and> dist_of x < fst acc then (dist_of x, val_of x) else acc)"
begin

lemma step_take: "ok x \<Longrightarrow> dist_of x < fst acc \<Longrightarrow> step x acc = (dist_of x, val_of x)"
  and step_skip: "\<not> (ok x \<and> dist_of x < fst acc) \<Longrightarrow> step x acc = acc"
  by (simp_all only: step_eq) auto

lemma fold_none:
  "\<forall>x \<in> set xs. ok x \<longrightarrow> d0 \<le> dist_of x \<Longrightarrow> fold step xs (d0, k0) = (d0, k0)"
  by (induction xs) (auto simp: step_skip)

lemma fold_bound:
  "fst (fold step xs acc) \<le> fst acc \<and> (\<forall>x \<in> set xs. ok x \<longrightarrow> fst (fold step xs acc) \<le> dist_of x)"
proof (induction xs arbitrary: acc)
  case Nil
  then show ?case by simp
next
  case (Cons x xs)
  from Cons.IH [of "step x acc"] show ?case by (force simp: step_eq)
qed

lemma fold_cases:
  obtains (none) "fold step xs acc = acc" "\<forall>x \<in> set xs. ok x \<longrightarrow> fst acc \<le> dist_of x"
    | (best) us x vs where "xs = us @ x # vs" "ok x" "dist_of x < fst acc"
        "fold step xs acc = (dist_of x, val_of x)"
        "\<forall>u \<in> set us. ok u \<longrightarrow> dist_of x < dist_of u" "\<forall>v \<in> set vs. ok v \<longrightarrow> dist_of x \<le> dist_of v"
proof (induction xs arbitrary: thesis rule: rev_induct)
  case Nil
  then show ?case by simp
next
  case (snoc y ys)
  show ?case
  proof (rule snoc.IH)
    assume r: "fold step ys acc = acc" and lo: "\<forall>x \<in> set ys. ok x \<longrightarrow> fst acc \<le> dist_of x"
    show thesis
    proof (cases "ok y \<and> dist_of y < fst acc")
      case True
      with r lo show thesis
        by (intro snoc.prems(2) [of ys y "[]"]) (auto simp: step_take)
    next
      case False
      with r lo show thesis
        by (intro snoc.prems(1)) (auto simp: step_skip)
    qed
  next
    fix us x vs
    assume split: "ys = us @ x # vs" and x: "ok x" "dist_of x < fst acc"
      and r: "fold step ys acc = (dist_of x, val_of x)"
      and us: "\<forall>u \<in> set us. ok u \<longrightarrow> dist_of x < dist_of u"
      and vs: "\<forall>v \<in> set vs. ok v \<longrightarrow> dist_of x \<le> dist_of v"
    show thesis
    proof (cases "ok y \<and> dist_of y < dist_of x")
      case True
      from True us vs x have "\<forall>u \<in> set ys. ok u \<longrightarrow> dist_of y < dist_of u"
        unfolding split by force
      with True r x show thesis
        by (intro snoc.prems(2) [of ys y "[]"]) (simp_all add: step_take)
    next
      case False
      with r split x us vs show thesis
        by (intro snoc.prems(2) [of us x "vs @ [y]"]) (auto simp: step_skip)
    qed
  qed
qed

lemma fold_best:
  assumes "x \<in> set xs" "ok x" "dist_of x < fst acc"
  obtains b where "b \<in> set xs" "ok b" "fold step xs acc = (dist_of b, val_of b)"
    "\<forall>y \<in> set xs. ok y \<longrightarrow> dist_of b \<le> dist_of y"
proof (rule fold_cases [of xs acc])
  assume "\<forall>x \<in> set xs. ok x \<longrightarrow> fst acc \<le> dist_of x"
  with assms have False by auto
  then show thesis ..
next
  fix us b vs
  assume split: "xs = us @ b # vs" and b: "ok b" "fold step xs acc = (dist_of b, val_of b)"
    and us: "\<forall>u \<in> set us. ok u \<longrightarrow> dist_of b < dist_of u"
    and vs: "\<forall>v \<in> set vs. ok v \<longrightarrow> dist_of b \<le> dist_of v"
  from us vs have "\<forall>y \<in> set xs. ok y \<longrightarrow> dist_of b \<le> dist_of y"
    unfolding split by (auto simp: less_imp_le)
  with split b show thesis by (intro that [of b]) simp_all
qed

end

section \<open>The nearest-lane scan\<close>

definition eligible :: "lanelet \<Rightarrow> bool" where
  "eligible ll \<longleftrightarrow> drivable ll \<and> ll_centerline ll \<noteq> []"

interpretation lane_scan: argmin_loop eligible "midpoint_dist m target" ll_id "scan_step m target"
  for m :: lanelet_map and target :: local_coord
  by unfold_locales (simp add: scan_step_def eligible_def Let_def)

lemma nearest_scan_none:
  "\<forall>ll \<in> set lls. eligible ll \<longrightarrow> dbl_max \<le> midpoint_dist m t ll \<Longrightarrow>
     snd (nearest_scan m t lls) = invalid_id m"
  by (simp add: nearest_scan_def lane_scan.fold_none)

lemma nearest_scan_best:
  assumes "ll \<in> set lls" "eligible ll" "midpoint_dist m t ll < dbl_max"
  obtains b where "b \<in> set lls" "eligible b" "snd (nearest_scan m t lls) = ll_id b"
    "\<forall>y \<in> set lls. eligible y \<longrightarrow> midpoint_dist m t b \<le> midpoint_dist m t y"
proof (rule lane_scan.fold_best [of ll lls m t "(dbl_max, invalid_id m)"])
  show "midpoint_dist m t ll < fst (dbl_max, invalid_id m)" using assms(3) by simp
qed (use assms that in \<open>auto simp: nearest_scan_def\<close>)

lemma nearest_scan_cases:
  obtains (none) "snd (nearest_scan m t lls) = invalid_id m"
    | (best) us b vs where "lls = us @ b # vs" "eligible b" "snd (nearest_scan m t lls) = ll_id b"
        "\<forall>u \<in> set us. eligible u \<longrightarrow> midpoint_dist m t b < midpoint_dist m t u"
        "\<forall>v \<in> set vs. eligible v \<longrightarrow> midpoint_dist m t b \<le> midpoint_dist m t v"
  by (rule lane_scan.fold_cases [of m t lls "(dbl_max, invalid_id m)"])
    (auto simp: nearest_scan_def)

lemma nearest_scan_cong:
  "offset_x m' = offset_x m \<Longrightarrow> offset_y m' = offset_y m \<Longrightarrow> invalid_id m' = invalid_id m \<Longrightarrow>
     nearest_scan m' t lls = nearest_scan m t lls"
proof -
  assume a: "offset_x m' = offset_x m" "offset_y m' = offset_y m" "invalid_id m' = invalid_id m"
  then have "scan_step m' t = scan_step m t"
    by (intro ext) (simp add: scan_step_def midpoint_dist_def)
  with a show ?thesis by (simp add: nearest_scan_def)
qed

section \<open>The loop over the segments of a centre line\<close>

definition segments :: "'a list \<Rightarrow> ('a \<times> 'a) list" where
  "segments ps = zip ps (tl ps)"

lemma segments_simps [simp]:
  "segments [] = []" "segments [p] = []" "segments (p # q # ps) = (p, q) # segments (q # ps)"
  by (simp_all add: segments_def)

definition project_step ::
  "local_coord \<Rightarrow> local_coord \<times> local_coord \<Rightarrow> real \<times> local_coord option \<Rightarrow> real \<times> local_coord option" where
  "project_step target seg acc =
     (let p = segment_point target (fst seg) (snd seg);
          dist = planar_dist target p
      in if dist < fst acc then (dist, Some p) else acc)"

lemma project_loop_fold: "project_loop target ps acc = fold (project_step target) (segments ps) acc"
proof (induction target ps acc rule: project_loop.induct)
  case (1 target p0 p1 ps min_dist best_point)
  then show ?case by (simp add: project_step_def Let_def)
qed simp_all

interpretation segment_scan: argmin_loop "\<lambda>_. True"
  "\<lambda>seg. planar_dist target (segment_point target (fst seg) (snd seg))"
  "\<lambda>seg. Some (segment_point target (fst seg) (snd seg))" "project_step target"
  for target :: local_coord
  by unfold_locales (simp add: project_step_def Let_def)

text \<open>
  The clamped parameter minimises the squared distance to the points of a segment: the
  distance is a quadratic of the parameter with non-negative leading coefficient.
\<close>

lemma clamp_minimises:
  fixes l c t :: real
  assumes "0 < l" "0 \<le> t" "t \<le> 1"
  shows "l * (std_clamp (c / l) 0 1)\<^sup>2 - 2 * c * std_clamp (c / l) 0 1 \<le> l * t\<^sup>2 - 2 * c * t"
proof -
  let ?s = "std_clamp (c / l) 0 1"
  have eq: "l * t\<^sup>2 - 2 * c * t - (l * ?s\<^sup>2 - 2 * c * ?s) = l * (t - ?s)\<^sup>2 + 2 * (t - ?s) * (l * ?s - c)"
    by (simp add: power2_eq_square algebra_simps)
  have "0 \<le> (t - ?s) * (l * ?s - c)"
  proof -
    consider (lo) "c / l < 0" | (hi) "1 < c / l" | (mid) "0 \<le> c / l" "c / l \<le> 1" by linarith
    then show ?thesis
    proof cases
      case lo
      with assms have "c < 0" by (simp add: divide_less_0_iff)
      moreover from lo have "?s = 0" by (rule std_clamp_lo)
      ultimately show ?thesis using assms by (simp add: mult_nonneg_nonpos)
    next
      case hi
      with assms have "l < c" by (simp add: field_simps)
      moreover from hi have "?s = 1" by (rule std_clamp_hi) simp
      ultimately show ?thesis using assms mult_nonpos_nonpos [of "t - 1" "l - c"] by simp
    next
      case mid
      then have "?s = c / l" by (rule std_clamp_mid)
      with assms show ?thesis by simp
    qed
  qed
  moreover have "0 \<le> l * (t - ?s)\<^sup>2" using assms by simp
  ultimately show ?thesis using eq by linarith
qed

definition point_at :: "local_coord \<Rightarrow> local_coord \<Rightarrow> real \<Rightarrow> local_coord" where
  "point_at p0 p1 t =
     \<lparr>pos_x = pos_x p0 + t * (pos_x p1 - pos_x p0), pos_y = pos_y p0 + t * (pos_y p1 - pos_y p0),
      pos_z = pos_z p0\<rparr>"

lemma segment_point_at: "segment_point target p0 p1 = point_at p0 p1 (segment_param target p0 p1)"
  by (simp add: segment_point_def point_at_def Let_def)

lemma segment_param_range: "0 \<le> segment_param target p0 p1 \<and> segment_param target p0 p1 \<le> 1"
  using std_clamp_range [of 0 1] by (simp add: segment_param_def Let_def)

lemma segment_point_closest:
  assumes "0 \<le> t" "t \<le> 1"
  shows "planar_dist target (segment_point target p0 p1) \<le> planar_dist target (point_at p0 p1 t)"
proof -
  define dx dy where "dx = pos_x p1 - pos_x p0" and "dy = pos_y p1 - pos_y p0"
  define ax ay where "ax = pos_x target - pos_x p0" and "ay = pos_y target - pos_y p0"
  define l c where "l = dx * dx + dy * dy" and "c = ax * dx + ay * dy"
  let ?s = "segment_param target p0 p1"
  have sq: "(pos_x target - pos_x (point_at p0 p1 u)) * (pos_x target - pos_x (point_at p0 p1 u)) +
      (pos_y target - pos_y (point_at p0 p1 u)) * (pos_y target - pos_y (point_at p0 p1 u)) =
      ax\<^sup>2 + ay\<^sup>2 + (l * u\<^sup>2 - 2 * c * u)" for u
    by (simp add: point_at_def l_def c_def ax_def ay_def dx_def dy_def power2_eq_square algebra_simps)
  have le: "l * ?s\<^sup>2 - 2 * c * ?s \<le> l * t\<^sup>2 - 2 * c * t"
  proof (cases "0 < l")
    case True
    then have "?s = std_clamp (c / l) 0 1"
      by (simp add: segment_param_def Let_def l_def c_def ax_def ay_def dx_def dy_def)
    with True assms show ?thesis using clamp_minimises [of l t c] by simp
  next
    case False
    moreover have "0 \<le> dx * dx" "0 \<le> dy * dy" by simp_all
    ultimately have "dx * dx = 0" "dy * dy = 0" unfolding l_def by linarith+
    then show ?thesis by (simp add: l_def c_def)
  qed
  show ?thesis
    unfolding segment_point_at planar_dist_def sq using le by (intro real_sqrt_le_mono) linarith
qed

end
