(* ===== verification/LaneCache.thy ===== *)
theory LaneCache
  imports LaneSearch
begin

text \<open>
  The cache of resolved lanes. \<open>wf_map\<close> is what the code relies on about the loaded map;
  \<open>cache_inv\<close> is the invariant of the cache. A lookup keeps it, only
  appends to the cache, and returns one of its entries.
\<close>

section \<open>Well-formed maps\<close>

text \<open>
  Map coordinates are metres within a grid square; any bound far below the sentinel
  \<open>numeric_limits<double>::max()\<close> will do.
\<close>

definition coord_bound :: real where
  "coord_bound = 10 ^ 150"

definition bounded_point :: "local_coord \<Rightarrow> bool" where
  "bounded_point p \<longleftrightarrow> \<bar>pos_x p\<bar> \<le> coord_bound \<and> \<bar>pos_y p\<bar> \<le> coord_bound"

definition wf_lanelet :: "lanelet \<Rightarrow> bool" where
  "wf_lanelet ll \<longleftrightarrow> 2 \<le> length (ll_centerline ll) \<and> (\<forall>p \<in> set (ll_centerline ll). bounded_point p)"

definition wf_map :: "lanelet_map \<Rightarrow> bool" where
  "wf_map m \<longleftrightarrow>
     the_map m \<noteq> None \<and> laneletLayer m \<noteq> [] \<and>
     distinct (map ll_id (laneletLayer m)) \<and>
     invalid_id m \<notin> ll_id ` set (laneletLayer m) \<and>
     (\<forall>ll \<in> set (laneletLayer m). wf_lanelet ll) \<and>
     (\<forall>g. bounded_point (gpsToLocal m g)) \<and>
     \<bar>offset_x m\<bar> \<le> coord_bound \<and> \<bar>offset_y m\<bar> \<le> coord_bound \<and>
     (\<forall>rg ll r. the_graph m = Some rg \<longrightarrow> set (reachable_set rg ll r) \<subseteq> set (laneletLayer m))"

definition lane_ids :: "lanelet_map \<Rightarrow> i64 set" where
  "lane_ids m = ll_id ` set (laneletLayer m)"

definition cache_inv :: "lanelet_map \<Rightarrow> bool" where
  "cache_inv m \<longleftrightarrow> distinct (map lane_id (cache m)) \<and> lane_id ` set (cache m) \<subseteq> lane_ids m"

lemma static_simps [simp]:
  "laneletLayer (m\<lparr>cache := c\<rparr>) = laneletLayer m"
  "isLoaded (m\<lparr>cache := c\<rparr>) = isLoaded m"
  "lane_ids (m\<lparr>cache := c\<rparr>) = lane_ids m"
  "gpsToLocal (m\<lparr>cache := c\<rparr>) g = gpsToLocal m g"
  "localToGps (m\<lparr>cache := c\<rparr>) l = localToGps m l"
  "layer_get (m\<lparr>cache := c\<rparr>) i = layer_get m i"
  "getDefaultStart (m\<lparr>cache := c\<rparr>) = getDefaultStart m"
  "wf_map (m\<lparr>cache := c\<rparr>) = wf_map m"
  "connected_candidates (m\<lparr>cache := c\<rparr>) rg ll i f = connected_candidates m rg ll i f"
  "nearest_scan (m\<lparr>cache := c\<rparr>) t lls = nearest_scan m t lls"
  by (simp_all add: laneletLayer_def isLoaded_def lane_ids_def gpsToLocal_def localToGps_def
      layer_get_def getDefaultStart_def wf_map_def connected_candidates_def
      nearest_scan_cong [of "m\<lparr>cache := c\<rparr>" m])

lemma wf_map_loaded [simp]: "wf_map m \<Longrightarrow> isLoaded m"
  by (auto simp: wf_map_def isLoaded_def laneletLayer_def split: option.splits)

lemma wf_map_layer: "wf_map m \<Longrightarrow> the_map m = Some (laneletLayer m)"
  by (auto simp: wf_map_def laneletLayer_def split: option.splits)

lemma wf_map_lanelet: "wf_map m \<Longrightarrow> ll \<in> set (laneletLayer m) \<Longrightarrow> wf_lanelet ll"
  by (simp add: wf_map_def)

lemma wf_map_distinct: "wf_map m \<Longrightarrow> distinct (map ll_id (laneletLayer m))"
  by (simp add: wf_map_def)

lemma wf_map_invalid: "wf_map m \<Longrightarrow> invalid_id m \<notin> lane_ids m"
  by (simp add: wf_map_def lane_ids_def)

lemma layer_get_in:
  "wf_map m \<Longrightarrow> ll \<in> set (laneletLayer m) \<Longrightarrow> layer_get m (ll_id ll) = Inr ll"
  using find_map_Some [of ll_id "laneletLayer m" ll]
  by (simp add: layer_get_def wf_map_layer wf_map_distinct)

lemma layer_get_Inr: "wf_map m \<Longrightarrow> layer_get m i = Inr ll \<Longrightarrow> ll \<in> set (laneletLayer m) \<and> ll_id ll = i"
  by (auto simp: layer_get_def wf_map_layer split: option.splits dest: find_SomeD)

lemma lane_idsE:
  assumes "i \<in> lane_ids m"
  obtains ll where "ll \<in> set (laneletLayer m)" "ll_id ll = i"
  using assms by (auto simp: lane_ids_def)

section \<open>Distances stay below the sentinel\<close>

lemma sqrt_below_dbl_max:
  assumes "\<bar>a\<bar> \<le> 10 * coord_bound" "\<bar>b\<bar> \<le> 10 * coord_bound"
  shows "sqrt (a * a + b * b) < dbl_max"
proof -
  have "sqrt (a * a + b * b) \<le> \<bar>a\<bar> + \<bar>b\<bar>"
    using sqrt_sum_squares_le_sum_abs [of a b] by (simp add: power2_eq_square)
  also have "\<dots> \<le> 20 * coord_bound" using assms by linarith
  also have "\<dots> < dbl_max" by (simp add: dbl_max_def coord_bound_def)
  finally show ?thesis .
qed

lemma midpoint_in: "cl \<noteq> [] \<Longrightarrow> midpoint cl \<in> set cl"
  by (simp add: midpoint_def)

lemma midpoint_dist_bound:
  assumes "wf_map m" "ll \<in> set (laneletLayer m)" "bounded_point t"
  shows "midpoint_dist m t ll < dbl_max"
proof -
  from assms have "wf_lanelet ll" by (simp add: wf_map_lanelet)
  moreover from this have "ll_centerline ll \<noteq> []" by (auto simp: wf_lanelet_def)
  ultimately have "bounded_point (midpoint (ll_centerline ll))"
    by (simp add: wf_lanelet_def midpoint_in)
  moreover have "\<bar>offset_x m\<bar> \<le> coord_bound" "\<bar>offset_y m\<bar> \<le> coord_bound"
    using assms(1) by (simp_all add: wf_map_def)
  ultimately show ?thesis
    using assms(3) unfolding midpoint_dist_def Let_def bounded_point_def
    by (intro sqrt_below_dbl_max) linarith+
qed

lemma convex_bound:
  fixes a b t :: real
  assumes "\<bar>a\<bar> \<le> B" "\<bar>b\<bar> \<le> B" "0 \<le> t" "t \<le> 1"
  shows "\<bar>a + t * (b - a)\<bar> \<le> 3 * B"
proof -
  have "\<bar>t * (b - a)\<bar> \<le> 1 * \<bar>b - a\<bar>"
    unfolding abs_mult using assms by (intro mult_right_mono) auto
  moreover have "\<bar>b - a\<bar> \<le> \<bar>b\<bar> + \<bar>a\<bar>" by (rule abs_triangle_ineq4)
  moreover have "\<bar>a + t * (b - a)\<bar> \<le> \<bar>a\<bar> + \<bar>t * (b - a)\<bar>" by (rule abs_triangle_ineq)
  ultimately show ?thesis using assms(1,2) by linarith
qed

lemma segment_dist_bound:
  assumes "bounded_point t" "bounded_point p0" "bounded_point p1"
  shows "planar_dist t (segment_point t p0 p1) < dbl_max"
proof -
  let ?s = "segment_param t p0 p1"
  have "\<bar>pos_x p0 + ?s * (pos_x p1 - pos_x p0)\<bar> \<le> 3 * coord_bound"
    and "\<bar>pos_y p0 + ?s * (pos_y p1 - pos_y p0)\<bar> \<le> 3 * coord_bound"
    using assms segment_param_range [of t p0 p1]
    by (auto intro!: convex_bound simp: bounded_point_def)
  then show ?thesis
    using assms(1) unfolding planar_dist_def segment_point_at point_at_def bounded_point_def
    by (intro sqrt_below_dbl_max) (simp_all, linarith+)
qed

lemma segments_nonempty: "2 \<le> length ps \<Longrightarrow> segments ps \<noteq> []"
  by (cases ps rule: list.exhaust [case_product list.exhaust]) (auto simp: segments_def neq_Nil_conv Suc_le_eq)

lemma segments_in: "(a, b) \<in> set (segments ps) \<Longrightarrow> a \<in> set ps \<and> b \<in> set ps"
  unfolding segments_def by (cases ps) (auto dest: set_zip_leftD set_zip_rightD)

section \<open>The projection\<close>

text \<open>
  On a well-formed centre line the projection is defined, lies on one of the segments, and no
  point of any segment is nearer to the target.
\<close>

lemma project_loop_closest:
  assumes "wf_lanelet ll" "bounded_point t"
  obtains a b where "(a, b) \<in> set (segments (ll_centerline ll))"
    "snd (project_loop t (ll_centerline ll) (dbl_max, None)) = Some (segment_point t a b)"
    "\<forall>(c, d) \<in> set (segments (ll_centerline ll)). \<forall>u. 0 \<le> u \<and> u \<le> 1 \<longrightarrow>
       planar_dist t (segment_point t a b) \<le> planar_dist t (point_at c d u)"
proof -
  let ?ss = "segments (ll_centerline ll)"
  from assms(1) have "?ss \<noteq> []" by (simp add: wf_lanelet_def segments_nonempty)
  then obtain s where s: "s \<in> set ?ss" by (meson list.set_sel(1))
  then have "bounded_point (fst s)" "bounded_point (snd s)"
    using assms(1) segments_in [of "fst s" "snd s"] by (auto simp: wf_lanelet_def)
  with assms(2) have "planar_dist t (segment_point t (fst s) (snd s)) < fst (dbl_max, None :: local_coord option)"
    by (simp add: segment_dist_bound)
  then obtain b where b: "b \<in> set ?ss"
    "fold (project_step t) ?ss (dbl_max, None) =
       (planar_dist t (segment_point t (fst b) (snd b)), Some (segment_point t (fst b) (snd b)))"
    "\<forall>y \<in> set ?ss. planar_dist t (segment_point t (fst b) (snd b)) \<le> planar_dist t (segment_point t (fst y) (snd y))"
    using segment_scan.fold_best [OF s TrueI] by (metis (no_types, lifting))
  show thesis
  proof (rule that [of "fst b" "snd b"])
    show "(fst b, snd b) \<in> set ?ss" using b(1) by simp
    show "snd (project_loop t (ll_centerline ll) (dbl_max, None)) = Some (segment_point t (fst b) (snd b))"
      by (simp add: project_loop_fold b(2))
    show "\<forall>(c, d) \<in> set ?ss. \<forall>u. 0 \<le> u \<and> u \<le> 1 \<longrightarrow>
       planar_dist t (segment_point t (fst b) (snd b)) \<le> planar_dist t (point_at c d u)"
      using b(3) segment_point_closest by (fastforce intro: order_trans)
  qed
qed

lemma makeLaneInfo_total:
  assumes "wf_map m" "ll \<in> set (laneletLayer m)"
  obtains info where "makeLaneInfo m ll g = Inr info" "lane_id info = ll_id ll"
proof -
  have "bounded_point (gpsToLocal m g)" using assms(1) by (simp add: wf_map_def)
  with assms obtain p where "snd (project_loop (gpsToLocal m g) (ll_centerline ll) (dbl_max, None)) = Some p"
    using project_loop_closest [of ll "gpsToLocal m g"] by (metis wf_map_lanelet)
  with assms have "projectOntoLaneCenterline m g (ll_id ll) = Inr p"
    by (simp add: projectOntoLaneCenterline_def layer_get_in)
  with that show thesis by (simp add: makeLaneInfo_def Let_def split_beta)
qed

lemma makeLaneInfo_id: "makeLaneInfo m ll g = Inr info \<Longrightarrow> lane_id info = ll_id ll"
  by (auto simp: makeLaneInfo_def Let_def split: sum.splits prod.splits)

end
