(* ===== verification/LaneLookup.thy ===== *)
theory LaneLookup
  imports LaneCache
begin

text \<open>
  The contract of the lanelet map's lookups, as its callers use them, and the proof that
  \<open>findNearestLane\<close>, \<open>getLaneById\<close> and \<open>findNearestConnectedLane\<close> keep it. The properties
  of the search results and of the cache follow at the end.
\<close>

section \<open>Growing caches\<close>

definition cache_extends :: "lanelet_map \<Rightarrow> lanelet_map \<Rightarrow> bool" where
  "cache_extends m m' \<longleftrightarrow> (\<exists>new. m' = m\<lparr>cache := cache m @ new\<rparr>) \<and> cache_inv m'"

lemma cache_extends_refl [simp]: "cache_inv m \<Longrightarrow> cache_extends m m"
  unfolding cache_extends_def by (auto intro!: exI [of _ "[]"])

lemma cache_extends_trans: "cache_extends m m' \<Longrightarrow> cache_extends m' m'' \<Longrightarrow> cache_extends m m''"
  unfolding cache_extends_def by auto

lemma cache_extends_inv: "cache_extends m m' \<Longrightarrow> cache_inv m'"
  by (simp add: cache_extends_def)

lemma cache_extends_static:
  assumes "cache_extends m m'"
  shows "wf_map m' = wf_map m" "laneletLayer m' = laneletLayer m" "lane_ids m' = lane_ids m"
    "gpsToLocal m' g = gpsToLocal m g" "localToGps m' l = localToGps m l"
    "getDefaultStart m' = getDefaultStart m" "isLoaded m' = isLoaded m"
  using assms by (auto simp: cache_extends_def)

lemma cache_find_append:
  "cache_find m i = Some info \<Longrightarrow> cache_find (m\<lparr>cache := cache m @ new\<rparr>) i = Some info"
  by (auto simp: cache_find_def find_Some_iff nth_append)

lemma cache_extends_find: "cache_extends m m' \<Longrightarrow> cache_find m i = Some info \<Longrightarrow> cache_find m' i = Some info"
  by (auto simp: cache_extends_def cache_find_append)

lemma cache_find_id: "cache_find m i = Some info \<Longrightarrow> lane_id info = i"
  by (auto simp: cache_find_def dest: find_SomeD)

lemma cache_find_lane_ids: "cache_inv m \<Longrightarrow> cache_find m i = Some info \<Longrightarrow> i \<in> lane_ids m"
  by (auto simp: cache_find_def cache_inv_def dest: find_SomeD)

lemma cache_find_None: "cache_find m i = None \<longleftrightarrow> i \<notin> lane_id ` set (cache m)"
  by (auto simp: cache_find_def find_None_iff)

lemma cache_inv_emplace:
  "cache_inv m \<Longrightarrow> cache_find m (lane_id info) = None \<Longrightarrow> lane_id info \<in> lane_ids m \<Longrightarrow>
     cache_inv (m\<lparr>cache := cache m @ [info]\<rparr>)"
  by (auto simp: cache_inv_def cache_find_None)

lemma cache_find_emplace:
  "cache_find m (lane_id info) = None \<Longrightarrow>
     cache_find (m\<lparr>cache := cache m @ [info]\<rparr>) (lane_id info) = Some info"
  by (simp add: cache_find_def find_app)

lemma cache_bounded: "cache_inv m \<Longrightarrow> length (cache m) \<le> length (laneletLayer m)"
  by (auto simp: cache_inv_def lane_ids_def intro: length_le_of_distinct_subset)

section \<open>The contract\<close>

definition good_lookup :: "lanelet_map \<Rightarrow> i64 option \<Rightarrow> exn + (lane_info option \<times> lanelet_map) \<Rightarrow> bool" where
  "good_lookup m sel res \<longleftrightarrow>
     (\<exists>r m'. res = Inr (r, m') \<and> cache_extends m m' \<and> map_option lane_id r = sel \<and>
        (\<forall>info. r = Some info \<longrightarrow> cache_find m' (lane_id info) = Some info))"

locale cached_lookup =
  fixes lookup :: "lanelet_map \<Rightarrow> exn + (lane_info option \<times> lanelet_map)"
    and selects :: "lanelet_map \<Rightarrow> i64 option"
    and pre :: "lanelet_map \<Rightarrow> bool"
  assumes lookup_good: "wf_map m \<Longrightarrow> cache_inv m \<Longrightarrow> pre m \<Longrightarrow> good_lookup m (selects m) (lookup m)"
    and selects_static: "selects (m\<lparr>cache := c\<rparr>) = selects m"
begin

lemma lookup_total:
  assumes "wf_map m" "cache_inv m" "pre m"
  obtains r m' where "lookup m = Inr (r, m')" "cache_extends m m'" "map_option lane_id r = selects m"
    "\<forall>info. r = Some info \<longrightarrow> cache_find m' (lane_id info) = Some info"
  using lookup_good [OF assms] unfolding good_lookup_def by blast

lemma lookup_Inr:
  assumes "wf_map m" "cache_inv m" "pre m" "lookup m = Inr (r, m')"
  shows "cache_extends m m'" "map_option lane_id r = selects m" "wf_map m'" "cache_inv m'"
    "\<And>info. r = Some info \<Longrightarrow> cache_find m' (lane_id info) = Some info"
    "\<And>info. r = Some info \<Longrightarrow> lane_id info \<in> lane_ids m"
proof -
  show ext: "cache_extends m m'" and "map_option lane_id r = selects m"
    and find: "\<And>info. r = Some info \<Longrightarrow> cache_find m' (lane_id info) = Some info"
    using lookup_good [OF assms(1-3)] assms(4) by (auto simp: good_lookup_def)
  then show "wf_map m'" "cache_inv m'"
    using assms(1) by (simp_all add: cache_extends_static cache_extends_inv)
  show "lane_id info \<in> lane_ids m" if "r = Some info" for info
    using cache_find_lane_ids [OF cache_extends_inv [OF ext] find [OF that]] ext
    by (simp add: cache_extends_static)
qed

lemma lookup_no_throw: "wf_map m \<Longrightarrow> cache_inv m \<Longrightarrow> pre m \<Longrightarrow> lookup m \<noteq> Inl e"
  by (metis lookup_total sum.distinct(2))

lemma selects_extends: "cache_extends m m' \<Longrightarrow> selects m' = selects m"
  by (auto simp: cache_extends_def selects_static)

text \<open>A lane that is cached is returned as it was cached, whatever the query is.\<close>

lemma first_resolution_wins:
  assumes "wf_map m" "cache_inv m" "pre m" "selects m = Some i" "cache_find m i = Some info"
  obtains m' where "lookup m = Inr (Some info, m')" "cache_extends m m'"
proof -
  obtain r m' where l: "lookup m = Inr (r, m')" "cache_extends m m'" "map_option lane_id r = selects m"
    and f: "\<forall>info. r = Some info \<longrightarrow> cache_find m' (lane_id info) = Some info"
    using lookup_total [OF assms(1-3)] by blast
  from l(3) assms(4) obtain info' where "r = Some info'" "lane_id info' = i" by auto
  with f l(2) assms(5) have "r = Some info" by (metis cache_extends_find option.inject)
  with l that show thesis by blast
qed

end

section \<open>The three lookups keep it\<close>

lemma emplace_good:
  assumes "wf_map m" "cache_inv m" "ll \<in> set (laneletLayer m)" "cache_find m (ll_id ll) = None"
  shows "good_lookup m (Some (ll_id ll)) (emplace_lane m ll g)"
proof -
  obtain info where i: "makeLaneInfo m ll g = Inr info" "lane_id info = ll_id ll"
    using makeLaneInfo_total [OF assms(1,3)] by blast
  moreover have "lane_id info \<in> lane_ids m"
    using i(2) assms(3) by (auto simp: lane_ids_def)
  ultimately show ?thesis
    using assms(2,4) cache_inv_emplace [of m info] cache_find_emplace [of m info]
    by (auto simp: good_lookup_def emplace_lane_def cache_extends_def)
qed

lemma cached_good:
  "cache_inv m \<Longrightarrow> cache_find m i = Some info \<Longrightarrow> good_lookup m (Some i) (Inr (Some info, m))"
  using cache_find_id [of m i info] by (auto simp: good_lookup_def)

lemma none_good: "cache_inv m \<Longrightarrow> good_lookup m None (Inr (None, m))"
  by (simp add: good_lookup_def)

definition valid_id :: "lanelet_map \<Rightarrow> i64 \<Rightarrow> i64 option" where
  "valid_id m i = (if i = invalid_id m then None else Some i)"

lemma resolve_best_good:
  assumes "wf_map m" "cache_inv m" "i = invalid_id m \<or> i \<in> lane_ids m"
  shows "good_lookup m (valid_id m i) (resolve_best m g i)"
proof (cases "i = invalid_id m")
  case True
  with assms(2) show ?thesis by (simp add: valid_id_def resolve_best_def none_good)
next
  case False
  show ?thesis
  proof (cases "cache_find m i")
    case None
    from False assms(3) obtain ll where ll: "ll \<in> set (laneletLayer m)" "ll_id ll = i"
      by (auto elim: lane_idsE)
    with assms(1) have "layer_get m i = Inr ll" using layer_get_in by blast
    with False None ll assms emplace_good [of m ll g] show ?thesis
      by (simp add: valid_id_def resolve_best_def)
  next
    case (Some info)
    with False assms(2) show ?thesis by (simp add: valid_id_def resolve_best_def cached_good)
  qed
qed

lemma nearest_scan_range:
  "set lls \<subseteq> set (laneletLayer m) \<Longrightarrow>
     snd (nearest_scan m t lls) = invalid_id m \<or> snd (nearest_scan m t lls) \<in> lane_ids m"
  by (rule nearest_scan_cases [of m t lls]) (auto simp: lane_ids_def)

definition nearest_id :: "lanelet_map \<Rightarrow> gps_coord \<Rightarrow> i64 option" where
  "nearest_id m g = valid_id m (snd (nearest_scan m (gpsToLocal m g) (laneletLayer m)))"

definition known_id :: "lanelet_map \<Rightarrow> i64 \<Rightarrow> i64 option" where
  "known_id m i = (if i \<in> lane_ids m then Some i else None)"

definition connected_id :: "lanelet_map \<Rightarrow> gps_coord \<Rightarrow> i64 \<Rightarrow> bool \<Rightarrow> i64 option" where
  "connected_id m g ref f =
     (case (the_graph m, layer_get m ref) of
        (Some rg, Inr ll) \<Rightarrow>
          valid_id m (snd (nearest_scan m (gpsToLocal m g) (connected_candidates m rg ll ref f)))
      | _ \<Rightarrow> None)"

lemma valid_id_static [simp]: "valid_id (m\<lparr>cache := c\<rparr>) i = valid_id m i"
  by (simp add: valid_id_def)

interpretation nearest: cached_lookup "\<lambda>m. findNearestLane m g" "\<lambda>m. nearest_id m g" "\<lambda>_. True"
  for g :: gps_coord
proof unfold_locales
  fix m assume "wf_map m" "cache_inv m"
  then show "good_lookup m (nearest_id m g) (findNearestLane m g)"
    by (simp add: findNearestLane_def nearest_id_def resolve_best_good nearest_scan_range)
qed (simp add: nearest_id_def)

lemma candidates_in_layer:
  "wf_map m \<Longrightarrow> the_graph m = Some rg \<Longrightarrow> set (connected_candidates m rg ll i f) \<subseteq> set (laneletLayer m)"
  by (auto simp: connected_candidates_def wf_map_def split: if_splits)

interpretation connected: cached_lookup "\<lambda>m. findNearestConnectedLane m g ref f"
  "\<lambda>m. connected_id m g ref f" "\<lambda>m. ref \<in> lane_ids m"
  for g :: gps_coord and ref :: i64 and f :: bool
proof unfold_locales
  fix m assume m: "wf_map m" "cache_inv m" "ref \<in> lane_ids m"
  then obtain ll where ll: "layer_get m ref = Inr ll" by (metis lane_idsE layer_get_in)
  show "good_lookup m (connected_id m g ref f) (findNearestConnectedLane m g ref f)"
  proof (cases "the_graph m")
    case None
    with m show ?thesis by (simp add: connected_id_def findNearestConnectedLane_def none_good)
  next
    case (Some rg)
    with m ll show ?thesis
      by (simp add: connected_id_def findNearestConnectedLane_def resolve_best_good
          nearest_scan_range candidates_in_layer)
  qed
qed (simp add: connected_id_def cong: option.case_cong sum.case_cong)

interpretation by_id: cached_lookup "\<lambda>m. getLaneById m i" "\<lambda>m. known_id m i" "\<lambda>_. True"
  for i :: i64
proof unfold_locales
  fix m assume m: "wf_map m" "cache_inv m"
  show "good_lookup m (known_id m i) (getLaneById m i)"
  proof (cases "cache_find m i")
    case (Some info)
    with m show ?thesis
      using cache_find_lane_ids [of m i info] by (simp add: getLaneById_def known_id_def cached_good)
  next
    case None
    show ?thesis
    proof (cases "find (\<lambda>ll. ll_id ll = i) (laneletLayer m)")
      case unknown: None
      then have "i \<notin> lane_ids m" by (auto simp: lane_ids_def find_None_iff)
      with unknown None m show ?thesis
        by (simp add: getLaneById_def known_id_def none_good wf_map_layer)
    next
      case (Some ll)
      then have ll: "ll \<in> set (laneletLayer m)" "ll_id ll = i" by (auto dest: find_SomeD)
      then have "ll_centerline ll \<noteq> []" "i \<in> lane_ids m"
        using wf_map_lanelet [OF m(1), of ll] by (auto simp: wf_lanelet_def lane_ids_def)
      with Some None m ll show ?thesis
        using emplace_good [of m ll] by (simp add: getLaneById_def known_id_def wf_map_layer)
    qed
  qed
qed (simp add: known_id_def)

end
