(* ===== verification/TripController.thy ===== *)
theory TripController
  imports TripTypes LaneLookup
begin

text \<open>
  The trip state machine, \<open>gateway_bridge/include/TripController.h\<close> and
  \<open>src/TripController.cc\<close>. The record has the members the operations read or write;
  \<open>tc_map\<close> is the map the controller refers to. What an operation does to the outside
  (publishing, service calls, callbacks) is appended to \<open>outbox\<close>, oldest first. Every
  operation that reads a clock takes the instant \<open>now\<close>: a handler runs to completion on the
  strand, and its clock reads are taken as one. An operation that can throw returns a sum.
\<close>

section \<open>State\<close>

datatype query_leg = PICKUP | TRIP

text \<open>
  The effects. \<open>StateChanged\<close> carries the status an observer called at that moment reads;
  \<open>QueryReply\<close> carries the identity of the callback it invokes.
\<close>

datatype effect =
    InitialPose pose_msg "real list"
  | Goal pose_msg
  | ModeRequest
  | EngageRequest
  | StateChanged trip_state trip_state trip_status
  | PickupArrived
  | DropoffArrived
  | QueryReply nat eta_query_result

record trip_controller =
  tc_map :: lanelet_map
  timings :: trip_timings
  engaging_for_pickup :: bool
  current_loc_state :: "loc_init_state option"
  current_route_state :: "route_state_value option"
  current_mode_state :: "op_mode_state option"
  last_route :: "lanelet_route option"
  last_publish_time :: time_point
  status :: trip_status
  on_state_change :: bool
  on_pickup_arrived :: bool
  on_dropoff_arrived :: bool
  state_entered_at :: time_point
  route_received :: bool
  init_x :: real
  init_y :: real
  init_z :: real
  init_qz :: real
  init_qw :: real
  querying :: bool
  current_leg :: query_leg
  query_start_gps :: gps_coord
  query_goal_gps :: gps_coord
  query_cb :: "nat option"
  query_result :: eta_query_result
  eta_received :: bool
  eta_distance_m :: real
  eta_seconds :: real
  pickup_route :: "held_route option"
  trip_route :: "held_route option"
  outbox :: "effect list"

text \<open>The constructor: default member initialisers, the given map and timings.\<close>

definition new_TripController :: "lanelet_map \<Rightarrow> trip_timings \<Rightarrow> trip_controller" where
  "new_TripController m tm =
     \<lparr>tc_map = m, timings = tm, engaging_for_pickup = True, current_loc_state = None,
      current_route_state = None, current_mode_state = None, last_route = None,
      last_publish_time = 0, status = default_status, on_state_change = False,
      on_pickup_arrived = False, on_dropoff_arrived = False, state_entered_at = 0,
      route_received = False, init_x = 0, init_y = 0, init_z = 0, init_qz = 0, init_qw = 1,
      querying = False, current_leg = PICKUP, query_start_gps = gps_zero, query_goal_gps = gps_zero,
      query_cb = None, query_result = default_result, eta_received = False, eta_distance_m = 0,
      eta_seconds = 0, pickup_route = None, trip_route = None, outbox = []\<rparr>"

abbreviation state_of :: "trip_controller \<Rightarrow> trip_state" where
  "state_of c \<equiv> st_state (status c)"

definition setStateChangeCallback :: "bool \<Rightarrow> trip_controller \<Rightarrow> trip_controller" where
  "setStateChangeCallback cb c = c\<lparr>on_state_change := cb\<rparr>"

definition setArrivalCallbacks :: "bool \<Rightarrow> bool \<Rightarrow> trip_controller \<Rightarrow> trip_controller" where
  "setArrivalCallbacks pickup_cb dropoff_cb c =
     c\<lparr>on_pickup_arrived := pickup_cb, on_dropoff_arrived := dropoff_cb\<rparr>"

section \<open>Effects and transitions\<close>

definition emit :: "effect \<Rightarrow> trip_controller \<Rightarrow> trip_controller" where
  "emit e c = c\<lparr>outbox := outbox c @ [e]\<rparr>"

definition map_pose :: "real \<Rightarrow> real \<Rightarrow> real \<Rightarrow> real \<Rightarrow> real \<Rightarrow> pose_msg" where
  "map_pose x y z qz qw =
     \<lparr>frame_id = ''map'', position = \<lparr>pos_x = x, pos_y = y, pos_z = z\<rparr>, ori4 = (0, 0, qz, qw)\<rparr>"

definition pose_covariance :: "real list" where
  "pose_covariance = (replicate 36 0)[0 := 1/4, 7 := 1/4, 35 := 6853891909122467 / 100000000000000000]"

definition doPublishInitialPose ::
  "real \<Rightarrow> real \<Rightarrow> real \<Rightarrow> real \<Rightarrow> real \<Rightarrow> trip_controller \<Rightarrow> trip_controller" where
  "doPublishInitialPose x y z qz qw c = emit (InitialPose (map_pose x y z qz qw) pose_covariance) c"

definition doPublishGoal ::
  "real \<Rightarrow> real \<Rightarrow> real \<Rightarrow> real \<Rightarrow> real \<Rightarrow> trip_controller \<Rightarrow> trip_controller" where
  "doPublishGoal x y z qz qw c = emit (Goal (map_pose x y z qz qw)) c"

definition elapsed_ms :: "time_point \<Rightarrow> time_point \<Rightarrow> int" where
  "elapsed_ms now since = duration_cast_ms (now - since)"

definition transitionTo :: "time_point \<Rightarrow> trip_state \<Rightarrow> trip_controller \<Rightarrow> trip_controller" where
  "transitionTo now next c =
     (let prev = state_of c
      in if prev = next then c
         else let c' = c\<lparr>status := (status c)\<lparr>st_state := next, last_state_change := now\<rparr>,
                         state_entered_at := now, last_publish_time := 0\<rparr>
              in if on_state_change c' then emit (StateChanged prev next (status c')) c' else c')"

text \<open>The poses published again and again: the fixed start, the leg's start and its goal.\<close>

definition publish_init :: "trip_controller \<Rightarrow> trip_controller" where
  "publish_init c = doPublishInitialPose (init_x c) (init_y c) (init_z c) (init_qz c) (init_qw c) c"

definition publish_start :: "trip_controller \<Rightarrow> trip_controller" where
  "publish_start c =
     (let s = status c in doPublishInitialPose (start_x s) (start_y s) (start_z s) (start_qz s) (start_qw s) c)"

definition publish_goal :: "trip_controller \<Rightarrow> trip_controller" where
  "publish_goal c =
     (let s = status c in doPublishGoal (goal_x s) (goal_y s) (goal_z s) (goal_qz s) (goal_qw s) c)"

definition publish_start_as_goal :: "trip_controller \<Rightarrow> trip_controller" where
  "publish_start_as_goal c =
     (let s = status c in doPublishGoal (start_x s) (start_y s) (start_z s) (start_qz s) (start_qw s) c)"

section \<open>Initialisation in the map\<close>

definition initializeInMap :: "time_point \<Rightarrow> trip_controller \<Rightarrow> trip_controller" where
  "initializeInMap now c =
     (case getDefaultStart (tc_map c) of
        None \<Rightarrow> c
      | Some fs \<Rightarrow>
          let c' = c\<lparr>init_x := pos_x (fs_local fs), init_y := pos_y (fs_local fs),
                     init_z := pos_z (fs_local fs), init_qz := ori_z (fs_orientation fs),
                     init_qw := ori_w (fs_orientation fs)\<rparr>
          in transitionTo now INITIALIZING_IN_MAP (publish_init c'))"

text \<open>
  \<open>getCurrentVehiclePose\<close>: \<open>tf\<close> is the translation of the transform from \<open>base_link\<close> to
  \<open>map\<close>, \<open>None\<close> when the lookup throws.
\<close>

definition getCurrentVehiclePose :: "local_coord option \<Rightarrow> trip_controller \<Rightarrow> gps_coord option" where
  "getCurrentVehiclePose tf c =
     (case tf of
        None \<Rightarrow> None
      | Some local \<Rightarrow>
          let gps = localToGps (tc_map c) local
          in if latitude gps < 35 \<or> latitude gps > 36 \<or> longitude gps < 139 \<or> longitude gps > 140
             then None else Some gps)"

definition setCurrentGps :: "gps_coord \<Rightarrow> trip_controller \<Rightarrow> trip_controller" where
  "setCurrentGps g c = c\<lparr>status := (status c)\<lparr>current_gps := g\<rparr>\<rparr>"

section \<open>The two legs of an ETA query\<close>

text \<open>Calling the query callback, if there is one, and dropping it.\<close>

definition reply_query :: "trip_controller \<Rightarrow> trip_controller" where
  "reply_query c =
     (case query_cb c of
        None \<Rightarrow> c
      | Some k \<Rightarrow> (emit (QueryReply k (query_result c)) c)\<lparr>query_cb := None\<rparr>)"

definition failQuery :: "time_point \<Rightarrow> string \<Rightarrow> trip_controller \<Rightarrow> trip_controller" where
  "failQuery now reason c =
     (let c1 = (if query_cb c \<noteq> None
                then reply_query (c\<lparr>query_result :=
                       (query_result c)\<lparr>q_success := False, q_error_message := reason\<rparr>\<rparr>)
                else c)
      in transitionTo now IDLE
           (c1\<lparr>querying := False, pickup_route := None, trip_route := None,
               status := default_status, route_received := False\<rparr>))"

definition arrow_utf8 :: string where
  "arrow_utf8 = '' '' @ [CHR 0xE2, CHR 0x86, CHR 0x92] @ '' ''"

definition em_dash_utf8 :: string where
  "em_dash_utf8 = '' '' @ [CHR 0xE2, CHR 0x80, CHR 0x94] @ '' ''"

definition leg_name :: "query_leg \<Rightarrow> string" where
  "leg_name leg = (if leg = PICKUP then ''pickup'' else ''trip'')"

definition query_from_lane ::
  "gps_coord \<Rightarrow> trip_controller \<Rightarrow> exn + (lane_info option \<times> lanelet_map)" where
  "query_from_lane from_gps c =
     (if current_leg c = PICKUP then findNearestLane (tc_map c) from_gps
      else case stoll (goal_lanelet_id (status c)) of
             Inl e \<Rightarrow> Inl e
           | Inr i \<Rightarrow> getLaneById (tc_map c) i)"

definition unreachable_message :: "lane_info option \<Rightarrow> lane_info \<Rightarrow> string" where
  "unreachable_message to_lane from_lane =
     ''destination lane '' @
     to_string (case to_lane of Some l \<Rightarrow> lane_id l | None \<Rightarrow> -1) @
     '' not reachable from start lane '' @ to_string (lane_id from_lane)"

text \<open>Filling the status with the two lanes of the leg.\<close>

definition set_leg_status :: "lanelet_map \<Rightarrow> lane_info \<Rightarrow> lane_info \<Rightarrow> gps_coord \<Rightarrow> trip_status \<Rightarrow> trip_status" where
  "set_leg_status m from_lane to_lane to_gps s =
     (let raw = gpsToLocal m to_gps;
          dx = pos_x (lane_local to_lane) - pos_x raw;
          dy = pos_y (lane_local to_lane) - pos_y raw
      in s\<lparr>start_x := pos_x (lane_local from_lane), start_y := pos_y (lane_local from_lane),
           start_z := pos_z (lane_local from_lane),
           start_qw := ori_w (lane_orientation from_lane), start_qz := ori_z (lane_orientation from_lane),
           start_lanelet_id := to_string (lane_id from_lane),
           goal_x := pos_x (lane_local to_lane), goal_y := pos_y (lane_local to_lane),
           goal_z := pos_z (lane_local to_lane),
           goal_qw := ori_w (lane_orientation to_lane), goal_qz := ori_z (lane_orientation to_lane),
           goal_lanelet_id := to_string (lane_id to_lane), goal_gps := to_gps,
           goal_distance_m := sqrt (dx * dx + dy * dy)\<rparr>)"

definition startQueryLeg ::
  "time_point \<Rightarrow> gps_coord \<Rightarrow> gps_coord \<Rightarrow> trip_controller \<Rightarrow> exn + trip_controller" where
  "startQueryLeg now from_gps to_gps c =
     (case query_from_lane from_gps c of
        Inl e \<Rightarrow> Inl e
      | Inr (None, m1) \<Rightarrow>
          Inr (failQuery now (''cannot resolve lane for '' @
                 (if current_leg c = PICKUP then ''pickup origin'' else ''trip start''))
                 (c\<lparr>tc_map := m1\<rparr>))
      | Inr (Some from_lane, m1) \<Rightarrow>
          (case findNearestConnectedLane m1 to_gps (lane_id from_lane) True of
             Inl e \<Rightarrow> Inl e
           | Inr (None, m2) \<Rightarrow>
               (case findNearestLane m2 to_gps of
                  Inl e \<Rightarrow> Inl e
                | Inr (to_lane, m3) \<Rightarrow>
                    Inr (failQuery now (unreachable_message to_lane from_lane) (c\<lparr>tc_map := m3\<rparr>)))
           | Inr (Some to_lane, m2) \<Rightarrow>
               Inr (transitionTo now QUERY_PUBLISHING_INITIAL_POSE
                      (c\<lparr>tc_map := m2, status := set_leg_status m2 from_lane to_lane to_gps (status c)\<rparr>))))"

definition current_leg_eta :: "trip_controller \<Rightarrow> leg_eta" where
  "current_leg_eta c =
     \<lparr>leg_success = True, leg_distance_m = eta_distance_m c, leg_eta_seconds = eta_seconds c,
      leg_start_lane_id = start_lanelet_id (status c), leg_goal_lane_id = goal_lanelet_id (status c),
      leg_error_message = []\<rparr>"

definition current_held_route :: "gps_coord \<Rightarrow> i64 \<Rightarrow> trip_controller \<Rightarrow> held_route" where
  "current_held_route g i c =
     \<lparr>held_route_msg = (case last_route c of Some r \<Rightarrow> r | None \<Rightarrow> empty_route),
      held_eta_seconds = eta_seconds c, held_distance_m = eta_distance_m c,
      held_goal_gps = g, held_goal_lane_id = i\<rparr>"

definition finish_pickup_leg :: "time_point \<Rightarrow> trip_controller \<Rightarrow> exn + trip_controller" where
  "finish_pickup_leg now c =
     (let c1 = c\<lparr>query_result := (query_result c)\<lparr>pickup_leg := current_leg_eta c\<rparr>\<rparr>
      in case stoll (goal_lanelet_id (status c1)) of
           Inl e \<Rightarrow> Inl e
         | Inr i \<Rightarrow>
             startQueryLeg now (query_start_gps c1) (query_goal_gps c1)
               (c1\<lparr>pickup_route := Some (current_held_route (query_start_gps c1) i c1),
                   current_leg := TRIP, current_route_state := None, route_received := False\<rparr>))"

definition finish_trip_leg :: "time_point \<Rightarrow> trip_controller \<Rightarrow> trip_controller" where
  "finish_trip_leg now c =
     (let c1 = c\<lparr>query_result := (query_result c)\<lparr>trip_leg := current_leg_eta c, q_success := True\<rparr>,
                 trip_route := Some (current_held_route (query_goal_gps c) 0 c),
                 querying := False\<rparr>;
          c2 = reply_query c1
      in transitionTo now ROUTES_READY (c2\<lparr>status := default_status\<rparr>))"

definition finishQueryLeg :: "time_point \<Rightarrow> trip_controller \<Rightarrow> exn + trip_controller" where
  "finishQueryLeg now c =
     (if current_leg c = PICKUP then finish_pickup_leg now c else Inr (finish_trip_leg now c))"

section \<open>Commands\<close>

definition rejected_query :: "string \<Rightarrow> eta_query_result" where
  "rejected_query msg = default_result\<lparr>q_success := False, q_error_message := msg\<rparr>"

text \<open>An immediate answer to the callback passed to \<open>queryEta\<close>; it is not stored.\<close>

definition reply_now :: "nat option \<Rightarrow> eta_query_result \<Rightarrow> trip_controller \<Rightarrow> trip_controller" where
  "reply_now cb r c = (case cb of None \<Rightarrow> c | Some k \<Rightarrow> emit (QueryReply k r) c)"

definition queryEta ::
  "time_point \<Rightarrow> local_coord option \<Rightarrow> gps_coord \<Rightarrow> gps_coord \<Rightarrow> nat option \<Rightarrow> trip_controller
     \<Rightarrow> exn + (bool \<times> trip_controller)" where
  "queryEta now tf start goal cb c =
     (if state_of c \<noteq> IDLE
      then Inr (False, reply_now cb
             (rejected_query (''not idle (state='' @ to_string (word_of_int (trip_state_int (state_of c))) @ '')'')) c)
      else case getCurrentVehiclePose tf c of
        None \<Rightarrow>
          Inr (False, reply_now cb
             (rejected_query (''vehicle not localized'' @ em_dash_utf8 @ ''call after IDLE (post map init)'')) c)
      | Some vehicle_pose \<Rightarrow>
          (let c1 = c\<lparr>querying := True, current_leg := PICKUP, query_start_gps := start,
                      query_goal_gps := goal, query_cb := cb, query_result := default_result,
                      pickup_route := None, trip_route := None\<rparr>
           in case startQueryLeg now vehicle_pose start c1 of
                Inl e \<Rightarrow> Inl e
              | Inr c2 \<Rightarrow> Inr (True, c2)))"

definition goToPickup :: "time_point \<Rightarrow> trip_controller \<Rightarrow> bool \<times> trip_controller" where
  "goToPickup now c =
     (if state_of c \<noteq> WAITING_FOR_PICKUP_START then (False, c)
      else (True, transitionTo now PUBLISHING_INITIAL_POSE
                    (c\<lparr>current_route_state := None, route_received := False\<rparr>)))"

definition set_start_lane :: "lane_info \<Rightarrow> gps_coord \<Rightarrow> trip_status \<Rightarrow> trip_status" where
  "set_start_lane l g s =
     s\<lparr>start_lanelet_id := to_string (lane_id l), start_x := pos_x (lane_local l),
       start_y := pos_y (lane_local l), start_z := pos_z (lane_local l),
       start_qw := ori_w (lane_orientation l), start_qz := ori_z (lane_orientation l),
       start_gps := g\<rparr>"

definition set_goal_lane :: "lane_info \<Rightarrow> gps_coord \<Rightarrow> real \<Rightarrow> trip_status \<Rightarrow> trip_status" where
  "set_goal_lane l g d s =
     s\<lparr>goal_lanelet_id := to_string (lane_id l), goal_x := pos_x (lane_local l),
       goal_y := pos_y (lane_local l), goal_z := pos_z (lane_local l),
       goal_qw := ori_w (lane_orientation l), goal_qz := ori_z (lane_orientation l),
       goal_gps := g, goal_distance_m := d\<rparr>"

definition startTrip :: "time_point \<Rightarrow> trip_controller \<Rightarrow> exn + (bool \<times> trip_controller)" where
  "startTrip now c0 =
     (let c = c0\<lparr>engaging_for_pickup := True, current_route_state := None\<rparr>
      in case (pickup_route c, trip_route c) of
           (Some pr, Some tr) \<Rightarrow>
             (if state_of c \<noteq> ROUTES_READY \<and> state_of c \<noteq> IDLE then Inr (False, c)
              else case getLaneById (tc_map c) (held_goal_lane_id pr) of
                     Inl e \<Rightarrow> Inl e
                   | Inr (None, m) \<Rightarrow> Inr (False, transitionTo now FAILED (c\<lparr>tc_map := m\<rparr>))
                   | Inr (Some start_lane, m) \<Rightarrow>
                       Inr (True, transitionTo now WAITING_FOR_PICKUP_START
                              (c\<lparr>tc_map := m,
                                 status := set_start_lane start_lane (held_goal_gps pr) (status c)\<rparr>)))
         | _ \<Rightarrow> Inr (False, c))"

definition move :: "time_point \<Rightarrow> trip_controller \<Rightarrow> exn + (bool \<times> trip_controller)" where
  "move now c =
     (if state_of c \<noteq> WAITING_FOR_MOVE then Inr (False, c)
      else case trip_route c of
        None \<Rightarrow> Inr (False, transitionTo now FAILED c)
      | Some tr \<Rightarrow>
          (case stoll (start_lanelet_id (status c)) of
             Inl e \<Rightarrow> Inl e
           | Inr current_lane_id \<Rightarrow>
               (case findNearestConnectedLane (tc_map c) (held_goal_gps tr) current_lane_id True of
                  Inl e \<Rightarrow> Inl e
                | Inr (None, m) \<Rightarrow> Inr (False, transitionTo now FAILED (c\<lparr>tc_map := m\<rparr>))
                | Inr (Some goal_lane, m) \<Rightarrow>
                    (let c1 = c\<lparr>tc_map := m,
                                status := set_goal_lane goal_lane (held_goal_gps tr) (held_distance_m tr) (status c),
                                current_route_state := None\<rparr>;
                         c2 = publish_goal c1
                     in Inr (True, transitionTo now ENGAGING (c2\<lparr>engaging_for_pickup := False\<rparr>))))))"

definition handleMoveCommand :: "time_point \<Rightarrow> trip_controller \<Rightarrow> exn + (bool \<times> trip_controller)" where
  "handleMoveCommand now c =
     (if state_of c = WAITING_FOR_PICKUP_START then Inr (goToPickup now c)
      else if state_of c = WAITING_FOR_MOVE then move now c
      else Inr (False, c))"

definition cancel :: "time_point \<Rightarrow> trip_controller \<Rightarrow> trip_controller" where
  "cancel now c =
     (let c1 = c\<lparr>querying := False, query_cb := None, pickup_route := None, trip_route := None,
                 status := default_status, route_received := False, engaging_for_pickup := False,
                 current_route_state := None\<rparr>;
          c2 = (case getDefaultStart (tc_map c1) of
                  None \<Rightarrow> c1
                | Some fs \<Rightarrow> doPublishInitialPose (pos_x (fs_local fs)) (pos_y (fs_local fs))
                     (pos_z (fs_local fs)) (ori_z (fs_orientation fs)) (ori_w (fs_orientation fs)) c1)
      in transitionTo now IDLE c2)"

section \<open>Engagement\<close>

record autoware_services =
  mode_service_ready :: bool
  engage_service_ready :: bool

definition doEngage :: "autoware_services \<Rightarrow> trip_controller \<Rightarrow> trip_controller" where
  "doEngage svc c =
     (if \<not> mode_service_ready svc \<or> \<not> engage_service_ready svc then c
      else case current_mode_state c of
             Some ms \<Rightarrow> if \<not> is_autonomous_mode_available ms then c else emit ModeRequest c
           | None \<Rightarrow> emit ModeRequest c)"

text \<open>The answers to the two service calls; the last one is posted back to the strand.\<close>

definition onModeResponse :: "bool \<Rightarrow> trip_controller \<Rightarrow> trip_controller" where
  "onModeResponse success c = (if \<not> success then c else emit EngageRequest c)"

definition onEngageResponse :: "time_point \<Rightarrow> u32 \<Rightarrow> trip_controller \<Rightarrow> trip_controller" where
  "onEngageResponse now code c =
     (if code = 1 then
        (if state_of c = ENGAGING then
           (if engaging_for_pickup c then transitionTo now DRIVING_TO_PICKUP c
            else transitionTo now RUNNING c)
         else c)
      else c)"

section \<open>Messages\<close>

definition onRouteReceived :: "lanelet_route \<Rightarrow> trip_controller \<Rightarrow> trip_controller" where
  "onRouteReceived msg c = c\<lparr>last_route := Some msg, route_received := True\<rparr>"

definition injectEta :: "real \<Rightarrow> real \<Rightarrow> trip_controller \<Rightarrow> trip_controller" where
  "injectEta distance_m time_seconds c =
     (if state_of c \<noteq> QUERY_READING_ETA then c
      else c\<lparr>eta_distance_m := distance_m, eta_seconds := time_seconds, eta_received := True\<rparr>)"

section \<open>The periodic tick\<close>

definition localised :: "trip_controller \<Rightarrow> bool" where
  "localised c \<longleftrightarrow> current_loc_state c = Some LS_INITIALIZED"

text \<open>Publishing again when the given number of milliseconds has passed.\<close>

definition republish ::
  "time_point \<Rightarrow> int \<Rightarrow> (trip_controller \<Rightarrow> trip_controller) \<Rightarrow> trip_controller \<Rightarrow> trip_controller" where
  "republish now ms publish c =
     (if elapsed_ms now (last_publish_time c) \<ge> ms then (publish c)\<lparr>last_publish_time := now\<rparr> else c)"

definition tick_initializing :: "time_point \<Rightarrow> trip_controller \<Rightarrow> trip_controller" where
  "tick_initializing now c =
     (if \<not> localised c then republish now 1000 publish_init c else transitionTo now IDLE c)"

definition tick_query_localisation :: "time_point \<Rightarrow> trip_controller \<Rightarrow> trip_controller" where
  "tick_query_localisation now c =
     (if \<not> localised c then
        (let c1 = republish now 1000 publish_start c
         in if elapsed_ms now (state_entered_at c1) \<ge> loc_timeout_ms (timings c1)
            then failQuery now (''timeout waiting for localisation on '' @ leg_name (current_leg c1) @ '' leg'') c1
            else c1)
      else transitionTo now QUERY_PUBLISHING_GOAL c)"

definition route_timeout_message :: "trip_controller \<Rightarrow> string" where
  "route_timeout_message c =
     ''timeout waiting for route on '' @ leg_name (current_leg c) @ '' leg (lanes '' @
     start_lanelet_id (status c) @ arrow_utf8 @ goal_lanelet_id (status c) @ '' may not be connected)''"

definition tick_query_route :: "time_point \<Rightarrow> trip_controller \<Rightarrow> trip_controller" where
  "tick_query_route now c =
     (if current_route_state c \<noteq> Some RS_SET then
        (let c1 = republish now 2000 publish_goal c
         in if elapsed_ms now (state_entered_at c1) \<ge> route_timeout_ms (timings c1)
            then failQuery now (route_timeout_message c1) c1
            else c1)
      else transitionTo now QUERY_READING_ETA (c\<lparr>eta_received := False\<rparr>))"

definition tick_query_eta :: "time_point \<Rightarrow> trip_controller \<Rightarrow> exn + trip_controller" where
  "tick_query_eta now c =
     (if eta_received c then finishQueryLeg now c
      else if elapsed_ms now (state_entered_at c) \<ge> eta_settle_ms (timings c)
      then finishQueryLeg now (c\<lparr>eta_distance_m := 0, eta_seconds := 0\<rparr>)
      else Inr c)"

definition tick_localisation :: "time_point \<Rightarrow> trip_controller \<Rightarrow> trip_controller" where
  "tick_localisation now c =
     (if \<not> localised c then republish now 1000 publish_init c
      else transitionTo now ENGAGING (publish_start_as_goal c))"

definition tick_driving_to_pickup :: "time_point \<Rightarrow> trip_controller \<Rightarrow> trip_controller" where
  "tick_driving_to_pickup now c =
     (if current_route_state c = Some RS_ARRIVED then
        (let c1 = (if on_pickup_arrived c then emit PickupArrived c else c)
         in transitionTo now WAITING_FOR_MOVE (c1\<lparr>current_route_state := None\<rparr>))
      else c)"

definition tick_running :: "time_point \<Rightarrow> trip_controller \<Rightarrow> trip_controller" where
  "tick_running now c =
     (if current_route_state c = Some RS_ARRIVED then
        (let c1 = (if on_dropoff_arrived c then emit DropoffArrived c else c)
         in transitionTo now COMPLETED (c1\<lparr>current_route_state := None\<rparr>))
      else c)"

text \<open>
  \<open>tick()\<close>. The \<open>switch\<close> has no case for \<open>WAITING_FOR_PICKUP_START\<close>; like the six
  listed first, nothing happens there.
\<close>

definition tick :: "autoware_services \<Rightarrow> time_point \<Rightarrow> trip_controller \<Rightarrow> exn + trip_controller" where
  "tick svc now c =
     (case state_of c of
        INITIALIZING_IN_MAP \<Rightarrow> Inr (tick_initializing now c)
      | QUERY_PUBLISHING_INITIAL_POSE \<Rightarrow>
          Inr (transitionTo now QUERY_WAITING_LOCALISATION (publish_start c))
      | QUERY_WAITING_LOCALISATION \<Rightarrow> Inr (tick_query_localisation now c)
      | QUERY_PUBLISHING_GOAL \<Rightarrow>
          Inr (transitionTo now QUERY_WAITING_ROUTE
                 ((publish_goal c)\<lparr>route_received := False, current_route_state := None\<rparr>))
      | QUERY_WAITING_ROUTE \<Rightarrow> Inr (tick_query_route now c)
      | QUERY_READING_ETA \<Rightarrow> tick_query_eta now c
      | PUBLISHING_INITIAL_POSE \<Rightarrow> Inr (transitionTo now WAITING_LOCALISATION (publish_init c))
      | WAITING_LOCALISATION \<Rightarrow> Inr (tick_localisation now c)
      | ENGAGING \<Rightarrow> Inr (republish now 2000 (doEngage svc) c)
      | DRIVING_TO_PICKUP \<Rightarrow> Inr (tick_driving_to_pickup now c)
      | RUNNING \<Rightarrow> Inr (tick_running now c)
      | _ \<Rightarrow> Inr c)"

end
