(* ===== verification/StrandMachine.thy ===== *)
theory StrandMachine
  imports Agent_Prelude
begin

text \<open>
  Handlers posted to a \<open>boost::asio\<close> strand run one after the other, each to completion.
  A component driven that way is a step function on its state that may end abnormally; this
  theory has its runs, the states it can reach, and the contract of an invariant: every
  handler returns and keeps it. The trip controller, the bridges and the gateway client are
  instances.
\<close>

section \<open>Runs and reachable states\<close>

fun run :: "('e \<Rightarrow> 's \<Rightarrow> exn + 's) \<Rightarrow> 'e list \<Rightarrow> 's \<Rightarrow> exn + 's" where
  "run step [] s = Inr s"
| "run step (e # es) s = (case step e s of Inl x \<Rightarrow> Inl x | Inr s' \<Rightarrow> run step es s')"

inductive reachable :: "('e \<Rightarrow> 's \<Rightarrow> exn + 's) \<Rightarrow> ('s \<Rightarrow> bool) \<Rightarrow> 's \<Rightarrow> bool"
  for step :: "'e \<Rightarrow> 's \<Rightarrow> exn + 's" and init :: "'s \<Rightarrow> bool" where
  start: "init s \<Longrightarrow> reachable step init s"
| next_step: "reachable step init s \<Longrightarrow> step e s = Inr s' \<Longrightarrow> reachable step init s'"

inductive_cases reachableE: "reachable step init s"

lemma run_append:
  "run step (es @ fs) s = (case run step es s of Inl x \<Rightarrow> Inl x | Inr s' \<Rightarrow> run step fs s')"
  by (induction es arbitrary: s) (auto split: sum.splits)

lemma run_reachable: "reachable step init s \<Longrightarrow> run step es s = Inr s' \<Longrightarrow> reachable step init s'"
  by (induction es arbitrary: s) (auto split: sum.splits intro: next_step)

lemma reachable_run: "reachable step init s \<Longrightarrow> \<exists>s0 es. init s0 \<and> run step es s0 = Inr s"
proof (induction rule: reachable.induct)
  case (start s)
  then show ?case by (metis run.simps(1))
next
  case (next_step s e s')
  then obtain s0 es where "init s0" "run step es s0 = Inr s" by blast
  with next_step.hyps(2) have "run step (es @ [e]) s0 = Inr s'" by (simp add: run_append)
  with \<open>init s0\<close> show ?case by blast
qed

section \<open>The contract of an invariant\<close>

text \<open>
  \<open>inv\<close> holds at the start, and every handler returns normally and keeps it.
\<close>

locale strand_machine =
  fixes step :: "'e \<Rightarrow> 's \<Rightarrow> exn + 's"
    and init :: "'s \<Rightarrow> bool"
    and inv :: "'s \<Rightarrow> bool"
  assumes init_inv: "init s \<Longrightarrow> inv s"
    and step_inv: "inv s \<Longrightarrow> \<exists>s'. step e s = Inr s' \<and> inv s'"
begin

lemma step_Inr: "inv s \<Longrightarrow> step e s = Inr s' \<Longrightarrow> inv s'"
  using step_inv [of s e] by auto

lemma step_no_throw: "inv s \<Longrightarrow> step e s \<noteq> Inl x"
  using step_inv [of s e] by auto

lemma run_total: "inv s \<Longrightarrow> \<exists>s'. run step es s = Inr s' \<and> inv s'"
proof (induction es arbitrary: s)
  case (Cons e es)
  then obtain s' where "step e s = Inr s'" "inv s'" using step_inv by blast
  with Cons.IH show ?case by simp
qed simp

lemma run_inv: "inv s \<Longrightarrow> run step es s = Inr s' \<Longrightarrow> inv s'"
  using run_total [of s es] by auto

lemma reachable_inv: "reachable step init s \<Longrightarrow> inv s"
  by (induction rule: reachable.induct) (auto intro: init_inv step_Inr)

lemma reachable_no_throw: "reachable step init s \<Longrightarrow> run step es s \<noteq> Inl x"
  using run_total [OF reachable_inv, of s es] by auto

text \<open>A relation that every step keeps between its two states holds along every run.\<close>

lemma run_relates:
  assumes "inv s" "run step es s = Inr s'"
    and "\<And>s. R s s" "\<And>a b c. R a b \<Longrightarrow> R b c \<Longrightarrow> R a c"
    and "\<And>e s s'. inv s \<Longrightarrow> e \<in> set es \<Longrightarrow> step e s = Inr s' \<Longrightarrow> R s s'"
  shows "R s s'"
  using assms(1,2,5)
proof (induction es arbitrary: s)
  case Nil
  then show ?case using assms(3) by simp
next
  case (Cons e es)
  then obtain t where t: "step e s = Inr t" "run step es t = Inr s'" by (auto split: sum.splits)
  have "R s t" using Cons.prems(3) [of s e t] Cons.prems(1) t(1) by simp
  moreover have "R t s'"
    using Cons.IH [OF step_Inr [OF Cons.prems(1) t(1)] t(2)] Cons.prems(3) by (meson list.set_intros(2))
  ultimately show ?case using assms(4) by blast
qed

end

end
