(* ===== verification/TripMachine.thy ===== *)
theory TripMachine
  imports TripController StrandMachine
begin

text \<open>
  The trip controller as a machine on the strand: the handlers that are posted to it, with the
  data each is posted with, one step for each, and the state after \<open>initialize()\<close> of
  \<open>AutowareController.cc\<close>, which installs the callbacks and calls \<open>initializeInMap\<close>.
  Then the frame lemmas: what each helper of the controller leaves as it was.
\<close>

section \<open>Events and steps\<close>

text \<open>
  \<open>EvQueryEta\<close> and \<open>EvTick\<close> carry the transform the controller looks up; \<open>EvTick\<close> also
  whether the two services are ready.
\<close>

datatype ctrl_event =
    EvQueryEta gps_coord gps_coord "nat option" "local_coord option"
  | EvStartTrip
  | EvMoveCommand
  | EvGoToPickup
  | EvMove
  | EvCancel
  | EvTick autoware_services "local_coord option"
  | EvLocState loc_init_state
  | EvRouteState route_state_value
  | EvModeState op_mode_state
  | EvRoute lanelet_route
  | EvEta real real
  | EvModeResponse bool
  | EvEngageResponse u32

type_synonym timed_event = "time_point \<times> ctrl_event"

text \<open>\<open>AutowareController::onTickTimer\<close> on an existing controller.\<close>

definition onTick :: "autoware_services \<Rightarrow> local_coord option \<Rightarrow> time_point \<Rightarrow> trip_controller \<Rightarrow> exn + trip_controller" where
  "onTick svc tf now c =
     tick svc now (case getCurrentVehiclePose tf c of None \<Rightarrow> c | Some g \<Rightarrow> setCurrentGps g c)"

fun ctrl_step :: "timed_event \<Rightarrow> trip_controller \<Rightarrow> exn + trip_controller" where
  "ctrl_step (now, EvQueryEta s g cb tf) c = map_sum id snd (queryEta now tf s g cb c)"
| "ctrl_step (now, EvStartTrip) c = map_sum id snd (startTrip now c)"
| "ctrl_step (now, EvMoveCommand) c = map_sum id snd (handleMoveCommand now c)"
| "ctrl_step (now, EvGoToPickup) c = Inr (snd (goToPickup now c))"
| "ctrl_step (now, EvMove) c = map_sum id snd (move now c)"
| "ctrl_step (now, EvCancel) c = Inr (cancel now c)"
| "ctrl_step (now, EvTick svc tf) c = onTick svc tf now c"
| "ctrl_step (now, EvLocState s) c = Inr (c\<lparr>current_loc_state := Some s\<rparr>)"
| "ctrl_step (now, EvRouteState s) c = Inr (c\<lparr>current_route_state := Some s\<rparr>)"
| "ctrl_step (now, EvModeState s) c = Inr (c\<lparr>current_mode_state := Some s\<rparr>)"
| "ctrl_step (now, EvRoute r) c = Inr (onRouteReceived r c)"
| "ctrl_step (now, EvEta d t) c = Inr (injectEta d t c)"
| "ctrl_step (now, EvModeResponse ok) c = Inr (onModeResponse ok c)"
| "ctrl_step (now, EvEngageResponse code) c = Inr (onEngageResponse now code c)"

definition booted :: "lanelet_map \<Rightarrow> trip_timings \<Rightarrow> time_point \<Rightarrow> trip_controller" where
  "booted m tm now =
     initializeInMap now (setArrivalCallbacks True True
       (setStateChangeCallback True (new_TripController m tm)))"

definition ctrl_init :: "trip_controller \<Rightarrow> bool" where
  "ctrl_init c \<longleftrightarrow> (\<exists>m tm now. wf_map m \<and> cache_inv m \<and> c = booted m tm now)"

abbreviation ctrl_reachable :: "trip_controller \<Rightarrow> bool" where
  "ctrl_reachable \<equiv> reachable ctrl_step ctrl_init"

section \<open>Frames\<close>

text \<open>The publishing helpers only append to the outbox.\<close>

lemmas publish_defs [ctrl_defs] =
  emit_def doPublishInitialPose_def doPublishGoal_def publish_init_def publish_start_def
  publish_goal_def publish_start_as_goal_def setCurrentGps_def Let_def

lemma transitionTo_state [simp]: "state_of (transitionTo now s c) = s"
  by (simp add: transitionTo_def Let_def emit_def)

lemma transitionTo_status [simp]:
  "start_lanelet_id (status (transitionTo now s c)) = start_lanelet_id (status c)"
  "goal_lanelet_id (status (transitionTo now s c)) = goal_lanelet_id (status c)"
  "start_x (status (transitionTo now s c)) = start_x (status c)"
  "start_y (status (transitionTo now s c)) = start_y (status c)"
  "start_z (status (transitionTo now s c)) = start_z (status c)"
  "start_qz (status (transitionTo now s c)) = start_qz (status c)"
  "start_qw (status (transitionTo now s c)) = start_qw (status c)"
  "goal_x (status (transitionTo now s c)) = goal_x (status c)"
  "goal_y (status (transitionTo now s c)) = goal_y (status c)"
  "goal_z (status (transitionTo now s c)) = goal_z (status c)"
  "goal_qz (status (transitionTo now s c)) = goal_qz (status c)"
  "goal_qw (status (transitionTo now s c)) = goal_qw (status c)"
  "goal_gps (status (transitionTo now s c)) = goal_gps (status c)"
  "start_gps (status (transitionTo now s c)) = start_gps (status c)"
  "goal_distance_m (status (transitionTo now s c)) = goal_distance_m (status c)"
  "current_gps (status (transitionTo now s c)) = current_gps (status c)"
  by (simp_all add: transitionTo_def Let_def emit_def)

lemma transitionTo_fields [simp]:
  "tc_map (transitionTo now s c) = tc_map c"
  "timings (transitionTo now s c) = timings c"
  "engaging_for_pickup (transitionTo now s c) = engaging_for_pickup c"
  "current_loc_state (transitionTo now s c) = current_loc_state c"
  "current_route_state (transitionTo now s c) = current_route_state c"
  "current_mode_state (transitionTo now s c) = current_mode_state c"
  "last_route (transitionTo now s c) = last_route c"
  "on_state_change (transitionTo now s c) = on_state_change c"
  "on_pickup_arrived (transitionTo now s c) = on_pickup_arrived c"
  "on_dropoff_arrived (transitionTo now s c) = on_dropoff_arrived c"
  "route_received (transitionTo now s c) = route_received c"
  "querying (transitionTo now s c) = querying c"
  "current_leg (transitionTo now s c) = current_leg c"
  "query_start_gps (transitionTo now s c) = query_start_gps c"
  "query_goal_gps (transitionTo now s c) = query_goal_gps c"
  "query_cb (transitionTo now s c) = query_cb c"
  "query_result (transitionTo now s c) = query_result c"
  "eta_received (transitionTo now s c) = eta_received c"
  "eta_distance_m (transitionTo now s c) = eta_distance_m c"
  "eta_seconds (transitionTo now s c) = eta_seconds c"
  "pickup_route (transitionTo now s c) = pickup_route c"
  "trip_route (transitionTo now s c) = trip_route c"
  "init_x (transitionTo now s c) = init_x c"
  "init_y (transitionTo now s c) = init_y c"
  "init_z (transitionTo now s c) = init_z c"
  "init_qz (transitionTo now s c) = init_qz c"
  "init_qw (transitionTo now s c) = init_qw c"
  by (simp_all add: transitionTo_def Let_def emit_def)

lemma transitionTo_entered:
  "state_entered_at (transitionTo now s c) = (if state_of c = s then state_entered_at c else now)"
  by (simp add: transitionTo_def Let_def emit_def)

lemma transitionTo_published:
  "last_publish_time (transitionTo now s c) = (if state_of c = s then last_publish_time c else 0)"
  by (simp add: transitionTo_def Let_def emit_def)

lemma transitionTo_outbox:
  "outbox (transitionTo now s c) =
     outbox c @ (if state_of c \<noteq> s \<and> on_state_change c
                 then [StateChanged (state_of c) s ((status c)\<lparr>st_state := s, last_state_change := now\<rparr>)]
                 else [])"
  by (simp add: transitionTo_def Let_def emit_def)

lemma reply_query_fields [simp]:
  "tc_map (reply_query c) = tc_map c" "timings (reply_query c) = timings c"
  "status (reply_query c) = status c" "query_cb (reply_query c) = None"
  "querying (reply_query c) = querying c" "current_leg (reply_query c) = current_leg c"
  "query_result (reply_query c) = query_result c"
  "pickup_route (reply_query c) = pickup_route c" "trip_route (reply_query c) = trip_route c"
  "on_state_change (reply_query c) = on_state_change c"
  "state_entered_at (reply_query c) = state_entered_at c"
  "engaging_for_pickup (reply_query c) = engaging_for_pickup c"
  "current_route_state (reply_query c) = current_route_state c"
  "outbox (reply_query c) =
     outbox c @ (case query_cb c of None \<Rightarrow> [] | Some k \<Rightarrow> [QueryReply k (query_result c)])"
  by (simp_all add: reply_query_def emit_def split: option.splits)

lemma failQuery_fields [simp]:
  "tc_map (failQuery now r c) = tc_map c" "timings (failQuery now r c) = timings c"
  "state_of (failQuery now r c) = IDLE"
  "query_cb (failQuery now r c) = None" "querying (failQuery now r c) = False"
  "pickup_route (failQuery now r c) = None" "trip_route (failQuery now r c) = None"
  "on_state_change (failQuery now r c) = on_state_change c"
  by (simp_all add: failQuery_def Let_def)

text \<open>\<open>failQuery\<close> resets the status first, so its transition is never reported.\<close>

lemma default_status_IDLE [simp]: "st_state default_status = IDLE"
  by (simp add: default_status_def)

lemma failQuery_outbox:
  "outbox (failQuery now r c) =
     outbox c @ (case query_cb c of None \<Rightarrow> []
                 | Some k \<Rightarrow> [QueryReply k ((query_result c)\<lparr>q_success := False, q_error_message := r\<rparr>)])"
  by (simp add: failQuery_def Let_def transitionTo_outbox split: option.splits)

lemma republish_fields [simp]:
  assumes "tc_map (p c) = tc_map c" "timings (p c) = timings c" "status (p c) = status c"
    "query_cb (p c) = query_cb c" "querying (p c) = querying c" "current_leg (p c) = current_leg c"
    "query_result (p c) = query_result c" "query_start_gps (p c) = query_start_gps c"
    "query_goal_gps (p c) = query_goal_gps c" "state_entered_at (p c) = state_entered_at c"
    "pickup_route (p c) = pickup_route c" "trip_route (p c) = trip_route c"
  shows
    "tc_map (republish now ms p c) = tc_map c" "timings (republish now ms p c) = timings c"
    "status (republish now ms p c) = status c"
    "query_cb (republish now ms p c) = query_cb c" "querying (republish now ms p c) = querying c"
    "current_leg (republish now ms p c) = current_leg c"
    "query_result (republish now ms p c) = query_result c"
    "query_start_gps (republish now ms p c) = query_start_gps c"
    "query_goal_gps (republish now ms p c) = query_goal_gps c"
    "state_entered_at (republish now ms p c) = state_entered_at c"
    "pickup_route (republish now ms p c) = pickup_route c"
    "trip_route (republish now ms p c) = trip_route c"
  using assms by (simp_all add: republish_def)

lemma doEngage_frame: "\<exists>es. doEngage svc c = c\<lparr>outbox := outbox c @ es\<rparr> \<and> set es \<subseteq> {ModeRequest}"
  by (auto simp: doEngage_def emit_def split: option.splits intro: exI [of _ "[]"])

end
