(* ===== verification/TripInvariant.thy ===== *)
theory TripInvariant
  imports TripMachine
begin

text \<open>
  The invariant of the trip controller: its abstract phases, what holds in each, and the
  proof that every event on the strand returns normally and keeps it. The lookups of the map
  are used only through their contract \<open>cached_lookup\<close>.
\<close>

section \<open>Phases\<close>

datatype trip_phase = Idle | Quoting | Quoted | Underway | Dead

fun phase_of :: "trip_state \<Rightarrow> trip_phase" where
  "phase_of IDLE = Idle"
| "phase_of INITIALIZING_IN_MAP = Idle"
| "phase_of QUERY_PUBLISHING_INITIAL_POSE = Quoting"
| "phase_of QUERY_WAITING_LOCALISATION = Quoting"
| "phase_of QUERY_PUBLISHING_GOAL = Quoting"
| "phase_of QUERY_WAITING_ROUTE = Quoting"
| "phase_of QUERY_READING_ETA = Quoting"
| "phase_of ROUTES_READY = Quoted"
| "phase_of WAITING_FOR_PICKUP_START = Underway"
| "phase_of PUBLISHING_INITIAL_POSE = Underway"
| "phase_of WAITING_LOCALISATION = Underway"
| "phase_of ENGAGING = Underway"
| "phase_of DRIVING_TO_PICKUP = Underway"
| "phase_of WAITING_FOR_MOVE = Underway"
| "phase_of RUNNING = Underway"
| "phase_of COMPLETED = Underway"
| "phase_of CANCELLED = Dead"
| "phase_of FAILED = Dead"

section \<open>The invariant\<close>

definition map_ok :: "trip_controller \<Rightarrow> bool" where
  "map_ok c \<longleftrightarrow> wf_map (tc_map c) \<and> cache_inv (tc_map c)"

definition idle_inv :: "trip_controller \<Rightarrow> bool" where
  "idle_inv c \<longleftrightarrow> \<not> querying c \<and> query_cb c = None \<and> pickup_route c = None \<and> trip_route c = None"

text \<open>Where the leg being quoted is going.\<close>

definition leg_target :: "trip_controller \<Rightarrow> gps_coord" where
  "leg_target c = (if current_leg c = PICKUP then query_start_gps c else query_goal_gps c)"

text \<open>
  While a leg is quoted, its lanes are known lanes, the goal is the lane the map selects
  among those reachable from the start, and the trip leg starts where the pickup leg ended.
\<close>

definition leg_inv :: "trip_controller \<Rightarrow> bool" where
  "leg_inv c \<longleftrightarrow>
     (\<exists>s g. start_lanelet_id (status c) = to_string s \<and> goal_lanelet_id (status c) = to_string g \<and>
        s \<in> lane_ids (tc_map c) \<and> g \<in> lane_ids (tc_map c) \<and>
        connected_id (tc_map c) (leg_target c) s True = Some g \<and>
        (current_leg c = TRIP \<longrightarrow>
           (\<exists>pr. pickup_route c = Some pr \<and> held_goal_lane_id pr = s \<and>
              leg_goal_lane_id (pickup_leg (query_result c)) = to_string s))) \<and>
     querying c \<and> trip_route c = None \<and> (current_leg c = PICKUP \<longrightarrow> pickup_route c = None)"

text \<open>
  Once both legs are quoted, the two held routes fit together, and the goal of the trip
  route, resolved from the pickup lane, is the lane that was quoted.
\<close>

definition bank_inv :: "trip_controller \<Rightarrow> bool" where
  "bank_inv c \<longleftrightarrow>
     (\<exists>pr tr g. pickup_route c = Some pr \<and> trip_route c = Some tr \<and>
        held_goal_lane_id pr \<in> lane_ids (tc_map c) \<and>
        connected_id (tc_map c) (held_goal_gps tr) (held_goal_lane_id pr) True = Some g \<and>
        leg_goal_lane_id (pickup_leg (query_result c)) = to_string (held_goal_lane_id pr) \<and>
        leg_start_lane_id (trip_leg (query_result c)) = to_string (held_goal_lane_id pr) \<and>
        leg_goal_lane_id (trip_leg (query_result c)) = to_string g) \<and>
     \<not> querying c \<and> query_cb c = None"

definition at_pickup_lane :: "trip_controller \<Rightarrow> bool" where
  "at_pickup_lane c \<longleftrightarrow>
     (\<exists>pr. pickup_route c = Some pr \<and> start_lanelet_id (status c) = to_string (held_goal_lane_id pr))"

definition ctrl_inv :: "trip_controller \<Rightarrow> bool" where
  "ctrl_inv c \<longleftrightarrow>
     map_ok c \<and>
     (case phase_of (state_of c) of
        Idle \<Rightarrow> idle_inv c
      | Quoting \<Rightarrow> leg_inv c
      | Quoted \<Rightarrow> bank_inv c
      | Underway \<Rightarrow> bank_inv c \<and> at_pickup_lane c
      | Dead \<Rightarrow> False)"

lemmas inv_defs = ctrl_inv_def map_ok_def idle_inv_def leg_inv_def bank_inv_def at_pickup_lane_def
  leg_target_def

text \<open>The part of the state the invariant reads, besides the state's phase.\<close>

definition core where
  "core c = (tc_map c, start_lanelet_id (status c), goal_lanelet_id (status c), query_cb c, querying c,
     current_leg c, query_start_gps c, query_goal_gps c, pickup_route c, trip_route c, query_result c)"

lemma core_eq_inv:
  assumes "core c' = core c" "phase_of (state_of c') = phase_of (state_of c)"
  shows "ctrl_inv c' = ctrl_inv c"
proof -
  have "map_ok c' = map_ok c" "idle_inv c' = idle_inv c" "leg_inv c' = leg_inv c"
    "bank_inv c' = bank_inv c" "at_pickup_lane c' = at_pickup_lane c"
    using assms(1)
    by (simp_all add: core_def map_ok_def idle_inv_def leg_inv_def bank_inv_def at_pickup_lane_def
        leg_target_def)
  with assms(2) show ?thesis by (simp add: ctrl_inv_def split: trip_phase.split)
qed

lemma core_transitionTo [simp]: "core (transitionTo now s c) = core c"
  by (simp add: core_def)

lemma core_publish [simp]:
  "core (publish_init c) = core c" "core (publish_start c) = core c" "core (publish_goal c) = core c"
  "core (publish_start_as_goal c) = core c" "core (emit e c) = core c" "core (setCurrentGps g c) = core c"
  by (simp_all add: core_def publish_defs)

lemma core_doEngage [simp]: "core (doEngage svc c) = core c"
  by (simp add: doEngage_def split: option.splits)

lemma core_republish [simp]: "core (p c) = core c \<Longrightarrow> core (republish now ms p c) = core c"
  by (simp add: republish_def core_def)

lemma state_of_publish [simp]:
  "state_of (publish_init c) = state_of c" "state_of (publish_start c) = state_of c"
  "state_of (publish_goal c) = state_of c" "state_of (publish_start_as_goal c) = state_of c"
  "state_of (emit e c) = state_of c" "state_of (setCurrentGps g c) = state_of c"
  by (simp_all add: publish_defs)

lemma state_of_doEngage [simp]: "state_of (doEngage svc c) = state_of c"
  by (simp add: doEngage_def split: option.splits)

lemma state_of_republish [simp]: "state_of (p c) = state_of c \<Longrightarrow> state_of (republish now ms p c) = state_of c"
  by (simp add: republish_def)

text \<open>Looking lanes up changes the map only by extending its cache.\<close>

lemma connected_id_extends: "cache_extends m m' \<Longrightarrow> connected_id m' g r f = connected_id m g r f"
  by (rule connected.selects_extends)

lemma map_ok_extends: "map_ok c \<Longrightarrow> cache_extends (tc_map c) m \<Longrightarrow> map_ok (c\<lparr>tc_map := m\<rparr>)"
  by (simp add: map_ok_def cache_extends_static cache_extends_inv)

lemma bank_inv_extends: "bank_inv c \<Longrightarrow> cache_extends (tc_map c) m \<Longrightarrow> bank_inv (c\<lparr>tc_map := m\<rparr>)"
  by (simp add: bank_inv_def cache_extends_static connected_id_extends)

lemma known_id_Some: "i \<in> lane_ids m \<Longrightarrow> known_id m i = Some i"
  by (simp add: known_id_def)

lemma failQuery_inv: "map_ok c \<Longrightarrow> ctrl_inv (failQuery now r c)"
  by (simp add: ctrl_inv_def idle_inv_def map_ok_def)

section \<open>Starting and finishing a leg\<close>

text \<open>What \<open>startQueryLeg\<close> needs: an empty trip bank, and on the trip leg a pickup route.\<close>

definition leg_ready :: "trip_controller \<Rightarrow> bool" where
  "leg_ready c \<longleftrightarrow>
     map_ok c \<and> querying c \<and> trip_route c = None \<and> (current_leg c = PICKUP \<longrightarrow> pickup_route c = None) \<and>
     (current_leg c = TRIP \<longrightarrow>
        (\<exists>pr. pickup_route c = Some pr \<and> goal_lanelet_id (status c) = to_string (held_goal_lane_id pr) \<and>
           held_goal_lane_id pr \<in> lane_ids (tc_map c) \<and>
           leg_goal_lane_id (pickup_leg (query_result c)) = to_string (held_goal_lane_id pr)))"

lemma query_from_lane_total:
  assumes "leg_ready c"
  obtains r m where "query_from_lane g c = Inr (r, m)" "cache_extends (tc_map c) m"
    "\<And>l. r = Some l \<Longrightarrow> lane_id l \<in> lane_ids (tc_map c)"
    "\<And>l pr. r = Some l \<Longrightarrow> current_leg c = TRIP \<Longrightarrow> pickup_route c = Some pr \<Longrightarrow>
       lane_id l = held_goal_lane_id pr"
proof (cases "current_leg c")
  case PICKUP
  with assms that show thesis
    using nearest.lookup_total [of "tc_map c" g thesis] nearest.lookup_Inr [of "tc_map c" g]
    by (auto simp: leg_ready_def map_ok_def query_from_lane_def)
next
  case TRIP
  with assms obtain pr where pr: "pickup_route c = Some pr"
    "goal_lanelet_id (status c) = to_string (held_goal_lane_id pr)"
    "held_goal_lane_id pr \<in> lane_ids (tc_map c)" "map_ok c"
    by (auto simp: leg_ready_def)
  let ?i = "held_goal_lane_id pr"
  obtain r m where l: "getLaneById (tc_map c) ?i = Inr (r, m)" "cache_extends (tc_map c) m"
    "map_option lane_id r = known_id (tc_map c) ?i"
    using by_id.lookup_total [of "tc_map c" ?i thesis] pr(4) by (auto simp: map_ok_def)
  with TRIP pr that show thesis
    by (auto simp: query_from_lane_def known_id_Some)
qed

lemma set_leg_status_ids [simp]:
  "start_lanelet_id (set_leg_status m f t g s) = to_string (lane_id f)"
  "goal_lanelet_id (set_leg_status m f t g s) = to_string (lane_id t)"
  by (simp_all add: set_leg_status_def Let_def)

lemma startQueryLeg_inv:
  assumes "leg_ready c" "to_gps = leg_target c"
  obtains c' where "startQueryLeg now from_gps to_gps c = Inr c'" "ctrl_inv c'"
    "state_of c' = IDLE \<or> state_of c' = QUERY_PUBLISHING_INITIAL_POSE"
proof -
  have ok: "map_ok c" using assms(1) by (simp add: leg_ready_def)
  obtain r m where q: "query_from_lane from_gps c = Inr (r, m)" and ext: "cache_extends (tc_map c) m"
    and ids: "\<And>l. r = Some l \<Longrightarrow> lane_id l \<in> lane_ids (tc_map c)"
    and trip: "\<And>l pr. r = Some l \<Longrightarrow> current_leg c = TRIP \<Longrightarrow> pickup_route c = Some pr \<Longrightarrow>
       lane_id l = held_goal_lane_id pr"
    using query_from_lane_total [OF assms(1)] by metis
  show thesis
  proof (cases r)
    case None
    with q ok ext that show thesis
      by (simp add: startQueryLeg_def failQuery_inv map_ok_extends)
  next
    case (Some l)
    have m: "wf_map m" "cache_inv m" "lane_id l \<in> lane_ids m"
      using ok ext ids [OF Some] by (simp_all add: map_ok_def cache_extends_static cache_extends_inv)
    obtain r2 m2 where l2: "findNearestConnectedLane m to_gps (lane_id l) True = Inr (r2, m2)"
      "cache_extends m m2" "map_option lane_id r2 = connected_id m to_gps (lane_id l) True"
      using connected.lookup_total [OF m] by metis
    have ext2: "cache_extends (tc_map c) m2" using ext l2(2) by (rule cache_extends_trans)
    show thesis
    proof (cases r2)
      case None
      have m2: "wf_map m2" "cache_inv m2"
        using m l2(2) by (simp_all add: cache_extends_static cache_extends_inv)
      obtain r3 m3 where l3: "findNearestLane m2 to_gps = Inr (r3, m3)" "cache_extends m2 m3"
        using nearest.lookup_total [OF m2 TrueI] by metis
      have "map_ok (c\<lparr>tc_map := m3\<rparr>)"
        using ok cache_extends_trans [OF ext2 l3(2)] by (rule map_ok_extends)
      with q Some None l2(1) l3(1) that show thesis
        by (simp add: startQueryLeg_def failQuery_inv)
    next
      case (Some to_lane)
      let ?c = "c\<lparr>tc_map := m2, status := set_leg_status m2 l to_lane to_gps (status c)\<rparr>"
      have g: "connected_id (tc_map c) to_gps (lane_id l) True = Some (lane_id to_lane)"
        using l2(3) Some ext by (simp add: connected_id_extends)
      have tl: "lane_id to_lane \<in> lane_ids (tc_map c)"
        using connected.lookup_Inr(6) [OF m l2(1) Some] ext by (simp add: cache_extends_static)
      have "leg_inv (transitionTo now QUERY_PUBLISHING_INITIAL_POSE ?c)"
        using assms g tl ids [OF \<open>r = Some l\<close>] trip [OF \<open>r = Some l\<close>]
        by (auto simp: leg_inv_def leg_ready_def leg_target_def cache_extends_static [OF ext2]
            connected_id_extends [OF ext2])
      moreover have "map_ok (transitionTo now QUERY_PUBLISHING_INITIAL_POSE ?c)"
        using ok ext2 by (simp add: map_ok_def cache_extends_static cache_extends_inv)
      ultimately have "ctrl_inv (transitionTo now QUERY_PUBLISHING_INITIAL_POSE ?c)"
        by (simp add: ctrl_inv_def)
      with q \<open>r = Some l\<close> Some l2(1) that show thesis by (simp add: startQueryLeg_def)
    qed
  qed
qed

text \<open>
  Finishing a leg: after the pickup leg the trip leg starts from the lane just quoted; after
  the trip leg both routes are in the bank.
\<close>

lemma finish_pickup_leg_inv:
  assumes "map_ok c" "leg_inv c" "current_leg c = PICKUP"
  obtains c' where "finish_pickup_leg now c = Inr c'" "ctrl_inv c'"
    "state_of c' = IDLE \<or> state_of c' = QUERY_PUBLISHING_INITIAL_POSE"
proof -
  obtain g where g: "goal_lanelet_id (status c) = to_string g" "g \<in> lane_ids (tc_map c)"
    using assms(2) by (auto simp: leg_inv_def)
  let ?c1 = "c\<lparr>query_result := (query_result c)\<lparr>pickup_leg := current_leg_eta c\<rparr>\<rparr>"
  let ?c2 = "?c1\<lparr>pickup_route := Some (current_held_route (query_start_gps ?c1) g ?c1),
                 current_leg := TRIP, current_route_state := None, route_received := False\<rparr>"
  have "leg_ready ?c2"
    using assms(1,2) g by (auto simp: leg_ready_def leg_inv_def map_ok_def current_held_route_def current_leg_eta_def)
  moreover have "query_goal_gps ?c1 = leg_target ?c2" by (simp add: leg_target_def)
  ultimately obtain c' where "startQueryLeg now (query_start_gps ?c1) (query_goal_gps ?c1) ?c2 = Inr c'"
    "ctrl_inv c'" "state_of c' = IDLE \<or> state_of c' = QUERY_PUBLISHING_INITIAL_POSE"
    using startQueryLeg_inv by metis
  with g(1) that show thesis by (simp add: finish_pickup_leg_def Let_def)
qed

lemma finish_trip_leg_state [simp]: "state_of (finish_trip_leg now c) = ROUTES_READY"
  by (simp add: finish_trip_leg_def Let_def)

lemma finish_trip_leg_inv:
  assumes "map_ok c" "leg_inv c" "current_leg c = TRIP"
  shows "ctrl_inv (finish_trip_leg now c)"
  using assms
  by (auto simp: ctrl_inv_def map_ok_def leg_inv_def bank_inv_def leg_target_def finish_trip_leg_def Let_def
      current_held_route_def current_leg_eta_def)

lemma finishQueryLeg_inv:
  assumes "map_ok c" "leg_inv c"
  obtains c' where "finishQueryLeg now c = Inr c'" "ctrl_inv c'"
    "state_of c' = IDLE \<or> state_of c' = QUERY_PUBLISHING_INITIAL_POSE \<or> state_of c' = ROUTES_READY"
proof (cases "current_leg c")
  case PICKUP
  with finish_pickup_leg_inv [OF assms PICKUP, of now] that show thesis
    by (metis finishQueryLeg_def)
next
  case TRIP
  with finish_trip_leg_inv [OF assms TRIP, of now] that show thesis
    by (simp add: finishQueryLeg_def)
qed

section \<open>Commands\<close>

lemma core_reply_now [simp]: "core (reply_now cb r c) = core c"
  by (simp add: reply_now_def split: option.splits)

lemma state_of_reply_now [simp]: "state_of (reply_now cb r c) = state_of c"
  by (simp add: reply_now_def split: option.splits)

text \<open>A query is rejected with an immediate answer, or its pickup leg is started.\<close>

lemma queryEta_inv:
  assumes "ctrl_inv c"
  obtains ok c' where "queryEta now tf s g cb c = Inr (ok, c')" "ctrl_inv c'"
    "state_of c' = state_of c \<or> state_of c = IDLE \<and> state_of c' = QUERY_PUBLISHING_INITIAL_POSE"
proof (cases "state_of c = IDLE \<and> getCurrentVehiclePose tf c \<noteq> None")
  case False
  then obtain r where "queryEta now tf s g cb c = Inr (False, reply_now cb r c)"
    by (cases "state_of c = IDLE") (auto simp: queryEta_def)
  moreover have "ctrl_inv (reply_now cb r c)"
    by (rule core_eq_inv [THEN iffD2, OF _ _ assms]) simp_all
  ultimately show thesis using that [of False "reply_now cb r c"] by simp
next
  case True
  then obtain pose where pose: "getCurrentVehiclePose tf c = Some pose" by auto
  let ?c1 = "c\<lparr>querying := True, current_leg := PICKUP, query_start_gps := s, query_goal_gps := g,
               query_cb := cb, query_result := default_result, pickup_route := None, trip_route := None\<rparr>"
  have "leg_ready ?c1" using assms by (simp add: leg_ready_def ctrl_inv_def map_ok_def)
  moreover have "s = leg_target ?c1" by (simp add: leg_target_def)
  ultimately obtain c' where "startQueryLeg now pose s ?c1 = Inr c'" "ctrl_inv c'"
    "state_of c' = IDLE \<or> state_of c' = QUERY_PUBLISHING_INITIAL_POSE"
    using startQueryLeg_inv by metis
  moreover from this have "queryEta now tf s g cb c = Inr (True, c')"
    using True pose by (simp add: queryEta_def Let_def)
  ultimately show thesis using that [of True c'] True by metis
qed

lemma goToPickup_inv: "ctrl_inv c \<Longrightarrow> ctrl_inv (snd (goToPickup now c))"
  unfolding goToPickup_def
  by (cases "state_of c = WAITING_FOR_PICKUP_START")
     (auto intro!: core_eq_inv [THEN iffD2, of _ c] simp: core_def)

lemma set_start_lane_ids [simp]:
  "start_lanelet_id (set_start_lane l g s) = to_string (lane_id l)"
  "goal_lanelet_id (set_start_lane l g s) = goal_lanelet_id s" "st_state (set_start_lane l g s) = st_state s"
  by (simp_all add: set_start_lane_def)

lemma set_goal_lane_ids [simp]:
  "goal_lanelet_id (set_goal_lane l g d s) = to_string (lane_id l)"
  "start_lanelet_id (set_goal_lane l g d s) = start_lanelet_id s" "st_state (set_goal_lane l g d s) = st_state s"
  by (simp_all add: set_goal_lane_def)

text \<open>\<open>startTrip\<close> is accepted exactly when both routes are quoted and no trip is under way.\<close>

lemma ctrl_inv_flags [simp]:
  "ctrl_inv (c\<lparr>engaging_for_pickup := b, current_route_state := r\<rparr>) = ctrl_inv c"
  by (rule core_eq_inv) (simp_all add: core_def)

lemma startTrip_inv:
  assumes "ctrl_inv c"
  obtains ok c' where "startTrip now c = Inr (ok, c')" "ctrl_inv c'" "ok \<longleftrightarrow> state_of c = ROUTES_READY"
    "state_of c' = (if ok then WAITING_FOR_PICKUP_START else state_of c)"
proof (cases "state_of c = ROUTES_READY")
  case False
  let ?c = "c\<lparr>engaging_for_pickup := True, current_route_state := None\<rparr>"
  have "state_of c = IDLE \<Longrightarrow> pickup_route c = None"
    using assms by (simp add: ctrl_inv_def idle_inv_def)
  then have "startTrip now c = Inr (False, ?c)"
    using False by (auto simp: startTrip_def Let_def split: option.splits)
  with False that [of False ?c] assms show thesis by simp
next
  case True
  with assms have b: "map_ok c" "bank_inv c" by (simp_all add: ctrl_inv_def)
  then obtain pr tr where pr: "pickup_route c = Some pr" "trip_route c = Some tr"
    "held_goal_lane_id pr \<in> lane_ids (tc_map c)" by (auto simp: bank_inv_def)
  obtain r m where l: "getLaneById (tc_map c) (held_goal_lane_id pr) = Inr (r, m)" "cache_extends (tc_map c) m"
    "map_option lane_id r = known_id (tc_map c) (held_goal_lane_id pr)"
    using by_id.lookup_total [of "tc_map c" "held_goal_lane_id pr" thesis] b(1) by (auto simp: map_ok_def)
  with pr(3) obtain lane where lane: "r = Some lane" "lane_id lane = held_goal_lane_id pr"
    by (auto simp: known_id_Some)
  let ?c = "c\<lparr>engaging_for_pickup := True, current_route_state := None, tc_map := m,
              status := set_start_lane lane (held_goal_gps pr) (status c)\<rparr>"
  let ?c' = "transitionTo now WAITING_FOR_PICKUP_START ?c"
  have "bank_inv (c\<lparr>tc_map := m\<rparr>)" "map_ok (c\<lparr>tc_map := m\<rparr>)"
    using b l(2) by (simp_all add: bank_inv_extends map_ok_extends)
  then have "ctrl_inv ?c'" using lane(2) pr(1) by (simp add: inv_defs)
  moreover have "startTrip now c = Inr (True, ?c')"
    using True pr l(1) lane(1) by (simp add: startTrip_def Let_def)
  ultimately show thesis using that [of True ?c'] True by simp
qed

text \<open>
  \<open>move\<close> resolves the goal lane of the trip route again, from the lane the vehicle stands on;
  the lookup cannot fail, and its lane is the quoted one.
\<close>

lemma move_accepted:
  assumes "ctrl_inv c" "state_of c = WAITING_FOR_MOVE"
  obtains c' where "move now c = Inr (True, c')" "ctrl_inv c'" "state_of c' = ENGAGING"
    "engaging_for_pickup c' = False" "goal_lanelet_id (status c') = leg_goal_lane_id (trip_leg (query_result c))"
    "start_lanelet_id (status c') = leg_start_lane_id (trip_leg (query_result c))"
proof -
  from assms have b: "map_ok c" "bank_inv c" "at_pickup_lane c" by (simp_all add: ctrl_inv_def)
  then obtain pr tr g where pr: "pickup_route c = Some pr" "trip_route c = Some tr"
    "held_goal_lane_id pr \<in> lane_ids (tc_map c)"
    "connected_id (tc_map c) (held_goal_gps tr) (held_goal_lane_id pr) True = Some g"
    "leg_start_lane_id (trip_leg (query_result c)) = to_string (held_goal_lane_id pr)"
    "leg_goal_lane_id (trip_leg (query_result c)) = to_string g"
    "start_lanelet_id (status c) = to_string (held_goal_lane_id pr)"
    by (auto simp: bank_inv_def at_pickup_lane_def)
  obtain r m where l: "findNearestConnectedLane (tc_map c) (held_goal_gps tr) (held_goal_lane_id pr) True = Inr (r, m)"
    "cache_extends (tc_map c) m" "map_option lane_id r = Some g"
    using connected.lookup_total [of "tc_map c" "held_goal_lane_id pr" "held_goal_gps tr" True thesis] b(1) pr
    by (auto simp: map_ok_def)
  then obtain lane where lane: "r = Some lane" "lane_id lane = g" by auto
  let ?c = "c\<lparr>tc_map := m, status := set_goal_lane lane (held_goal_gps tr) (held_distance_m tr) (status c),
              current_route_state := None\<rparr>"
  let ?c' = "transitionTo now ENGAGING ((publish_goal ?c)\<lparr>engaging_for_pickup := False\<rparr>)"
  have "move now c = Inr (True, ?c')"
    using assms(2) pr l(1) lane(1) by (simp add: move_def Let_def)
  moreover have "ctrl_inv ?c'"
  proof -
    have "bank_inv (c\<lparr>tc_map := m\<rparr>)" "map_ok (c\<lparr>tc_map := m\<rparr>)"
      using b l(2) by (simp_all add: bank_inv_extends map_ok_extends)
    then show ?thesis using pr(1,7) by (simp add: inv_defs publish_defs)
  qed
  moreover have "goal_lanelet_id (status ?c') = leg_goal_lane_id (trip_leg (query_result c))"
    "start_lanelet_id (status ?c') = leg_start_lane_id (trip_leg (query_result c))"
    using pr lane(2) by (simp_all add: publish_defs)
  ultimately show thesis using that [of ?c'] by simp
qed

lemma move_inv:
  assumes "ctrl_inv c"
  obtains ok c' where "move now c = Inr (ok, c')" "ctrl_inv c'" "ok \<longleftrightarrow> state_of c = WAITING_FOR_MOVE"
    "state_of c' = (if ok then ENGAGING else state_of c)"
proof (cases "state_of c = WAITING_FOR_MOVE")
  case True
  with move_accepted [OF assms True, of now] that show thesis by metis
next
  case False
  with assms that [of False c] show thesis by (simp add: move_def)
qed

lemma goToPickup_state:
  "state_of (snd (goToPickup now c)) =
     (if state_of c = WAITING_FOR_PICKUP_START then PUBLISHING_INITIAL_POSE else state_of c)"
  by (simp add: goToPickup_def)

lemma handleMoveCommand_inv:
  assumes "ctrl_inv c"
  obtains ok c' where "handleMoveCommand now c = Inr (ok, c')" "ctrl_inv c'"
    "state_of c' = (case state_of c of WAITING_FOR_PICKUP_START \<Rightarrow> PUBLISHING_INITIAL_POSE
                    | WAITING_FOR_MOVE \<Rightarrow> ENGAGING | s \<Rightarrow> s)"
proof -
  consider (pickup) "state_of c = WAITING_FOR_PICKUP_START" | (move) "state_of c = WAITING_FOR_MOVE"
    | (other) "state_of c \<noteq> WAITING_FOR_PICKUP_START" "state_of c \<noteq> WAITING_FOR_MOVE" by blast
  then show thesis
  proof cases
    case pickup
    with that [of "fst (goToPickup now c)" "snd (goToPickup now c)"] goToPickup_inv [OF assms, of now]
    show thesis by (simp add: handleMoveCommand_def goToPickup_state)
  next
    case move
    with move_inv [OF assms, of now] that show thesis
      by (smt (verit) handleMoveCommand_def trip_state.distinct trip_state.simps)
  next
    case other
    with that [of False c] assms show thesis
      by (cases "state_of c") (simp_all add: handleMoveCommand_def)
  qed
qed

lemma cancel_idle: "idle_inv (cancel now c)" "tc_map (cancel now c) = tc_map c" "state_of (cancel now c) = IDLE"
  by (auto simp: cancel_def Let_def idle_inv_def publish_defs split: option.splits)

lemma cancel_inv: "map_ok c \<Longrightarrow> ctrl_inv (cancel now c)"
  by (simp add: ctrl_inv_def cancel_idle map_ok_def)

section \<open>The tick\<close>

text \<open>
  The abstract machine: the states each event may lead to from each state.
\<close>

fun successors :: "ctrl_event \<Rightarrow> trip_state \<Rightarrow> trip_state list" where
  "successors (EvQueryEta _ _ _ _) s = (if s = IDLE then [IDLE, QUERY_PUBLISHING_INITIAL_POSE] else [s])"
| "successors EvStartTrip s = (if s = ROUTES_READY then [WAITING_FOR_PICKUP_START] else [s])"
| "successors EvMoveCommand s =
     (case s of WAITING_FOR_PICKUP_START \<Rightarrow> [PUBLISHING_INITIAL_POSE]
      | WAITING_FOR_MOVE \<Rightarrow> [ENGAGING] | _ \<Rightarrow> [s])"
| "successors EvGoToPickup s = (if s = WAITING_FOR_PICKUP_START then [PUBLISHING_INITIAL_POSE] else [s])"
| "successors EvMove s = (if s = WAITING_FOR_MOVE then [ENGAGING] else [s])"
| "successors EvCancel s = [IDLE]"
| "successors (EvTick _ _) s =
     (case s of
        INITIALIZING_IN_MAP \<Rightarrow> [INITIALIZING_IN_MAP, IDLE]
      | QUERY_PUBLISHING_INITIAL_POSE \<Rightarrow> [QUERY_WAITING_LOCALISATION]
      | QUERY_WAITING_LOCALISATION \<Rightarrow> [QUERY_WAITING_LOCALISATION, QUERY_PUBLISHING_GOAL, IDLE]
      | QUERY_PUBLISHING_GOAL \<Rightarrow> [QUERY_WAITING_ROUTE]
      | QUERY_WAITING_ROUTE \<Rightarrow> [QUERY_WAITING_ROUTE, QUERY_READING_ETA, IDLE]
      | QUERY_READING_ETA \<Rightarrow> [QUERY_READING_ETA, QUERY_PUBLISHING_INITIAL_POSE, ROUTES_READY, IDLE]
      | PUBLISHING_INITIAL_POSE \<Rightarrow> [WAITING_LOCALISATION]
      | WAITING_LOCALISATION \<Rightarrow> [WAITING_LOCALISATION, ENGAGING]
      | DRIVING_TO_PICKUP \<Rightarrow> [DRIVING_TO_PICKUP, WAITING_FOR_MOVE]
      | RUNNING \<Rightarrow> [RUNNING, COMPLETED]
      | _ \<Rightarrow> [s])"
| "successors (EvEngageResponse code) s =
     (if s = ENGAGING \<and> code = 1 then [DRIVING_TO_PICKUP, RUNNING] else [s])"
| "successors (EvLocState _) s = [s]"
| "successors (EvRouteState _) s = [s]"
| "successors (EvModeState _) s = [s]"
| "successors (EvRoute _) s = [s]"
| "successors (EvEta _ _) s = [s]"
| "successors (EvModeResponse _) s = [s]"

definition steps_to :: "ctrl_event \<Rightarrow> trip_controller \<Rightarrow> exn + trip_controller \<Rightarrow> bool" where
  "steps_to e c res \<longleftrightarrow>
     (\<exists>c'. res = Inr c' \<and> ctrl_inv c' \<and> state_of c' \<in> set (successors e (state_of c)))"

lemma steps_to_same:
  assumes "ctrl_inv c" "core c' = core c" "state_of c' = state_of c" "state_of c \<in> set (successors e (state_of c))"
  shows "steps_to e c (Inr c')"
  unfolding steps_to_def using assms core_eq_inv [of c' c] by simp

lemma steps_to_phase:
  assumes "ctrl_inv c" "core c' = core c" "state_of c' \<in> set (successors e (state_of c))"
    "phase_of (state_of c') = phase_of (state_of c)"
  shows "steps_to e c (Inr c')"
  unfolding steps_to_def using assms core_eq_inv [of c' c] by simp

lemma steps_to_fail:
  assumes "ctrl_inv c" "core c1 = core c" "IDLE \<in> set (successors e (state_of c))"
  shows "steps_to e c (Inr (failQuery now r c1))"
proof -
  have "map_ok c1" using assms(1,2) by (simp add: ctrl_inv_def map_ok_def core_def)
  then show ?thesis unfolding steps_to_def using assms(3) by (simp add: failQuery_inv)
qed

lemma core_flags [simp]:
  "core (c\<lparr>route_received := b\<rparr>) = core c" "core (c\<lparr>current_route_state := r\<rparr>) = core c"
  "core (c\<lparr>eta_received := b\<rparr>) = core c" "core (c\<lparr>current_loc_state := l\<rparr>) = core c"
  "core (c\<lparr>current_mode_state := ms\<rparr>) = core c" "core (c\<lparr>eta_distance_m := d\<rparr>) = core c"
  "core (c\<lparr>eta_seconds := d\<rparr>) = core c" "core (c\<lparr>last_route := lr\<rparr>) = core c"
  by (simp_all add: core_def)

lemma timings_publish [simp]:
  "timings (publish_init c) = timings c" "timings (publish_start c) = timings c"
  "timings (publish_goal c) = timings c"
  by (simp_all add: publish_defs)

lemma tick_query_localisation_ok:
  assumes "ctrl_inv c" "state_of c = QUERY_WAITING_LOCALISATION"
  shows "steps_to (EvTick svc tf) c (Inr (tick_query_localisation now c))"
  unfolding tick_query_localisation_def Let_def
  using assms(2) by (auto intro!: steps_to_fail [OF assms(1)] steps_to_phase [OF assms(1)])

lemma tick_query_route_ok:
  assumes "ctrl_inv c" "state_of c = QUERY_WAITING_ROUTE"
  shows "steps_to (EvTick svc tf) c (Inr (tick_query_route now c))"
  unfolding tick_query_route_def Let_def
  using assms(2) by (auto intro!: steps_to_fail [OF assms(1)] steps_to_phase [OF assms(1)])

lemma tick_query_eta_ok:
  assumes inv: "ctrl_inv c" and s: "state_of c = QUERY_READING_ETA"
  shows "steps_to (EvTick svc tf) c (tick_query_eta now c)"
proof -
  have fin: "steps_to (EvTick svc tf) c (finishQueryLeg now c1)" if "core c1 = core c" "state_of c1 = state_of c" for c1
  proof -
    have "ctrl_inv c1" using inv that core_eq_inv [of c1 c] by simp
    then have "map_ok c1" "leg_inv c1" using s that(2) by (simp_all add: ctrl_inv_def)
    with s show ?thesis
      unfolding steps_to_def by (elim finishQueryLeg_inv [where now = now]) auto
  qed
  show ?thesis
    unfolding tick_query_eta_def using s by (auto intro!: fin steps_to_same [OF inv])
qed

lemma tick_ok:
  assumes "ctrl_inv c"
  shows "steps_to (EvTick svc tf) c (tick svc now c)"
proof (cases "state_of c")
  case INITIALIZING_IN_MAP
  then show ?thesis
    by (auto simp: tick_def tick_initializing_def intro!: steps_to_phase [OF assms])
next
  case QUERY_WAITING_LOCALISATION
  then show ?thesis by (simp add: tick_def tick_query_localisation_ok [OF assms])
next
  case QUERY_WAITING_ROUTE
  then show ?thesis by (simp add: tick_def tick_query_route_ok [OF assms])
next
  case QUERY_READING_ETA
  then show ?thesis by (simp add: tick_def tick_query_eta_ok [OF assms])
next
  case WAITING_LOCALISATION
  then show ?thesis
    by (auto simp: tick_def tick_localisation_def intro!: steps_to_phase [OF assms])
next
  case DRIVING_TO_PICKUP
  then show ?thesis
    by (auto simp: tick_def tick_driving_to_pickup_def Let_def intro!: steps_to_phase [OF assms])
next
  case RUNNING
  then show ?thesis
    by (auto simp: tick_def tick_running_def Let_def intro!: steps_to_phase [OF assms])
qed (auto simp: tick_def intro!: steps_to_phase [OF assms])

section \<open>Every event\<close>

lemma onTick_ok:
  assumes "ctrl_inv c"
  shows "steps_to (EvTick svc tf) c (onTick svc tf now c)"
proof -
  let ?c = "case getCurrentVehiclePose tf c of None \<Rightarrow> c | Some g \<Rightarrow> setCurrentGps g c"
  have c: "core ?c = core c" "state_of ?c = state_of c" by (simp_all split: option.splits)
  then have "ctrl_inv ?c" using assms core_eq_inv [of ?c c] by simp
  from tick_ok [OF this] c(2) show ?thesis by (simp add: onTick_def steps_to_def)
qed

lemma onEngageResponse_ok:
  "ctrl_inv c \<Longrightarrow> steps_to (EvEngageResponse code) c (Inr (onEngageResponse now code c))"
  by (auto simp: onEngageResponse_def intro!: steps_to_phase)

lemma steps_to_Inr: "ctrl_inv c' \<Longrightarrow> state_of c' \<in> set (successors e (state_of c)) \<Longrightarrow> steps_to e c (Inr c')"
  by (simp add: steps_to_def)

lemma injectEta_frame [simp]: "core (injectEta d t c) = core c" "state_of (injectEta d t c) = state_of c"
  by (simp_all add: injectEta_def core_def)

lemma ctrl_step_ok:
  assumes "ctrl_inv c"
  shows "steps_to e c (ctrl_step (now, e) c)"
proof (cases e)
  case (EvQueryEta s g cb tf)
  show ?thesis
    unfolding EvQueryEta by (rule queryEta_inv [OF assms, of now tf s g cb]) (auto simp: steps_to_def)
next
  case EvStartTrip
  show ?thesis
    unfolding EvStartTrip by (rule startTrip_inv [OF assms, of now]) (auto simp: steps_to_def)
next
  case EvMoveCommand
  show ?thesis
    unfolding EvMoveCommand
    by (rule handleMoveCommand_inv [OF assms, of now]) (auto simp: steps_to_def split: trip_state.splits)
next
  case EvGoToPickup
  then show ?thesis
    using goToPickup_inv [OF assms, of now] by (auto simp: steps_to_def goToPickup_state)
next
  case EvMove
  show ?thesis
    unfolding EvMove by (rule move_inv [OF assms, of now]) (auto simp: steps_to_def)
next
  case EvCancel
  have "map_ok c" using assms by (simp add: ctrl_inv_def)
  with EvCancel show ?thesis by (simp add: steps_to_def cancel_inv cancel_idle)
next
  case (EvTick svc tf)
  then show ?thesis using onTick_ok [OF assms] by simp
next
  case (EvEngageResponse code)
  then show ?thesis using onEngageResponse_ok [OF assms] by simp
next
  case (EvRoute r)
  then show ?thesis by (auto simp: onRouteReceived_def core_def intro!: steps_to_same [OF assms])
next
  case (EvModeResponse ok)
  then show ?thesis by (auto simp: onModeResponse_def intro!: steps_to_same [OF assms])
qed (auto intro!: steps_to_same [OF assms])

lemma booted_state:
  "state_of (booted m tm now) = (if default_start m = None then IDLE else INITIALIZING_IN_MAP)"
  "idle_inv (booted m tm now)" "tc_map (booted m tm now) = m"
  "on_state_change (booted m tm now)" "on_pickup_arrived (booted m tm now)" "on_dropoff_arrived (booted m tm now)"
  "timings (booted m tm now) = tm"
  by (auto simp: booted_def initializeInMap_def new_TripController_def setArrivalCallbacks_def
      setStateChangeCallback_def getDefaultStart_def idle_inv_def publish_defs split: option.splits)

lemma ctrl_init_inv: "ctrl_init c \<Longrightarrow> ctrl_inv c"
  by (auto simp: ctrl_init_def ctrl_inv_def map_ok_def booted_state)

interpretation ctrl: strand_machine ctrl_step ctrl_init ctrl_inv
proof unfold_locales
  show "\<exists>s'. ctrl_step e s = Inr s' \<and> ctrl_inv s'" if "ctrl_inv s" for s e
    using ctrl_step_ok [OF that, of "snd e" "fst e"] by (auto simp: steps_to_def)
qed (rule ctrl_init_inv)

lemma ctrl_step_edge:
  "ctrl_inv c \<Longrightarrow> ctrl_step (now, e) c = Inr c' \<Longrightarrow> state_of c' \<in> set (successors e (state_of c))"
  using ctrl_step_ok [of c e now] by (simp add: steps_to_def)

end
