(* ===== verification/DemoMap.thy ===== *)
theory DemoMap
  imports TripInvariant
begin

text \<open>
  A small concrete map: two consecutive lanes and a crosswalk, a projector that is linear
  inside its grid square and clamps outside, and the routing graph of the two lanes. It shows
  that \<open>wf_map\<close> can hold, and it is where the properties are applied to concrete inputs.
\<close>

definition pt :: "real \<Rightarrow> real \<Rightarrow> local_coord" where
  "pt x y = \<lparr>pos_x = x, pos_y = y, pos_z = 0\<rparr>"

definition lane_a :: lanelet where
  "lane_a = \<lparr>ll_id = 1, ll_subtype = Some ''road'', ll_centerline = [pt 0 0, pt 10 0, pt 20 0]\<rparr>"

definition lane_b :: lanelet where
  "lane_b = \<lparr>ll_id = 2, ll_subtype = None, ll_centerline = [pt 20 0, pt 30 0, pt 40 0]\<rparr>"

definition walk_c :: lanelet where
  "walk_c = \<lparr>ll_id = 3, ll_subtype = Some ''crosswalk'', ll_centerline = [pt 10 0, pt 10 5]\<rparr>"

definition demo_projector :: projector where
  "demo_projector =
     \<lparr>proj_forward = (\<lambda>g. pt (std_clamp ((longitude g - 139) * 1000) 0 1000)
                              (std_clamp ((latitude g - 35) * 1000) 0 1000)),
      proj_reverse = (\<lambda>l. \<lparr>latitude = 35 + pos_y l / 1000, longitude = 139 + pos_x l / 1000\<rparr>)\<rparr>"

definition demo_graph :: routing_graph where
  "demo_graph =
     \<lparr>reachable_set = (\<lambda>ll r. if ll_id ll = 1 then [lane_a, lane_b] else if ll_id ll = 2 then [lane_b] else []),
      following = (\<lambda>ll. if ll_id ll = 1 then [lane_b] else []),
      previous = (\<lambda>ll. if ll_id ll = 2 then [lane_a] else []),
      left_of = (\<lambda>ll. None), right_of = (\<lambda>ll. None)\<rparr>"

definition demo_start :: fixed_start where
  "demo_start = \<lparr>fs_name = ''depot'', fs_gps = \<lparr>latitude = 35, longitude = 139\<rparr>, fs_local = pt 0 0,
                 fs_orientation = default_orientation\<rparr>"

definition demo_map :: lanelet_map where
  "demo_map =
     \<lparr>offset_x = 0, offset_y = 0, invalid_id = 0, the_graph = Some demo_graph,
      the_map = Some [walk_c, lane_a, lane_b], the_projector = demo_projector, cache = [],
      default_start = Some demo_start\<rparr>"

text \<open>The point of the lanes' axis \<open>x\<close> metres along, as a GPS coordinate.\<close>

definition axis_gps :: "real \<Rightarrow> gps_coord" where
  "axis_gps x = \<lparr>latitude = 35, longitude = 139 + x / 1000\<rparr>"

lemma pt_simps [simp]: "pos_x (pt x y) = x" "pos_y (pt x y) = y" "pos_z (pt x y) = 0"
  by (simp_all add: pt_def)

lemma demo_lane_simps [simp]:
  "ll_id lane_a = 1" "ll_id lane_b = 2" "ll_id walk_c = 3"
  "ll_centerline lane_a = [pt 0 0, pt 10 0, pt 20 0]" "ll_centerline lane_b = [pt 20 0, pt 30 0, pt 40 0]"
  "ll_centerline walk_c = [pt 10 0, pt 10 5]"
  "drivable lane_a" "drivable lane_b" "\<not> drivable walk_c"
  by (simp_all add: lane_a_def lane_b_def walk_c_def drivable_def excluded_subtype_def)

lemma demo_map_simps [simp]:
  "laneletLayer demo_map = [walk_c, lane_a, lane_b]" "the_map demo_map = Some [walk_c, lane_a, lane_b]"
  "the_graph demo_map = Some demo_graph" "invalid_id demo_map = 0" "offset_x demo_map = 0"
  "offset_y demo_map = 0" "cache demo_map = []" "default_start demo_map = Some demo_start"
  "isLoaded demo_map" "the_projector demo_map = demo_projector"
  by (simp_all add: demo_map_def laneletLayer_def isLoaded_def)

lemma demo_forward: "gpsToLocal demo_map g =
    pt (std_clamp ((longitude g - 139) * 1000) 0 1000) (std_clamp ((latitude g - 35) * 1000) 0 1000)"
  by (simp add: gpsToLocal_def demo_projector_def)

lemma demo_forward_axis: "0 \<le> x \<Longrightarrow> x \<le> 1000 \<Longrightarrow> gpsToLocal demo_map (axis_gps x) = pt x 0"
  by (simp add: demo_forward axis_gps_def std_clamp_def)

lemma small_bounded: "\<bar>x\<bar> \<le> 1000 \<Longrightarrow> \<bar>y\<bar> \<le> 1000 \<Longrightarrow> bounded_point (pt x y)"
proof -
  have "(1000 :: real) \<le> coord_bound" by (simp add: coord_bound_def)
  then show "\<bar>x\<bar> \<le> 1000 \<Longrightarrow> \<bar>y\<bar> \<le> 1000 \<Longrightarrow> bounded_point (pt x y)"
    by (simp add: bounded_point_def)
qed

lemma demo_wf: "wf_map demo_map"
proof -
  have "bounded_point (gpsToLocal demo_map g)" for g
    unfolding demo_forward
    using std_clamp_range [of 0 1000 "(longitude g - 139) * 1000"]
      std_clamp_range [of 0 1000 "(latitude g - 35) * 1000"]
    by (intro small_bounded) auto
  moreover have "wf_lanelet lane_a" "wf_lanelet lane_b" "wf_lanelet walk_c"
    by (simp_all add: wf_lanelet_def small_bounded)
  moreover have "0 \<le> coord_bound" by (simp add: coord_bound_def)
  ultimately show ?thesis
    by (auto simp: wf_map_def demo_graph_def split: if_splits)
qed

lemma demo_cache: "cache_inv demo_map"
  by (simp add: cache_inv_def)

lemma demo_reachable:
  "reachable_set demo_graph lane_a r = [lane_a, lane_b]" "reachable_set demo_graph lane_b r = [lane_b]"
  by (simp_all add: demo_graph_def)

text \<open>Which lanes the map selects on the axis.\<close>

lemma demo_dist:
  "midpoint_dist demo_map (pt x 0) lane_a = \<bar>10 - x\<bar>" "midpoint_dist demo_map (pt x 0) lane_b = \<bar>30 - x\<bar>"
  by (simp_all add: midpoint_dist_def midpoint_def)

lemma below_dbl_max: "\<bar>x\<bar> \<le> 2000 \<Longrightarrow> \<bar>x\<bar> < dbl_max"
proof -
  have "(2000 :: real) < dbl_max" by (simp add: dbl_max_def)
  then show "\<bar>x\<bar> \<le> 2000 \<Longrightarrow> \<bar>x\<bar> < dbl_max" by linarith
qed

lemma demo_scan:
  assumes "0 \<le> x" "x \<le> 1000"
  shows "snd (nearest_scan demo_map (pt x 0) [lane_a, lane_b]) = (if x \<le> 20 then 1 else 2)"
    "snd (nearest_scan demo_map (pt x 0) [walk_c, lane_a, lane_b]) = (if x \<le> 20 then 1 else 2)"
    "snd (nearest_scan demo_map (pt x 0) [lane_b]) = 2"
  using below_dbl_max [of "10 - x"] below_dbl_max [of "30 - x"] assms
  by (auto simp: nearest_scan_def scan_step_def demo_dist Let_def abs_if)

lemma demo_nearest:
  "0 \<le> x \<Longrightarrow> x \<le> 1000 \<Longrightarrow> nearest_id demo_map (axis_gps x) = Some (if x \<le> 20 then 1 else 2)"
  by (simp add: nearest_id_def demo_forward_axis demo_scan valid_id_def)

lemma demo_layer_get: "layer_get demo_map 1 = Inr lane_a" "layer_get demo_map 2 = Inr lane_b"
  by (simp_all add: layer_get_def)

lemma demo_connected:
  assumes "0 \<le> x" "x \<le> 1000"
  shows "connected_id demo_map (axis_gps x) 1 True = Some (if x \<le> 20 then 1 else 2)"
    "connected_id demo_map (axis_gps x) 2 True = Some 2"
  using assms
  by (simp_all add: connected_id_def demo_layer_get connected_candidates_def demo_reachable
      demo_forward_axis demo_scan valid_id_def)

text \<open>The controller booted on it.\<close>

definition demo_ctrl :: trip_controller where
  "demo_ctrl = booted demo_map default_timings 1000000000"

lemma demo_init: "ctrl_init demo_ctrl"
  unfolding ctrl_init_def demo_ctrl_def using demo_wf demo_cache by blast

lemma demo_ctrl_reachable: "ctrl_reachable demo_ctrl"
  by (rule reachable.start) (rule demo_init)

lemma demo_ctrl_inv: "ctrl_inv demo_ctrl"
  by (rule ctrl_init_inv) (rule demo_init)

end
