(* ===== verification/MapProperties.thy ===== *)
theory MapProperties
  imports DemoMap
begin

text \<open>
  The properties of the lanelet map: what the three lookups return, the projection and the
  orientation of a resolved lane, and the cache over any sequence of lookups.
\<close>

section \<open>Abstract specification\<close>

text \<open>
  The lane with identifier \<open>i\<close> is the first of the candidates, in their order, whose midpoint
  is nearest to the target among those that are drivable.
\<close>

definition is_nearest :: "lanelet_map \<Rightarrow> local_coord \<Rightarrow> lanelet list \<Rightarrow> i64 \<Rightarrow> bool" where
  "is_nearest m t lls i \<longleftrightarrow>
     (\<exists>us b vs. lls = us @ b # vs \<and> ll_id b = i \<and> eligible b \<and>
        (\<forall>u \<in> set us. eligible u \<longrightarrow> midpoint_dist m t b < midpoint_dist m t u) \<and>
        (\<forall>v \<in> set vs. eligible v \<longrightarrow> midpoint_dist m t b \<le> midpoint_dist m t v))"

definition correct_choice :: "lanelet_map \<Rightarrow> local_coord \<Rightarrow> lanelet list \<Rightarrow> i64 option \<Rightarrow> bool" where
  "correct_choice m t lls res \<longleftrightarrow>
     (case res of None \<Rightarrow> \<forall>ll \<in> set lls. \<not> eligible ll | Some i \<Rightarrow> is_nearest m t lls i)"

lemma layer_id_valid: "wf_map m \<Longrightarrow> ll \<in> set (laneletLayer m) \<Longrightarrow> ll_id ll \<noteq> invalid_id m"
  by (metis image_eqI lane_ids_def wf_map_invalid)

lemma scan_choice:
  assumes "wf_map m" "set lls \<subseteq> set (laneletLayer m)" "bounded_point t"
  shows "correct_choice m t lls (valid_id m (snd (nearest_scan m t lls)))"
proof (rule nearest_scan_cases [of m t lls])
  assume none: "snd (nearest_scan m t lls) = invalid_id m"
  have "\<not> eligible ll" if ll: "ll \<in> set lls" for ll
  proof
    assume "eligible ll"
    moreover have "midpoint_dist m t ll < dbl_max"
      using assms ll by (auto intro: midpoint_dist_bound)
    ultimately obtain b where "b \<in> set lls" "snd (nearest_scan m t lls) = ll_id b"
      using nearest_scan_best [OF ll] by blast
    with none assms(2) layer_id_valid [OF assms(1), of b] show False by auto
  qed
  with none show ?thesis by (simp add: correct_choice_def valid_id_def)
next
  fix us b vs
  assume b: "lls = us @ b # vs" "eligible b" "snd (nearest_scan m t lls) = ll_id b"
    "\<forall>u \<in> set us. eligible u \<longrightarrow> midpoint_dist m t b < midpoint_dist m t u"
    "\<forall>v \<in> set vs. eligible v \<longrightarrow> midpoint_dist m t b \<le> midpoint_dist m t v"
  then have "ll_id b \<noteq> invalid_id m"
    using assms(2) layer_id_valid [OF assms(1), of b] by auto
  moreover have "is_nearest m t lls (ll_id b)"
    unfolding is_nearest_def using b by blast
  ultimately show ?thesis using b(3) by (simp add: correct_choice_def valid_id_def)
qed

lemma wf_map_gps: "wf_map m \<Longrightarrow> bounded_point (gpsToLocal m g)"
  by (simp add: wf_map_def)

section \<open>The lookups\<close>

text \<open>
  C11. \<open>findNearestLane\<close> always returns on a well-formed map. It returns the lane of the first
  drivable lanelet whose midpoint is nearest to the projected position, null only when the
  map has no drivable lanelet, and it changes the map only by extending the cache.
\<close>

theorem findNearestLane_correct:
  assumes "wf_map m" "cache_inv m"
  shows "\<exists>r m'. findNearestLane m g = Inr (r, m') \<and> cache_extends m m' \<and>
    correct_choice m (gpsToLocal m g) (laneletLayer m) (map_option lane_id r)"
proof -
  obtain r m' where l: "findNearestLane m g = Inr (r, m')" "cache_extends m m'"
    "map_option lane_id r = nearest_id m g"
    using nearest.lookup_total [OF assms TrueI] by metis
  have "correct_choice m (gpsToLocal m g) (laneletLayer m) (nearest_id m g)"
    unfolding nearest_id_def using assms by (simp add: scan_choice wf_map_gps)
  with l show ?thesis by auto
qed

theorem findNearestLane_correct_witness:
  "\<exists>r m'. findNearestLane demo_map (axis_gps 5) = Inr (r, m') \<and> cache_extends demo_map m' \<and>
    correct_choice demo_map (gpsToLocal demo_map (axis_gps 5)) (laneletLayer demo_map) (map_option lane_id r)"
  by (rule findNearestLane_correct [OF demo_wf demo_cache])

text \<open>
  C12. \<open>findNearestConnectedLane\<close> makes the same choice among the lanes the routing graph
  reaches from the reference lane (or from which it reaches the reference lane); a reference
  lane that is not in the map is a \<open>NoSuchPrimitive\<close> error.
\<close>

theorem findNearestConnectedLane_correct:
  assumes "wf_map m" "cache_inv m" "the_graph m = Some rg"
  shows "case layer_get m ref of
      Inl e \<Rightarrow> findNearestConnectedLane m g ref f = Inl e \<and> e = NoSuchPrimitive \<and> ref \<notin> lane_ids m
    | Inr ll \<Rightarrow> \<exists>r m'. findNearestConnectedLane m g ref f = Inr (r, m') \<and> cache_extends m m' \<and>
        correct_choice m (gpsToLocal m g) (connected_candidates m rg ll ref f) (map_option lane_id r)"
proof (cases "ref \<in> lane_ids m")
  case False
  then have "find (\<lambda>ll. ll_id ll = ref) (laneletLayer m) = None"
    by (auto simp: lane_ids_def find_None_iff)
  then have "layer_get m ref = Inl NoSuchPrimitive"
    using assms(1) by (simp add: layer_get_def wf_map_layer)
  with False assms show ?thesis by (simp add: findNearestConnectedLane_def)
next
  case True
  then obtain ll where ll: "layer_get m ref = Inr ll" using assms(1) by (metis lane_idsE layer_get_in)
  obtain r m' where l: "findNearestConnectedLane m g ref f = Inr (r, m')" "cache_extends m m'"
    "map_option lane_id r = connected_id m g ref f"
    using connected.lookup_total [OF assms(1,2) True] by metis
  have "correct_choice m (gpsToLocal m g) (connected_candidates m rg ll ref f) (connected_id m g ref f)"
    using ll assms by (simp add: connected_id_def scan_choice wf_map_gps candidates_in_layer)
  with l ll show ?thesis by auto
qed

theorem findNearestConnectedLane_correct_witness:
  "case layer_get demo_map 1 of
      Inl e \<Rightarrow> findNearestConnectedLane demo_map (axis_gps 30) 1 True = Inl e \<and> e = NoSuchPrimitive \<and>
        1 \<notin> lane_ids demo_map
    | Inr ll \<Rightarrow> \<exists>r m'. findNearestConnectedLane demo_map (axis_gps 30) 1 True = Inr (r, m') \<and>
        cache_extends demo_map m' \<and>
        correct_choice demo_map (gpsToLocal demo_map (axis_gps 30))
          (connected_candidates demo_map demo_graph ll 1 True) (map_option lane_id r)"
  by (rule findNearestConnectedLane_correct [OF demo_wf demo_cache]) simp

definition on_centerline :: "local_coord list \<Rightarrow> local_coord \<Rightarrow> bool" where
  "on_centerline ps p \<longleftrightarrow> (\<exists>(a, b) \<in> set (segments ps). \<exists>t. 0 \<le> t \<and> t \<le> 1 \<and> p = point_at a b t)"

lemma on_centerlineI: "(a, b) \<in> set (segments ps) \<Longrightarrow> 0 \<le> t \<Longrightarrow> t \<le> 1 \<Longrightarrow> on_centerline ps (point_at a b t)"
  unfolding on_centerline_def by blast



text \<open>
  \<open>getLaneById\<close> finds exactly the lanes of the map: a null pointer for an unknown
  identifier, and otherwise a description carrying the identifier asked for.
\<close>

theorem getLaneById_correct:
  assumes "wf_map m" "cache_inv m"
  shows "\<exists>r m'. getLaneById m i = Inr (r, m') \<and> cache_extends m m' \<and>
    (case r of None \<Rightarrow> i \<notin> lane_ids m \<and> m' = m | Some info \<Rightarrow> i \<in> lane_ids m \<and> lane_id info = i)"
proof -
  obtain r m' where l: "getLaneById m i = Inr (r, m')" "cache_extends m m'"
    "map_option lane_id r = known_id m i"
    using by_id.lookup_total [OF assms TrueI] by metis
  show ?thesis
  proof (cases r)
    case None
    with l have i: "i \<notin> lane_ids m" by (auto simp: known_id_def split: if_splits)
    have "m' = m"
      using l(1) None by (auto simp: getLaneById_def emplace_lane_def split: option.splits sum.splits if_splits)
    with None l i show ?thesis by simp
  next
    case (Some info)
    with l show ?thesis by (auto simp: known_id_def split: if_splits)
  qed
qed

theorem getLaneById_correct_witness:
  "\<exists>r m'. getLaneById demo_map 2 = Inr (r, m') \<and> cache_extends demo_map m' \<and>
    (case r of None \<Rightarrow> 2 \<notin> lane_ids demo_map \<and> m' = demo_map
     | Some info \<Rightarrow> 2 \<in> lane_ids demo_map \<and> lane_id info = 2)"
  by (rule getLaneById_correct [OF demo_wf demo_cache])

section \<open>The cache over a sequence of lookups\<close>

datatype lookup_op =
    Nearest gps_coord
  | ById i64
  | Connected gps_coord i64 bool

fun lookup_step :: "lookup_op \<Rightarrow> lanelet_map \<Rightarrow> exn + lanelet_map" where
  "lookup_step (Nearest g) m = map_sum id snd (findNearestLane m g)"
| "lookup_step (ById i) m = map_sum id snd (getLaneById m i)"
| "lookup_step (Connected g ref f) m = map_sum id snd (findNearestConnectedLane m g ref f)"

fun known_ref :: "lanelet_map \<Rightarrow> lookup_op \<Rightarrow> bool" where
  "known_ref m (Connected g ref f) \<longleftrightarrow> ref \<in> lane_ids m"
| "known_ref m _ \<longleftrightarrow> True"

lemma lookup_step_extends:
  assumes "wf_map m" "cache_inv m" "known_ref m op"
  obtains m' where "lookup_step op m = Inr m'" "cache_extends m m'"
proof (cases op)
  case (Nearest g)
  with that nearest.lookup_total [OF assms(1,2) TrueI, of g] show thesis by (metis lookup_step.simps(1) map_sum.simps(2) snd_conv)
next
  case (ById i)
  with that by_id.lookup_total [OF assms(1,2) TrueI, of i] show thesis by (metis lookup_step.simps(2) map_sum.simps(2) snd_conv)
next
  case (Connected g ref f)
  with that connected.lookup_total [OF assms(1,2), of ref g f] assms(3) show thesis
    by (metis known_ref.simps(1) lookup_step.simps(3) map_sum.simps(2) snd_conv)
qed

lemma known_ref_extends: "cache_extends m m' \<Longrightarrow> known_ref m' op = known_ref m op"
  by (cases op) (simp_all add: cache_extends_static)



text \<open>
  The first query to resolve a lane fixes its description: when two positions have the
  same nearest lane, the second query returns the projection of the first position, not of
  its own, and leaves the map as it is.
\<close>

theorem second_query_gets_first_projection:
  assumes "wf_map m" "cache_inv m" "nearest_id m g1 = Some i" "nearest_id m g2 = Some i"
    "cache_find m i = None"
  shows "\<exists>info m1. findNearestLane m g1 = Inr (Some info, m1) \<and>
    projectOntoLaneCenterline m g1 i = Inr (lane_local info) \<and>
    findNearestLane m1 g2 = Inr (Some info, m1)"
proof -
  have scan: "snd (nearest_scan m (gpsToLocal m g1) (laneletLayer m)) = i" "i \<noteq> invalid_id m"
    using assms(3) by (auto simp: nearest_id_def valid_id_def split: if_splits)
  have loaded: "isLoaded m" using assms(1) by simp
  obtain r m1 where l: "findNearestLane m g1 = Inr (r, m1)" "cache_extends m m1"
    "map_option lane_id r = Some i" "\<And>info. r = Some info \<Longrightarrow> cache_find m1 (lane_id info) = Some info"
    using nearest.lookup_total [OF assms(1,2) TrueI, of g1] assms(3) by metis
  then obtain info where info: "r = Some info" "lane_id info = i" "cache_find m1 i = Some info" by auto
  have "projectOntoLaneCenterline m g1 i = Inr (lane_local info)"
    using l(1) info(1) loaded scan assms(5)
    by (auto simp: findNearestLane_def resolve_best_def emplace_lane_def makeLaneInfo_def Let_def
        layer_get_def split: sum.splits option.splits prod.splits dest!: find_SomeD)
  moreover have "findNearestLane m1 g2 = Inr (Some info, m1)"
  proof -
    have "nearest_id m1 g2 = Some i" using l(2) assms(4) by (simp add: nearest.selects_extends)
    then have "snd (nearest_scan m1 (gpsToLocal m1 g2) (laneletLayer m1)) = i" "i \<noteq> invalid_id m1"
      by (auto simp: nearest_id_def valid_id_def split: if_splits)
    with info(3) l(2) loaded show ?thesis
      by (simp add: findNearestLane_def resolve_best_def cache_extends_static)
  qed
  ultimately show ?thesis using l(1) info(1) by blast
qed

theorem second_query_gets_first_projection_witness:
  "\<exists>info m1. findNearestLane demo_map (axis_gps 5) = Inr (Some info, m1) \<and>
    projectOntoLaneCenterline demo_map (axis_gps 5) 1 = Inr (lane_local info) \<and>
    findNearestLane m1 (axis_gps 15) = Inr (Some info, m1)"
  by (rule second_query_gets_first_projection [OF demo_wf demo_cache])
     (simp_all add: demo_nearest cache_find_def)

section \<open>Orientation, default start and offsets\<close>

definition lane_vector :: "lanelet \<Rightarrow> real \<times> real" where
  "lane_vector ll = (pos_x (last (ll_centerline ll)) - pos_x (hd (ll_centerline ll)),
                     pos_y (last (ll_centerline ll)) - pos_y (hd (ll_centerline ll)))"

lemma double_angle: "cos a = (cos (a / 2))\<^sup>2 - (sin (a / 2))\<^sup>2" "sin a = 2 * sin (a / 2) * cos (a / 2)" for a :: real
  using cos_double [of "a / 2"] sin_double [of "a / 2"] by simp_all

text \<open>
  The orientation of a resolved lane is a unit quaternion about the vertical axis, and the
  rotation it stands for turns the \<open>x\<close> axis into the direction from the first to the last
  point of the centre line.
\<close>

theorem makeLaneInfo_orientation:
  assumes "wf_map m" "ll \<in> set (laneletLayer m)" "lane_vector ll = (dx, dy)" "(dx, dy) \<noteq> (0, 0)"
  shows "\<exists>info. makeLaneInfo m ll g = Inr info \<and>
    (let q = lane_orientation info; len = sqrt (dx\<^sup>2 + dy\<^sup>2) in
       ori_x q = 0 \<and> ori_y q = 0 \<and> (ori_z q)\<^sup>2 + (ori_w q)\<^sup>2 = 1 \<and>
       ((ori_w q)\<^sup>2 - (ori_z q)\<^sup>2) * len = dx \<and> 2 * ori_z q * ori_w q * len = dy)"
proof -
  obtain info where info: "makeLaneInfo m ll g = Inr info" using makeLaneInfo_total [OF assms(1,2)] by metis
  have "2 \<le> length (ll_centerline ll)" using wf_map_lanelet [OF assms(1,2)] by (simp add: wf_lanelet_def)
  then have yaw: "laneletYaw ll = atan2 dy dx"
    using assms(3) by (simp add: laneletYaw_def lane_vector_def Let_def)
  let ?a = "atan2 dy dx"
  have q: "ori_x (lane_orientation info) = 0" "ori_y (lane_orientation info) = 0"
    "ori_z (lane_orientation info) = sin (?a / 2)" "ori_w (lane_orientation info) = cos (?a / 2)"
    using info by (auto simp: makeLaneInfo_def Let_def yawToQuat_def yaw split: sum.splits)
  have "cos ?a * sqrt (dx\<^sup>2 + dy\<^sup>2) = dx" "sin ?a * sqrt (dx\<^sup>2 + dy\<^sup>2) = dy"
    using atan2_polar [of dx dy] assms(4) by auto
  with info show ?thesis
    unfolding double_angle [of ?a] by (auto simp: Let_def q)
qed

theorem makeLaneInfo_orientation_witness:
  "\<exists>info. makeLaneInfo demo_map lane_a (axis_gps 5) = Inr info \<and>
    (let q = lane_orientation info; len = sqrt (20\<^sup>2 + 0\<^sup>2) in
       ori_x q = 0 \<and> ori_y q = 0 \<and> (ori_z q)\<^sup>2 + (ori_w q)\<^sup>2 = 1 \<and>
       ((ori_w q)\<^sup>2 - (ori_z q)\<^sup>2) * len = 20 \<and> 2 * ori_z q * ori_w q * len = 0)"
  by (rule makeLaneInfo_orientation [OF demo_wf]) (simp_all add: lane_vector_def)

text \<open>
  \<open>setDefaultStart\<close> always installs a start with the name and position given. On a map
  with a drivable lane its pose is the one the lane resolves to; otherwise it is the raw
  projection with the zero quaternion, which is no orientation.
\<close>

theorem setDefaultStart_correct:
  assumes "wf_map m" "cache_inv m"
  shows "\<exists>m' fs. setDefaultStart m name g = Inr m' \<and> getDefaultStart m' = Some fs \<and>
    wf_map m' \<and> cache_inv m' \<and> fs_name fs = name \<and> fs_gps fs = g \<and>
    (case nearest_id m g of
       None \<Rightarrow> fs_local fs = gpsToLocal m g \<and> fs_orientation fs = default_orientation
     | Some i \<Rightarrow> \<exists>info. cache_find m' i = Some info \<and> fs_local fs = lane_local info \<and>
         fs_orientation fs = lane_orientation info)"
proof -
  obtain r m1 where l: "findNearestLane m g = Inr (r, m1)" "cache_extends m m1"
    "map_option lane_id r = nearest_id m g" "\<And>info. r = Some info \<Longrightarrow> cache_find m1 (lane_id info) = Some info"
    using nearest.lookup_total [OF assms TrueI, of g] by metis
  have start: "wf_map (m1\<lparr>default_start := d\<rparr>) = wf_map m1" "cache_inv (m1\<lparr>default_start := d\<rparr>) = cache_inv m1"
    "cache_find (m1\<lparr>default_start := d\<rparr>) i = cache_find m1 i" for d i
    by (simp_all add: wf_map_def cache_inv_def cache_find_def laneletLayer_def gpsToLocal_def lane_ids_def)
  have m1: "wf_map m1" "cache_inv m1" using l(2) assms by (simp_all add: cache_extends_static cache_extends_inv)
  show ?thesis
  proof (cases r)
    case None
    with l m1 show ?thesis
      by (auto simp: setDefaultStart_def getDefaultStart_def start cache_extends_static)
  next
    case (Some info)
    have "nearest_id m g = Some (lane_id info)" using l(3) Some by simp
    with Some l m1 show ?thesis
      by (auto simp: setDefaultStart_def getDefaultStart_def start)
  qed
qed

theorem setDefaultStart_correct_witness:
  "\<exists>m' fs. setDefaultStart demo_map ''stand'' (axis_gps 30) = Inr m' \<and> getDefaultStart m' = Some fs \<and>
    wf_map m' \<and> cache_inv m' \<and> fs_name fs = ''stand'' \<and> fs_gps fs = axis_gps 30 \<and>
    (case nearest_id demo_map (axis_gps 30) of
       None \<Rightarrow> fs_local fs = gpsToLocal demo_map (axis_gps 30) \<and> fs_orientation fs = default_orientation
     | Some i \<Rightarrow> \<exists>info. cache_find m' i = Some info \<and> fs_local fs = lane_local info \<and>
         fs_orientation fs = lane_orientation info)"
  by (rule setDefaultStart_correct [OF demo_wf demo_cache])

text \<open>
  C39. A configured local offset shifts the lanes in the scan but not the position it compares
  them with: the choice is the one an unshifted map makes for the position moved back by the
  offset.
\<close>

theorem offset_moves_the_target:
  assumes "offset_x m = ox" "offset_y m = oy"
  shows "snd (nearest_scan m t lls) =
    snd (nearest_scan (m\<lparr>offset_x := 0, offset_y := 0\<rparr>)
           (t\<lparr>pos_x := pos_x t - ox, pos_y := pos_y t - oy\<rparr>) lls)"
proof -
  let ?m = "m\<lparr>offset_x := 0, offset_y := 0\<rparr>"
  let ?t = "t\<lparr>pos_x := pos_x t - ox, pos_y := pos_y t - oy\<rparr>"
  have "midpoint_dist m t ll = midpoint_dist ?m ?t ll" for ll
    using assms by (simp add: midpoint_dist_def Let_def algebra_simps)
  then have "scan_step m t = scan_step ?m ?t"
    by (intro ext) (simp add: scan_step_def)
  then show ?thesis by (simp add: nearest_scan_def)
qed

theorem offset_moves_the_target_witness:
  "snd (nearest_scan (demo_map\<lparr>offset_x := 20\<rparr>) (pt 30 0) [lane_a, lane_b]) = 1 \<and>
   snd (nearest_scan demo_map (pt 30 0) [lane_a, lane_b]) = 2"
proof -
  have "snd (nearest_scan (demo_map\<lparr>offset_x := 20\<rparr>) (pt 30 0) [lane_a, lane_b]) =
    snd (nearest_scan ((demo_map\<lparr>offset_x := 20\<rparr>)\<lparr>offset_x := 0, offset_y := 0\<rparr>)
           ((pt 30 0)\<lparr>pos_x := pos_x (pt 30 0) - 20, pos_y := pos_y (pt 30 0) - 0\<rparr>) [lane_a, lane_b])"
    by (rule offset_moves_the_target) simp_all
  moreover have "demo_map\<lparr>offset_x := 0, offset_y := 0\<rparr> = demo_map"
    by (simp add: demo_map_def)
  moreover have "(pt 30 0)\<lparr>pos_x := 10, pos_y := 0\<rparr> = pt 10 0"
    by (simp add: pt_def)
  ultimately show ?thesis using demo_scan(1) [of 10] demo_scan(1) [of 30] by simp
qed

end
