(* ===== verification/LaneDiagnostics.thy ===== *)
theory LaneDiagnostics
  imports LaneCache "HOL-Library.Multiset"
begin

text \<open>
  The diagnostic operations of \<open>LaneletMap.cc\<close>: \<open>debugRouteConnectivity\<close>,
  \<open>debugConnectedComponents\<close> and \<open>debugFindBestStartingLane\<close>. They change nothing and log
  what they find, so each returns the lines it logs, with the values in them. The shortest path
  of two lanes is a parameter, as is \<open>std::sort\<close>, of which only the standard's promise
  \<open>sorts_down\<close> is known: it does not say how ties are ordered.
\<close>

section \<open>Lines\<close>

datatype diag_line =
    GraphNotBuilt
  | InvalidLaneletIds i64 i64
  | NoRoute i64 i64
  | RouteExists i64 i64 nat
  | Followers i64 "i64 list"
  | Predecessors i64 "i64 list"
  | ReachableWithin i64 nat
  | InReachableSet i64 bool i64
  | ComponentsTotal nat
  | ComponentSize nat nat
  | ComponentMembers string
  | TopHeader
  | TopLine nat i64 nat
  | BottomHeader
  | BottomLine i64 nat

section \<open>Route connectivity\<close>

definition debugRouteConnectivity ::
  "(lanelet \<Rightarrow> lanelet \<Rightarrow> lanelet list option) \<Rightarrow> i64 \<Rightarrow> i64 \<Rightarrow> lanelet_map \<Rightarrow> exn + diag_line list" where
  "debugRouteConnectivity getRoute from_id to_id m =
     (case the_graph m of
        None \<Rightarrow> Inr [GraphNotBuilt]
      | Some g \<Rightarrow>
          (case the_map m of
             None \<Rightarrow> Inl NullPointer
           | Some lls \<Rightarrow>
               (case (find (\<lambda>ll. ll_id ll = from_id) lls, find (\<lambda>ll. ll_id ll = to_id) lls) of
                  (Some from_ll, Some to_ll) \<Rightarrow>
                    (let reachable = reachable_set g from_ll 200
                     in Inr [case getRoute from_ll to_ll of
                               None \<Rightarrow> NoRoute from_id to_id
                             | Some path \<Rightarrow> RouteExists from_id to_id (length path),
                             Followers from_id (map ll_id (following g from_ll)),
                             Predecessors to_id (map ll_id (previous g to_ll)),
                             ReachableWithin from_id (length reachable),
                             InReachableSet to_id (list_ex (\<lambda>ll. ll_id ll = to_id) reachable) from_id])
                | _ \<Rightarrow> Inr [InvalidLaneletIds from_id to_id])))"

section \<open>Connected components\<close>

text \<open>\<open>if (!visited.count(n.id())) { visited.insert(n.id()); to_visit.push(n); }\<close>\<close>

definition visit :: "lanelet \<Rightarrow> i64 set \<times> lanelet list \<Rightarrow> i64 set \<times> lanelet list" where
  "visit n vq =
     (case vq of (visited, to_visit) \<Rightarrow>
        if ll_id n \<in> visited then (visited, to_visit) else (insert (ll_id n) visited, to_visit @ [n]))"

definition visit_opt :: "lanelet option \<Rightarrow> i64 set \<times> lanelet list \<Rightarrow> i64 set \<times> lanelet list" where
  "visit_opt n vq = (case n of None \<Rightarrow> vq | Some ll \<Rightarrow> visit ll vq)"

definition expand :: "routing_graph \<Rightarrow> lanelet \<Rightarrow> i64 set \<times> lanelet list \<Rightarrow> i64 set \<times> lanelet list" where
  "expand g current vq =
     (let vq1 = fold visit (following g current) vq;
          vq2 = fold visit (previous g current) vq1;
          vq3 = visit_opt (left_of g current) vq2
      in visit_opt (right_of g current) vq3)"

text \<open>All the lanes \<open>expand\<close> offers, in its order.\<close>

definition neighbours :: "routing_graph \<Rightarrow> lanelet \<Rightarrow> lanelet list" where
  "neighbours g ll =
     following g ll @ previous g ll @
     (case left_of g ll of None \<Rightarrow> [] | Some l \<Rightarrow> [l]) @ (case right_of g ll of None \<Rightarrow> [] | Some l \<Rightarrow> [l])"

lemma expand_eq: "expand g ll vq = fold visit (neighbours g ll) vq"
  by (simp add: expand_def neighbours_def visit_opt_def Let_def split: option.split)

lemma fold_visit:
  "\<exists>new. fold visit ns (v, q) = (v \<union> ll_id ` set ns, q @ new) \<and> set new \<subseteq> set ns \<and>
     distinct (map ll_id new) \<and> ll_id ` set new = ll_id ` set ns - v"
proof (induction ns arbitrary: v q)
  case (Cons n ns)
  show ?case
  proof (cases "ll_id n \<in> v")
    case True
    with Cons [of v q] show ?thesis by (auto simp: visit_def)
  next
    case False
    obtain new where new: "fold visit ns (insert (ll_id n) v, q @ [n]) = (insert (ll_id n) v \<union> ll_id ` set ns, (q @ [n]) @ new)"
      "set new \<subseteq> set ns" "distinct (map ll_id new)" "ll_id ` set new = ll_id ` set ns - insert (ll_id n) v"
      using Cons [of "insert (ll_id n) v" "q @ [n]"] by (elim exE conjE)
    have "ll_id n \<notin> ll_id ` set new" using new(4) by blast
    then have d: "distinct (map ll_id (n # new))" using new(3) by simp
    have i: "ll_id ` set (n # new) = ll_id ` set (n # ns) - v" using new(4) False by auto
    have "fold visit (n # ns) (v, q) = (v \<union> ll_id ` set (n # ns), q @ (n # new))"
      using new(1) False by (simp add: visit_def)
    with d i new(2) show ?thesis by (intro exI [of _ "n # new"]) force
  qed
qed simp

lemma expand_room:
  "expand g ll (v, q) = (v', q') \<Longrightarrow> card (- v') + length q' = card (- v) + length q"
proof -
  assume e: "expand g ll (v, q) = (v', q')"
  obtain new where new: "fold visit (neighbours g ll) (v, q) = (v \<union> ll_id ` set (neighbours g ll), q @ new)"
    "distinct (map ll_id new)" "ll_id ` set new = ll_id ` set (neighbours g ll) - v"
    using fold_visit [of "neighbours g ll" v q] by (elim exE conjE)
  have v': "v' = v \<union> ll_id ` set new" and q': "q' = q @ new" using e new by (auto simp: expand_eq)
  have "- v = - v' \<union> ll_id ` set new" "- v' \<inter> ll_id ` set new = {}" using new(3) v' by auto
  then have "card (- v) = card (- v') + card (ll_id ` set new)" by (simp add: card_Un_disjoint)
  also have "card (ll_id ` set new) = length new" using distinct_card [OF new(2)] by simp
  finally show ?thesis using q' by simp
qed

text \<open>The while loop. Identifiers have 64 bits, so only finitely many lanes can be pushed.\<close>

function flood :: "routing_graph \<Rightarrow> i64 set \<Rightarrow> lanelet list \<Rightarrow> i64 list \<Rightarrow> i64 set \<times> i64 list" where
  "flood g visited [] component = (visited, component)"
| "flood g visited (current # to_visit) component =
     (case expand g current (visited, to_visit) of
        (visited', to_visit') \<Rightarrow> flood g visited' to_visit' (component @ [ll_id current]))"
  by pat_completeness auto
termination
  by (relation "measure (\<lambda>(g, v, q, c). card (- v) + length q)") (auto dest!: expand_room [OF sym])

fun components_loop :: "routing_graph \<Rightarrow> lanelet list \<Rightarrow> i64 set \<Rightarrow> i64 list list \<Rightarrow> i64 list list" where
  "components_loop g [] visited components = components"
| "components_loop g (ll # lls) visited components =
     (if \<not> drivable ll then components_loop g lls visited components
      else if ll_id ll \<in> visited then components_loop g lls visited components
      else case flood g (insert (ll_id ll) visited) [ll] [] of
             (visited', component) \<Rightarrow> components_loop g lls visited' (components @ [component]))"

text \<open>The comparisons are \<open>a.size() > b.size()\<close> and \<open>a.first > b.first\<close>.\<close>

definition sorts_down :: "('a \<Rightarrow> nat) \<Rightarrow> ('a list \<Rightarrow> 'a list) \<Rightarrow> bool" where
  "sorts_down key srt \<longleftrightarrow> (\<forall>xs. mset (srt xs) = mset xs \<and> sorted_wrt (\<lambda>a b. key b \<le> key a) (srt xs))"

definition members_text :: "i64 list \<Rightarrow> string" where
  "members_text ids = concat (map (\<lambda>i. to_string i @ '' '') ids)"

fun component_lines :: "nat \<Rightarrow> i64 list list \<Rightarrow> diag_line list" where
  "component_lines i [] = []"
| "component_lines i (c # cs) =
     ComponentSize i (length c) #
     (if length c \<le> 30 then [ComponentMembers (members_text c)] else []) @ component_lines (Suc i) cs"

definition component_report :: "i64 list list \<Rightarrow> diag_line list" where
  "component_report components = ComponentsTotal (length components) # component_lines 0 components"

definition debugConnectedComponents ::
  "(i64 list list \<Rightarrow> i64 list list) \<Rightarrow> lanelet_map \<Rightarrow> exn + diag_line list" where
  "debugConnectedComponents std_sort m =
     (case the_graph m of
        None \<Rightarrow> Inr [GraphNotBuilt]
      | Some g \<Rightarrow>
          (case the_map m of
             None \<Rightarrow> Inl NullPointer
           | Some lls \<Rightarrow> Inr (component_report (std_sort (components_loop g lls {} [])))))"

section \<open>The best starting lane\<close>

fun reach_loop :: "routing_graph \<Rightarrow> lanelet list \<Rightarrow> (nat \<times> i64) list \<Rightarrow> (nat \<times> i64) list" where
  "reach_loop g [] reach_counts = reach_counts"
| "reach_loop g (ll # lls) reach_counts =
     (if \<not> drivable ll then reach_loop g lls reach_counts
      else reach_loop g lls (reach_counts @ [(length (reachable_set g ll 1000000), ll_id ll)]))"

definition debugFindBestStartingLane ::
  "((nat \<times> i64) list \<Rightarrow> (nat \<times> i64) list) \<Rightarrow> lanelet_map \<Rightarrow> exn + diag_line list" where
  "debugFindBestStartingLane std_sort m =
     (case the_graph m of
        None \<Rightarrow> Inr [GraphNotBuilt]
      | Some g \<Rightarrow>
          (case the_map m of
             None \<Rightarrow> Inl NullPointer
           | Some lls \<Rightarrow>
               (let reach_counts = std_sort (reach_loop g lls []);
                    n = min 10 (length reach_counts)
                in Inr (TopHeader # map (\<lambda>i. TopLine i (snd (reach_counts ! i)) (fst (reach_counts ! i))) [0..<n] @
                        BottomHeader #
                          map (\<lambda>i. let idx = length reach_counts - 1 - i
                                   in BottomLine (snd (reach_counts ! idx)) (fst (reach_counts ! idx))) [0..<n]))))"

section \<open>Components of a link relation\<close>

text \<open>
  Two lanes of the layer are linked when the routing graph gives one as a neighbour of the
  other. The graph is over the layer, whose identifiers are distinct.
\<close>

definition over_layer :: "routing_graph \<Rightarrow> lanelet list \<Rightarrow> bool" where
  "over_layer g lls \<longleftrightarrow> distinct (map ll_id lls) \<and> (\<forall>ll \<in> set lls. set (neighbours g ll) \<subseteq> set lls)"

definition links :: "routing_graph \<Rightarrow> lanelet list \<Rightarrow> (i64 \<times> i64) set" where
  "links g lls = {(ll_id a, ll_id b) | a b. a \<in> set lls \<and> b \<in> set (neighbours g a)}"

lemma links_of:
  "over_layer g lls \<Longrightarrow> a \<in> set lls \<Longrightarrow> links g lls `` {ll_id a} = ll_id ` set (neighbours g a)"
  unfolding over_layer_def links_def by (auto dest: distinct_map_inj)

lemma links_ids: "over_layer g lls \<Longrightarrow> (i, j) \<in> links g lls \<Longrightarrow> i \<in> ll_id ` set lls \<and> j \<in> ll_id ` set lls"
  unfolding over_layer_def links_def by blast

text \<open>What the while loop adds to a set of visited lanes.\<close>

lemma flood_adds:
  assumes "over_layer g lls" "set q \<subseteq> set lls" "distinct (map ll_id q)" "ll_id ` set q \<subseteq> v"
  shows "\<exists>v' new. flood g v q c = (v', c @ new) \<and> v \<subseteq> v' \<and> distinct new \<and>
    set new = ll_id ` set q \<union> (v' - v) \<and> set new \<subseteq> (links g lls)\<^sup>* `` (ll_id ` set q) \<and>
    links g lls `` set new \<subseteq> v'"
  using assms
proof (induction g v q c rule: flood.induct)
  case (1 g v c)
  then show ?case by simp
next
  case (2 g v cur q c)
  let ?nb = "ll_id ` set (neighbours g cur)" and ?L = "links g lls"
  have cur: "cur \<in> set lls" and curv: "ll_id cur \<in> v" and curq: "ll_id cur \<notin> ll_id ` set q"
    using "2.prems" by auto
  obtain n1 where n1: "expand g cur (v, q) = (v \<union> ?nb, q @ n1)" "set n1 \<subseteq> set (neighbours g cur)"
    "distinct (map ll_id n1)" "ll_id ` set n1 = ?nb - v"
    using fold_visit [of "neighbours g cur" v q] unfolding expand_eq by (elim exE conjE)
  have in_layer: "set (neighbours g cur) \<subseteq> set lls" using "2.prems"(1) cur by (simp add: over_layer_def)
  have "\<exists>v' new. flood g (v \<union> ?nb) (q @ n1) (c @ [ll_id cur]) = (v', (c @ [ll_id cur]) @ new) \<and>
      v \<union> ?nb \<subseteq> v' \<and> distinct new \<and> set new = ll_id ` set (q @ n1) \<union> (v' - (v \<union> ?nb)) \<and>
      set new \<subseteq> ?L\<^sup>* `` (ll_id ` set (q @ n1)) \<and> ?L `` set new \<subseteq> v'"
  proof (rule "2.IH" [OF n1(1) [symmetric] "2.prems"(1)])
    show "set (q @ n1) \<subseteq> set lls" using "2.prems"(2) n1(2) in_layer by auto
    have "ll_id ` set q \<inter> ll_id ` set n1 = {}" using "2.prems"(4) n1(4) by auto
    then show "distinct (map ll_id (q @ n1))" using "2.prems"(3) n1(3) by simp
    show "ll_id ` set (q @ n1) \<subseteq> v \<union> ?nb" using "2.prems"(4) n1(4) by auto
  qed
  then obtain v' new where new: "flood g (v \<union> ?nb) (q @ n1) (c @ [ll_id cur]) = (v', (c @ [ll_id cur]) @ new)"
    "v \<union> ?nb \<subseteq> v'" "distinct new" "set new = ll_id ` set (q @ n1) \<union> (v' - (v \<union> ?nb))"
    "set new \<subseteq> ?L\<^sup>* `` (ll_id ` set (q @ n1))" "?L `` set new \<subseteq> v'"
    by (elim exE conjE)
  have nb: "?L `` {ll_id cur} = ?nb" using "2.prems"(1) cur by (rule links_of)
  have "set new = ll_id ` set q \<union> (?nb - v) \<union> (v' - (v \<union> ?nb))" using new(4) n1(4) by (simp add: image_Un)
  then have s: "set new = ll_id ` set q \<union> (v' - v)" using new(2) by blast
  show ?case
  proof (intro exI conjI)
    show "flood g v (cur # q) c = (v', c @ ll_id cur # new)" using n1(1) new(1) by simp
    show "v \<subseteq> v'" using new(2) by blast
    show "distinct (ll_id cur # new)" using new(3) s curv curq by auto
    show "set (ll_id cur # new) = ll_id ` set (cur # q) \<union> (v' - v)" using s by auto
    have "?L\<^sup>* `` ?nb \<subseteq> ?L\<^sup>* `` {ll_id cur}"
    proof
      fix j assume "j \<in> ?L\<^sup>* `` ?nb"
      then obtain i where "(ll_id cur, i) \<in> ?L" "(i, j) \<in> ?L\<^sup>*" using nb by blast
      then show "j \<in> ?L\<^sup>* `` {ll_id cur}" by (auto intro: converse_rtrancl_into_rtrancl)
    qed
    moreover have "ll_id ` set (q @ n1) \<subseteq> ll_id ` set q \<union> ?nb" using n1(4) by auto
    moreover have "ll_id ` set (cur # q) = {ll_id cur} \<union> ll_id ` set q" by simp
    ultimately have "?L\<^sup>* `` (ll_id ` set (q @ n1)) \<subseteq> ?L\<^sup>* `` (ll_id ` set (cur # q))"
      by (smt (verit) Image_Un Image_mono Un_commute Un_mono order_refl subset_trans)
    moreover have "ll_id cur \<in> ?L\<^sup>* `` (ll_id ` set (cur # q))" by auto
    ultimately show "set (ll_id cur # new) \<subseteq> ?L\<^sup>* `` (ll_id ` set (cur # q))" using new(5) by simp
    have "?L `` set (ll_id cur # new) = ?L `` {ll_id cur} \<union> ?L `` set new" by auto
    then show "?L `` set (ll_id cur # new) \<subseteq> v'" using nb new(2,6) by simp
  qed
qed

text \<open>
  The loop over the layer. So far the components are disjoint, they hold exactly the visited
  lanes, these are closed under links, and each component is reached from a drivable lane in it.
\<close>

definition comps_inv :: "routing_graph \<Rightarrow> lanelet list \<Rightarrow> i64 set \<Rightarrow> i64 list list \<Rightarrow> bool" where
  "comps_inv g lls v cs \<longleftrightarrow>
     distinct (concat cs) \<and> set (concat cs) = v \<and> v \<subseteq> ll_id ` set lls \<and> links g lls `` v \<subseteq> v \<and>
     (\<forall>c \<in> set cs. \<exists>s \<in> set lls. drivable s \<and> ll_id s \<in> set c \<and> set c \<subseteq> (links g lls)\<^sup>* `` {ll_id s}) \<and>
     (sym (links g lls) \<longrightarrow> (\<forall>c \<in> set cs. links g lls `` set c \<subseteq> set c))"

lemma flood_component:
  assumes "over_layer g lls" "comps_inv g lls v cs" "s \<in> set lls" "drivable s" "ll_id s \<notin> v"
  shows "\<exists>v' c. flood g (insert (ll_id s) v) [s] [] = (v', c) \<and> comps_inv g lls v' (cs @ [c]) \<and> insert (ll_id s) v \<subseteq> v'"
proof -
  let ?L = "links g lls"
  obtain v' c where c: "flood g (insert (ll_id s) v) [s] [] = (v', [] @ c)" "insert (ll_id s) v \<subseteq> v'" "distinct c"
    "set c = ll_id ` set [s] \<union> (v' - insert (ll_id s) v)" "set c \<subseteq> ?L\<^sup>* `` (ll_id ` set [s])" "?L `` set c \<subseteq> v'"
    using flood_adds [OF assms(1), of "[s]" "insert (ll_id s) v" "[]"] assms(3) by auto
  note inv = assms(2) [unfolded comps_inv_def]
  have cv: "set c = v' - v" using c(2,4) assms(5) by auto
  have ids: "set c \<subseteq> ll_id ` set lls"
  proof
    fix i assume "i \<in> set c"
    then have "(ll_id s, i) \<in> ?L\<^sup>*" using c(5) by auto
    then show "i \<in> ll_id ` set lls"
      by (cases rule: rtrancl.cases) (use assms(3) links_ids [OF assms(1)] in auto)
  qed
  have sym: "?L `` set c \<subseteq> set c" if "sym ?L"
  proof
    fix j assume "j \<in> ?L `` set c"
    then obtain i where i: "i \<in> set c" "(i, j) \<in> ?L" by blast
    then have "j \<in> v'" using c(6) by blast
    moreover have "j \<notin> v"
    proof
      assume "j \<in> v"
      moreover have "(j, i) \<in> ?L" using i(2) that by (auto dest: symD)
      ultimately have "i \<in> v" using inv by blast
      with i(1) cv show False by blast
    qed
    ultimately show "j \<in> set c" using cv by blast
  qed
  have "comps_inv g lls v' (cs @ [c])"
    unfolding comps_inv_def
  proof (intro conjI)
    show "distinct (concat (cs @ [c]))" using inv c(3) cv by auto
    show "set (concat (cs @ [c])) = v'" using inv cv c(2) by auto
    show "v' \<subseteq> ll_id ` set lls" using inv ids cv by blast
    have "v' = v \<union> set c" using c(2) cv by blast
    then have "?L `` v' = ?L `` v \<union> ?L `` set c" by (simp add: Image_Un)
    moreover have "?L `` v \<subseteq> v'" using inv c(2) by (meson insert_subset subset_trans)
    ultimately show "?L `` v' \<subseteq> v'" using c(6) by simp
    show "\<forall>d \<in> set (cs @ [c]). \<exists>s \<in> set lls. drivable s \<and> ll_id s \<in> set d \<and> set d \<subseteq> ?L\<^sup>* `` {ll_id s}"
      using inv c(4,5) assms(3,4) by auto
    show "sym ?L \<longrightarrow> (\<forall>d \<in> set (cs @ [c]). ?L `` set d \<subseteq> set d)" using inv sym by auto
  qed
  with c(1,2) show ?thesis by auto
qed

lemma components_loop_inv:
  assumes "over_layer g lls" "comps_inv g lls v cs" "set ls \<subseteq> set lls"
  shows "\<exists>v'. comps_inv g lls v' (components_loop g ls v cs) \<and> v \<subseteq> v' \<and>
    ll_id ` {ll \<in> set ls. drivable ll} \<subseteq> v'"
  using assms(2,3)
proof (induction ls arbitrary: v cs)
  case (Cons l ls)
  show ?case
  proof (cases "drivable l \<and> ll_id l \<notin> v")
    case True
    obtain v' c where c: "flood g (insert (ll_id l) v) [l] [] = (v', c)" "comps_inv g lls v' (cs @ [c])" "insert (ll_id l) v \<subseteq> v'"
      using flood_component [OF assms(1) Cons.prems(1), of l] True Cons.prems(2) by auto
    obtain w where w: "comps_inv g lls w (components_loop g ls v' (cs @ [c]))" "v' \<subseteq> w"
      "ll_id ` {ll \<in> set ls. drivable ll} \<subseteq> w"
      using Cons.IH [OF c(2)] Cons.prems(2) by auto
    have "components_loop g (l # ls) v cs = components_loop g ls v' (cs @ [c])" using True c(1) by simp
    moreover have "ll_id ` {ll \<in> set (l # ls). drivable ll} \<subseteq> w" using w c(3) by auto
    moreover have "v \<subseteq> w" using w(2) c(3) by blast
    ultimately show ?thesis using w(1) by (metis (lifting))
  next
    case False
    then have eq: "components_loop g (l # ls) v cs = components_loop g ls v cs" by auto
    obtain w where w: "comps_inv g lls w (components_loop g ls v cs)" "v \<subseteq> w"
      "ll_id ` {ll \<in> set ls. drivable ll} \<subseteq> w"
      using Cons.IH [OF Cons.prems(1)] Cons.prems(2) by auto
    moreover have "ll_id ` {ll \<in> set (l # ls). drivable ll} \<subseteq> w" using w(2,3) False by auto
    ultimately show ?thesis unfolding eq by (metis (lifting))
  qed
qed auto

lemma components_inv:
  assumes "over_layer g lls"
  shows "\<exists>v. comps_inv g lls v (components_loop g lls {} []) \<and> ll_id ` {ll \<in> set lls. drivable ll} \<subseteq> v"
  using components_loop_inv [OF assms, of "{}" "[]" lls] by (auto simp: comps_inv_def)

text \<open>With links that go both ways the components are the connected ones.\<close>

lemma closed_rtrancl: "r `` A \<subseteq> A \<Longrightarrow> (i, j) \<in> r\<^sup>* \<Longrightarrow> i \<in> A \<Longrightarrow> j \<in> A"
  by (rotate_tac 1, induction rule: rtrancl_induct) auto

lemma same_component:
  assumes "comps_inv g lls v cs" "ll_id ` {ll \<in> set lls. drivable ll} \<subseteq> v"
    "sym (links g lls)" "a \<in> set lls" "drivable a"
  shows "(\<exists>c \<in> set cs. ll_id a \<in> set c \<and> j \<in> set c) \<longleftrightarrow> (ll_id a, j) \<in> (links g lls)\<^sup>*"
proof
  let ?L = "links g lls"
  have seeds: "\<forall>c \<in> set cs. \<exists>s \<in> set lls. drivable s \<and> ll_id s \<in> set c \<and> set c \<subseteq> ?L\<^sup>* `` {ll_id s}"
    using assms(1) by (simp add: comps_inv_def)
  assume "\<exists>c \<in> set cs. ll_id a \<in> set c \<and> j \<in> set c"
  then obtain c where c: "c \<in> set cs" "ll_id a \<in> set c" "j \<in> set c" by blast
  obtain s :: lanelet where "set c \<subseteq> ?L\<^sup>* `` {ll_id s}"
    using bspec [OF seeds c(1)] by blast
  then have "(ll_id s, ll_id a) \<in> ?L\<^sup>*" "(ll_id s, j) \<in> ?L\<^sup>*" using c(2,3) by auto
  moreover have "sym (?L\<^sup>*)" by (rule sym_rtrancl [OF assms(3)])
  ultimately show "(ll_id a, j) \<in> ?L\<^sup>*" by (meson rtrancl_trans symD)
next
  let ?L = "links g lls"
  have v: "set (concat cs) = v" and closed: "\<forall>c \<in> set cs. ?L `` set c \<subseteq> set c"
    using assms(1,3) by (simp_all add: comps_inv_def)
  assume r: "(ll_id a, j) \<in> ?L\<^sup>*"
  have "ll_id a \<in> set (concat cs)" unfolding v using assms(2,4,5) by blast
  then obtain c where c: "c \<in> set cs" "ll_id a \<in> set c" by auto
  have "?L `` set c \<subseteq> set c" using closed c(1) by blast
  then have "j \<in> set c" by (rule closed_rtrancl [OF _ r c(2)])
  with c show "\<exists>c \<in> set cs. ll_id a \<in> set c \<and> j \<in> set c" by blast
qed

end
