(* ===== verification/DiagnosticsProperties.thy ===== *)
theory DiagnosticsProperties
  imports LaneDiagnostics DemoMap
begin

text \<open>What the diagnostic operations of the lanelet map report.\<close>

section \<open>Sorting\<close>

lemma sorts_downD:
  assumes "sorts_down key srt"
  shows "mset (srt xs) = mset xs" "sorted_wrt (\<lambda>a b. key b \<le> key a) (srt xs)" "set (srt xs) = set xs"
proof -
  show m: "mset (srt xs) = mset xs" and "sorted_wrt (\<lambda>a b. key b \<le> key a) (srt xs)"
    using assms by (simp_all add: sorts_down_def)
  show "set (srt xs) = set xs" by (rule mset_eq_setD [OF m])
qed

lemma distinct_concat_mset: "mset xs = mset ys \<Longrightarrow> distinct (concat xs) = distinct (concat ys)"
proof (rule mset_eq_imp_distinct_iff)
  assume m: "mset xs = mset ys"
  have "mset (concat zs) = sum_mset (image_mset mset (mset zs))" for zs :: "'a list list"
    by (simp add: mset_concat flip: sum_mset_sum_list)
  with m show "mset (concat xs) = mset (concat ys)" by simp
qed

lemma rev_sort_key_down: "sorts_down key (\<lambda>xs. rev (sort_key key xs))"
proof -
  have "sorted_wrt (\<lambda>a b. key a \<le> key b) (sort_key key xs)" for xs
    using sorted_sort_key [of key xs] by (simp add: sorted_map sorted_wrt_map)
  then show ?thesis by (simp add: sorts_down_def sorted_wrt_rev)
qed

section \<open>Components\<close>

text \<open>
  C30. On a graph over the layer the flood fill ends, its components are
  disjoint, listed by decreasing size and cover every drivable lane; where links go both ways, a
  drivable lane and another lane are in one component exactly if they are connected.
\<close>

theorem connected_components_correct:
  assumes "the_graph m = Some g" "the_map m = Some lls" "over_layer g lls" "sorts_down length std_sort"
  shows "\<exists>cs. debugConnectedComponents std_sort m = Inr (component_report cs) \<and>
    sorted_wrt (\<lambda>c d. length d \<le> length c) cs \<and> distinct (concat cs) \<and>
    ll_id ` {ll \<in> set lls. drivable ll} \<subseteq> set (concat cs) \<and>
    (\<forall>c \<in> set cs. \<exists>s \<in> set lls. drivable s \<and> ll_id s \<in> set c \<and> set c \<subseteq> (links g lls)\<^sup>* `` {ll_id s}) \<and>
    (sym (links g lls) \<longrightarrow>
       (\<forall>a \<in> set lls. drivable a \<longrightarrow>
          (\<forall>j. (\<exists>c \<in> set cs. ll_id a \<in> set c \<and> j \<in> set c) \<longleftrightarrow> (ll_id a, j) \<in> (links g lls)\<^sup>*)))"
proof -
  let ?cs = "components_loop g lls {} []" and ?L = "links g lls"
  note srt = sorts_downD [OF assms(4), of ?cs]
  obtain v where v: "comps_inv g lls v ?cs" "ll_id ` {ll \<in> set lls. drivable ll} \<subseteq> v"
    using components_inv [OF assms(3)] by blast
  note inv = v(1) [unfolded comps_inv_def]
  have conn: "(\<exists>c \<in> set ?cs. ll_id a \<in> set c \<and> j \<in> set c) \<longleftrightarrow> (ll_id a, j) \<in> ?L\<^sup>*"
    if "sym ?L" "a \<in> set lls" "drivable a" for a j
    by (rule same_component [OF v that])
  show ?thesis
  proof (intro exI conjI)
    show "debugConnectedComponents std_sort m = Inr (component_report (std_sort ?cs))"
      using assms(1,2) by (simp add: debugConnectedComponents_def)
    show "sorted_wrt (\<lambda>c d. length d \<le> length c) (std_sort ?cs)" by (rule srt(2))
    show "distinct (concat (std_sort ?cs))" using inv distinct_concat_mset [OF srt(1)] by blast
    show "ll_id ` {ll \<in> set lls. drivable ll} \<subseteq> set (concat (std_sort ?cs))"
      using inv v(2) srt(3) by simp
    show "\<forall>c \<in> set (std_sort ?cs). \<exists>s \<in> set lls. drivable s \<and> ll_id s \<in> set c \<and> set c \<subseteq> ?L\<^sup>* `` {ll_id s}"
      using inv srt(3) by simp
    show "sym ?L \<longrightarrow> (\<forall>a \<in> set lls. drivable a \<longrightarrow>
        (\<forall>j. (\<exists>c \<in> set (std_sort ?cs). ll_id a \<in> set c \<and> j \<in> set c) \<longleftrightarrow> (ll_id a, j) \<in> ?L\<^sup>*))"
      using conn srt(3) by simp
  qed
qed

lemma demo_neighbours:
  "neighbours demo_graph lane_a = [lane_b]" "neighbours demo_graph lane_b = [lane_a]" "neighbours demo_graph walk_c = []"
  by (simp_all add: neighbours_def demo_graph_def)

lemma demo_over_layer: "over_layer demo_graph [walk_c, lane_a, lane_b]"
  by (simp add: over_layer_def demo_neighbours)

lemma demo_links: "links demo_graph [walk_c, lane_a, lane_b] = {(1, 2), (2, 1)}"
proof
  show "links demo_graph [walk_c, lane_a, lane_b] \<subseteq> {(1, 2), (2, 1)}"
    by (auto simp: links_def demo_neighbours)
  have "(ll_id lane_a, ll_id lane_b) \<in> links demo_graph [walk_c, lane_a, lane_b]"
    "(ll_id lane_b, ll_id lane_a) \<in> links demo_graph [walk_c, lane_a, lane_b]"
    unfolding links_def using demo_neighbours(1,2) by (metis (mono_tags, lifting) list.set_intros mem_Collect_eq)+
  then show "{(1, 2), (2, 1)} \<subseteq> links demo_graph [walk_c, lane_a, lane_b]" by simp
qed

theorem connected_components_correct_witness:
  "\<exists>cs c. debugConnectedComponents (\<lambda>xs. rev (sort_key length xs)) demo_map = Inr (component_report cs) \<and>
    distinct (concat cs) \<and> c \<in> set cs \<and> 1 \<in> set c \<and> 2 \<in> set c"
proof -
  obtain cs where cs: "debugConnectedComponents (\<lambda>xs. rev (sort_key length xs)) demo_map = Inr (component_report cs)"
    "distinct (concat cs)"
    "\<forall>a \<in> set [walk_c, lane_a, lane_b]. drivable a \<longrightarrow>
      (\<forall>j. (\<exists>c \<in> set cs. ll_id a \<in> set c \<and> j \<in> set c) \<longleftrightarrow>
            (ll_id a, j) \<in> (links demo_graph [walk_c, lane_a, lane_b])\<^sup>*)"
    using connected_components_correct [OF _ _ demo_over_layer rev_sort_key_down, of demo_map]
    by (auto simp: demo_links sym_def)
  have "(1, 2) \<in> {(1, 2), (2, 1)}\<^sup>*" by (rule r_into_rtrancl) simp
  then have "\<exists>c \<in> set cs. 1 \<in> set c \<and> 2 \<in> set c" using cs(3) by (simp add: demo_links)
  with cs(1,2) show ?thesis by blast
qed

text \<open>
  A lane change that is allowed one way only: what the report says depends on the order of the
  layer. Seen from its end \<open>b\<close> first, the lane it starts from is a component of its own.
\<close>

lemma one_way_links_split:
  assumes "neighbours g a = [b]" "neighbours g b = []" "drivable a" "drivable b" "ll_id a \<noteq> ll_id b"
  shows "components_loop g [a, b] {} [] = [[ll_id a, ll_id b]]"
    "components_loop g [b, a] {} [] = [[ll_id b], [ll_id a]]"
  using assms by (simp_all add: expand_eq visit_def)

section \<open>The best starting lane\<close>

lemma reach_loop_eq:
  "reach_loop g lls rc = rc @ map (\<lambda>ll. (length (reachable_set g ll 1000000), ll_id ll)) (filter drivable lls)"
  by (induction g lls rc rule: reach_loop.induct) auto

text \<open>No drivable lane that the first list leaves out reaches more lanes than one it names.\<close>

lemma best_starting_lanes:
  assumes "the_graph m = Some g" "the_map m = Some lls" "sorts_down fst std_sort"
    "debugFindBestStartingLane std_sort m = Inr out" "TopLine i best n \<in> set out" "ll \<in> set lls" "drivable ll"
  shows "length (reachable_set g ll 1000000) \<le> n \<or> (\<exists>k. TopLine k (ll_id ll) (length (reachable_set g ll 1000000)) \<in> set out)"
proof -
  define rc where "rc = std_sort (reach_loop g lls [])"
  have out: "out = TopHeader # map (\<lambda>i. TopLine i (snd (rc ! i)) (fst (rc ! i))) [0..<min 10 (length rc)] @
      BottomHeader # map (\<lambda>i. let idx = length rc - 1 - i in BottomLine (snd (rc ! idx)) (fst (rc ! idx)))
        [0..<min 10 (length rc)]"
    using assms(1,2,4) by (simp add: debugFindBestStartingLane_def rc_def Let_def)
  have i: "i < min 10 (length rc)" "n = fst (rc ! i)" using assms(5) unfolding out by (auto simp: Let_def)
  have "(length (reachable_set g ll 1000000), ll_id ll) \<in> set rc"
    using assms(6,7) sorts_downD(3) [OF assms(3)] by (auto simp: rc_def reach_loop_eq)
  then obtain k where k: "k < length rc" "rc ! k = (length (reachable_set g ll 1000000), ll_id ll)"
    by (auto simp: in_set_conv_nth)
  have sorted: "sorted_wrt (\<lambda>a b. fst b \<le> fst a) rc" using sorts_downD(2) [OF assms(3)] by (simp add: rc_def)
  show ?thesis
  proof (cases "k < 10")
    case True
    with k have "TopLine k (ll_id ll) (length (reachable_set g ll 1000000)) \<in> set out"
      unfolding out by (auto intro!: image_eqI [of _ _ k])
    then show ?thesis by blast
  next
    case False
    with i k have "i < k" by simp
    with sorted k(1) have "fst (rc ! k) \<le> fst (rc ! i)" unfolding sorted_wrt_iff_nth_less by blast
    then have "length (reachable_set g ll 1000000) \<le> n" unfolding i(2) k(2) by simp
    then show ?thesis by blast
  qed
qed

end
