(* ===== verification/TripReplies.thy ===== *)
theory TripReplies
  imports TripInvariant
begin

text \<open>
  Who is answered when: the callbacks handed to \<open>queryEta\<close>, and the trail of state changes
  an observer sees. Each operation is shown to append a known kind of effect to the outbox.
\<close>

section \<open>Counting the answers\<close>

fun answers :: "nat \<Rightarrow> effect \<Rightarrow> bool" where
  "answers k (QueryReply k' r) \<longleftrightarrow> k' = k"
| "answers k _ \<longleftrightarrow> False"

definition replies :: "nat \<Rightarrow> trip_controller \<Rightarrow> nat" where
  "replies k c = length (filter (answers k) (outbox c))"

text \<open>The answers given and the one the controller still owes.\<close>

definition owed :: "nat \<Rightarrow> trip_controller \<Rightarrow> nat" where
  "owed k c = replies k c + (if query_cb c = Some k then 1 else 0)"

fun submits :: "nat \<Rightarrow> timed_event \<Rightarrow> nat" where
  "submits k (_, EvQueryEta _ _ cb _) = (if cb = Some k then 1 else 0)"
| "submits k _ = 0"

definition submitted :: "nat \<Rightarrow> timed_event list \<Rightarrow> nat" where
  "submitted k es = sum_list (map (submits k) es)"

text \<open>Operations that neither answer nor touch the callback.\<close>

definition quiet :: "trip_controller \<Rightarrow> trip_controller \<Rightarrow> bool" where
  "quiet c c' \<longleftrightarrow> query_cb c' = query_cb c \<and>
     (\<exists>es. outbox c' = outbox c @ es \<and> (\<forall>e \<in> set es. \<forall>k. \<not> answers k e))"

lemma quiet_refl [simp]: "quiet c c"
  by (simp add: quiet_def)

lemma quiet_trans: "quiet c c' \<Longrightarrow> quiet c' c'' \<Longrightarrow> quiet c c''"
  by (auto simp: quiet_def)

lemma quiet_owed: "quiet c c' \<Longrightarrow> owed k c' = owed k c"
  by (auto simp: quiet_def owed_def replies_def filter_empty_conv)

lemma quiet_emit [simp]: "(\<forall>k. \<not> answers k e) \<Longrightarrow> quiet c (emit e c)"
  by (simp add: quiet_def emit_def)

lemma quiet_transitionTo [simp]: "quiet c (transitionTo now s c)"
  by (simp add: quiet_def transitionTo_outbox)

lemma quiet_publish [simp]:
  "quiet c (publish_init c)" "quiet c (publish_start c)" "quiet c (publish_goal c)"
  "quiet c (publish_start_as_goal c)"
  by (simp_all add: publish_init_def publish_start_def publish_goal_def publish_start_as_goal_def
      doPublishInitialPose_def doPublishGoal_def Let_def)

lemma quiet_doEngage [simp]: "quiet c (doEngage svc c)"
  by (simp add: doEngage_def split: option.splits)

lemma quiet_republish [simp]: "quiet c (p c) \<Longrightarrow> quiet c (republish now ms p c)"
  by (simp add: republish_def quiet_def)

text \<open>Changes of other fields do not matter.\<close>

lemma owed_updates [simp]:
  "owed k (c\<lparr>tc_map := m\<rparr>) = owed k c" "owed k (c\<lparr>status := st\<rparr>) = owed k c"
  "owed k (c\<lparr>current_route_state := rs\<rparr>) = owed k c" "owed k (c\<lparr>route_received := b\<rparr>) = owed k c"
  "owed k (c\<lparr>eta_received := b\<rparr>) = owed k c" "owed k (c\<lparr>eta_distance_m := d\<rparr>) = owed k c"
  "owed k (c\<lparr>eta_seconds := d\<rparr>) = owed k c" "owed k (c\<lparr>current_leg := l\<rparr>) = owed k c"
  "owed k (c\<lparr>pickup_route := pr\<rparr>) = owed k c" "owed k (c\<lparr>trip_route := tr\<rparr>) = owed k c"
  "owed k (c\<lparr>query_result := qr\<rparr>) = owed k c" "owed k (c\<lparr>querying := b\<rparr>) = owed k c"
  "owed k (c\<lparr>engaging_for_pickup := b\<rparr>) = owed k c" "owed k (c\<lparr>current_loc_state := ls\<rparr>) = owed k c"
  "owed k (c\<lparr>current_mode_state := ms\<rparr>) = owed k c" "owed k (c\<lparr>last_route := lr\<rparr>) = owed k c"
  "owed k (c\<lparr>query_start_gps := g\<rparr>) = owed k c" "owed k (c\<lparr>query_goal_gps := g\<rparr>) = owed k c"
  "owed k (c\<lparr>last_publish_time := t\<rparr>) = owed k c"
  by (simp_all add: owed_def replies_def)

lemma owed_quiet_ops [simp]:
  "owed k (publish_init c) = owed k c" "owed k (publish_start c) = owed k c"
  "owed k (publish_goal c) = owed k c" "owed k (publish_start_as_goal c) = owed k c"
  "owed k (doEngage svc c) = owed k c" "owed k (setCurrentGps g c) = owed k c"
  by (simp_all add: quiet_owed setCurrentGps_def)

lemma owed_emit [simp]: "\<not> answers k e \<Longrightarrow> owed k (emit e c) = owed k c"
  by (simp add: owed_def replies_def emit_def)

lemma owed_republish [simp]: "owed k (p c) = owed k c \<Longrightarrow> owed k (republish now ms p c) = owed k c"
  by (simp add: republish_def)

lemma owed_transitionTo [simp]: "owed k (transitionTo now s c) = owed k c"
  by (rule quiet_owed) simp

lemma owed_reply_query [simp]: "owed k (reply_query c) = owed k c"
  by (simp add: owed_def replies_def split: option.splits)

lemma owed_failQuery [simp]: "owed k (failQuery now r c) = owed k c"
  by (simp add: owed_def replies_def failQuery_outbox split: option.splits)

section \<open>The operations\<close>

lemma owed_startQueryLeg: "startQueryLeg now f t c = Inr c' \<Longrightarrow> owed k c' = owed k c"
  by (auto simp: startQueryLeg_def split: sum.splits prod.splits option.splits)

lemma owed_finishQueryLeg:
  assumes "finishQueryLeg now c = Inr c'"
  shows "owed k c' = owed k c"
proof -
  have "owed k (finish_trip_leg now c) = owed k c" by (simp add: finish_trip_leg_def Let_def)
  moreover have "finish_pickup_leg now c = Inr c' \<Longrightarrow> owed k c' = owed k c"
    by (auto simp: finish_pickup_leg_def Let_def dest!: owed_startQueryLeg [where k = k] split: sum.splits)
  ultimately show ?thesis using assms by (auto simp: finishQueryLeg_def split: if_splits)
qed

lemma owed_tick:
  assumes "tick svc now c = Inr c'"
  shows "owed k c' = owed k c"
proof (cases "state_of c = QUERY_READING_ETA")
  case True
  with assms show ?thesis
    by (auto simp: tick_def tick_query_eta_def dest!: owed_finishQueryLeg [where k = k] split: if_splits)
next
  case False
  with assms show ?thesis
    by (cases "state_of c")
       (auto simp: tick_def tick_initializing_def tick_query_localisation_def tick_query_route_def
         tick_localisation_def tick_driving_to_pickup_def tick_running_def Let_def)
qed

lemma owed_startTrip: "startTrip now c = Inr (ok, c') \<Longrightarrow> owed k c' = owed k c"
  by (auto simp: startTrip_def Let_def split: sum.splits prod.splits option.splits if_splits)

lemma owed_goToPickup: "owed k (snd (goToPickup now c)) = owed k c"
  by (simp add: goToPickup_def)

lemma owed_move: "move now c = Inr (ok, c') \<Longrightarrow> owed k c' = owed k c"
  by (auto simp: move_def Let_def split: sum.splits prod.splits option.splits if_splits)

lemma owed_handleMoveCommand: "handleMoveCommand now c = Inr (ok, c') \<Longrightarrow> owed k c' = owed k c"
  using owed_goToPickup [of k now c]
  by (auto simp: handleMoveCommand_def dest!: owed_move [where k = k] split: if_splits)

lemma owed_reply_now: "owed k (reply_now cb r c) = owed k c + (if cb = Some k then 1 else 0)"
  by (simp add: reply_now_def owed_def replies_def emit_def split: option.splits)

lemma owed_queryEta:
  assumes "ctrl_inv c" "queryEta now tf s g cb c = Inr (ok, c')"
  shows "owed k c' = owed k c + (if cb = Some k then 1 else 0)"
proof (cases "state_of c = IDLE \<and> getCurrentVehiclePose tf c \<noteq> None")
  case False
  with assms(2) show ?thesis
    by (auto simp: queryEta_def owed_reply_now split: if_splits option.splits)
next
  case True
  with assms(1) have cb: "query_cb c = None" by (simp add: ctrl_inv_def idle_inv_def)
  from True assms(2) obtain pose where
    "startQueryLeg now pose s (c\<lparr>querying := True, current_leg := PICKUP, query_start_gps := s,
       query_goal_gps := g, query_cb := cb, query_result := default_result,
       pickup_route := None, trip_route := None\<rparr>) = Inr c'"
    by (auto simp: queryEta_def Let_def split: sum.splits)
  from owed_startQueryLeg [OF this, of k] cb show ?thesis
    by (simp add: owed_def replies_def)
qed

section \<open>Steps and runs\<close>

lemma owed_onTick: "onTick svc tf now c = Inr c' \<Longrightarrow> owed k c' = owed k c"
  by (auto simp: onTick_def dest!: owed_tick [where k = k] split: option.splits)

text \<open>Every event but a cancellation adds exactly what it submits.\<close>

lemma owed_step:
  assumes "ctrl_inv c" "ctrl_step (now, e) c = Inr c'" "e \<noteq> EvCancel"
  shows "owed k c' = owed k c + submits k (now, e)"
proof (cases e)
  case (EvQueryEta s g cb tf)
  with assms(2) obtain ok where "queryEta now tf s g cb c = Inr (ok, c')"
    using map_snd_InrD by fastforce
  from owed_queryEta [OF assms(1) this] EvQueryEta show ?thesis by simp
next
  case EvStartTrip
  with assms(2) show ?thesis by (auto dest!: map_snd_InrD owed_startTrip [where k = k])
next
  case EvMoveCommand
  with assms(2) show ?thesis by (auto dest!: map_snd_InrD owed_handleMoveCommand [where k = k])
next
  case EvMove
  with assms(2) show ?thesis by (auto dest!: map_snd_InrD owed_move [where k = k])
qed (use assms(2,3) in \<open>auto simp: owed_goToPickup onRouteReceived_def injectEta_def onModeResponse_def
       onEngageResponse_def dest: owed_onTick\<close>)

text \<open>A cancellation answers nobody and forgets the callback.\<close>

lemma cancel_replies: "replies k (cancel now c) = replies k c" "query_cb (cancel now c) = None"
  by (auto simp: replies_def cancel_def Let_def transitionTo_outbox publish_defs split: option.splits)

lemma owed_step_le:
  assumes "ctrl_inv c" "ctrl_step e c = Inr c'"
  shows "owed k c' \<le> owed k c + submits k e"
proof (cases "snd e = EvCancel")
  case True
  with assms(2) have "c' = cancel (fst e) c" by (cases e) auto
  then show ?thesis by (simp add: owed_def cancel_replies)
next
  case False
  with owed_step [OF assms(1), of "fst e" "snd e" c' k] assms(2) show ?thesis by simp
qed

lemma owed_run_le:
  "ctrl_inv c \<Longrightarrow> run ctrl_step es c = Inr c' \<Longrightarrow> owed k c' \<le> owed k c + submitted k es"
proof (induction es arbitrary: c)
  case (Cons e es)
  then obtain c1 where c1: "ctrl_step e c = Inr c1" "run ctrl_step es c1 = Inr c'"
    by (auto split: sum.splits)
  with Cons.IH [OF ctrl.step_Inr [OF Cons.prems(1) c1(1)] c1(2)] owed_step_le [OF Cons.prems(1) c1(1), of k]
  show ?case by (simp add: submitted_def)
qed (simp add: submitted_def)

lemma owed_run:
  "ctrl_inv c \<Longrightarrow> run ctrl_step es c = Inr c' \<Longrightarrow> EvCancel \<notin> snd ` set es \<Longrightarrow>
     owed k c' = owed k c + submitted k es"
proof (induction es arbitrary: c)
  case (Cons e es)
  then obtain c1 where c1: "ctrl_step e c = Inr c1" "run ctrl_step es c1 = Inr c'"
    by (auto split: sum.splits)
  with owed_step [OF Cons.prems(1), of "fst e" "snd e" c1 k] Cons.prems(3)
  have "owed k c1 = owed k c + submits k e" by auto
  with Cons.IH [OF ctrl.step_Inr [OF Cons.prems(1) c1(1)] c1(2)] Cons.prems(3)
  show ?case by (simp add: submitted_def)
qed (simp add: submitted_def)

lemma settled_no_callback: "ctrl_inv c \<Longrightarrow> phase_of (state_of c) \<noteq> Quoting \<Longrightarrow> query_cb c = None"
  by (auto simp: ctrl_inv_def idle_inv_def bank_inv_def split: trip_phase.splits)

end
