(* ===== verification/TripJourney.thy ===== *)
theory TripJourney
  imports TripReplies DemoMap
begin

text \<open>
  A whole trip in a cooperative environment: from \<open>IDLE\<close>, through the two quotes, the drive to
  the pickup and the ride, to \<open>COMPLETED\<close>. The events are those the system sends; the only
  conditions are that the vehicle is localised and the map resolves the three places.
\<close>

section \<open>Quoting one leg\<close>

definition tick_event :: "autoware_services \<Rightarrow> ctrl_event" where
  "tick_event svc = EvTick svc None"

text \<open>Autoware's answers while a leg is quoted: the route is set, then the ETA arrives.\<close>

definition quote_events :: "autoware_services \<Rightarrow> real \<Rightarrow> real \<Rightarrow> ctrl_event list" where
  "quote_events svc d e =
     [tick_event svc, tick_event svc, tick_event svc, EvRouteState RS_SET, tick_event svc, EvEta d e,
      tick_event svc]"

lemma onTick_no_tf [simp]: "onTick svc None now c = tick svc now c"
  by (simp add: onTick_def getCurrentVehiclePose_def)

text \<open>The fields no event of the quote changes.\<close>

definition kept where
  "kept c = (current_loc_state c, engaging_for_pickup c, on_pickup_arrived c, on_dropoff_arrived c, timings c)"

lemma kept_simps [simp]:
  "kept (transitionTo now s c) = kept c" "kept (publish_start c) = kept c" "kept (publish_goal c) = kept c"
  "kept (publish_init c) = kept c" "kept (publish_start_as_goal c) = kept c" "kept (emit e c) = kept c"
  "kept (c\<lparr>current_route_state := r\<rparr>) = kept c" "kept (c\<lparr>route_received := b\<rparr>) = kept c"
  "kept (c\<lparr>eta_received := b\<rparr>) = kept c" "kept (c\<lparr>eta_distance_m := d\<rparr>) = kept c"
  "kept (c\<lparr>eta_seconds := d\<rparr>) = kept c" "kept (c\<lparr>status := st\<rparr>) = kept c"
  "kept (reply_query c) = kept c" "kept (c\<lparr>tc_map := m\<rparr>) = kept c"
  by (simp_all add: kept_def publish_defs reply_query_def split: option.splits)

lemma kept_localised: "kept c' = kept c \<Longrightarrow> localised c' = localised c"
  by (simp add: kept_def localised_def)

lemma quote_leg:
  assumes "state_of c = QUERY_PUBLISHING_INITIAL_POSE" "localised c"
  shows "\<exists>c'. run ctrl_step [(t1, tick_event svc), (t2, tick_event svc), (t3, tick_event svc),
       (t4, EvRouteState RS_SET), (t5, tick_event svc), (t6, EvEta d e)] c = Inr c' \<and>
     state_of c' = QUERY_READING_ETA \<and> eta_received c' \<and> core c' = core c \<and> kept c' = kept c"
  using assms
  by (simp add: tick_event_def tick_def tick_query_localisation_def tick_query_route_def injectEta_def
      localised_def publish_defs transitionTo_def core_def kept_def)

lemma startQueryLeg_resolved:
  assumes "leg_ready c" "query_from_lane from_gps c = Inr (Some l, m1)" "cache_extends (tc_map c) m1"
    "lane_id l \<in> lane_ids (tc_map c)" "connected_id (tc_map c) to_gps (lane_id l) True \<noteq> None"
  obtains m st where
    "startQueryLeg now from_gps to_gps c =
       Inr (transitionTo now QUERY_PUBLISHING_INITIAL_POSE (c\<lparr>tc_map := m, status := st\<rparr>))"
    "cache_extends (tc_map c) m" "start_lanelet_id st = to_string (lane_id l)"
    "Some (goal_lanelet_id st) = map_option to_string (connected_id (tc_map c) to_gps (lane_id l) True)"
proof -
  have m1: "wf_map m1" "cache_inv m1" "lane_id l \<in> lane_ids m1"
    using assms(1,3,4) by (simp_all add: leg_ready_def map_ok_def cache_extends_static cache_extends_inv)
  obtain r m where l2: "findNearestConnectedLane m1 to_gps (lane_id l) True = Inr (r, m)"
    "cache_extends m1 m" "map_option lane_id r = connected_id m1 to_gps (lane_id l) True"
    using connected.lookup_total [OF m1] by metis
  with assms(3,5) obtain to_lane where to_lane: "r = Some to_lane"
    "connected_id (tc_map c) to_gps (lane_id l) True = Some (lane_id to_lane)"
    by (auto simp: connected_id_extends)
  show thesis
  proof (rule that [where m = m and st = "set_leg_status m l to_lane to_gps (status c)"])
    show "cache_extends (tc_map c) m" by (rule cache_extends_trans [OF assms(3) l2(2)])
  qed (use assms(2) l2(1) to_lane in \<open>simp_all add: startQueryLeg_def\<close>)
qed

text \<open>The quote of the pickup leg is followed by the trip leg, from the lane just quoted.\<close>

lemma finish_pickup_leg_resolved:
  assumes "map_ok c" "leg_inv c" "current_leg c = PICKUP" "localised c"
    "\<And>s g. goal_lanelet_id (status c) = to_string g \<Longrightarrow> connected_id (tc_map c) (query_goal_gps c) g True \<noteq> None"
  obtains c' where "finish_pickup_leg now c = Inr c'" "state_of c' = QUERY_PUBLISHING_INITIAL_POSE"
    "current_leg c' = TRIP" "localised c'" "cache_extends (tc_map c) (tc_map c')"
    "engaging_for_pickup c' = engaging_for_pickup c" "query_goal_gps c' = query_goal_gps c"
proof -
  obtain g where g: "goal_lanelet_id (status c) = to_string g" "g \<in> lane_ids (tc_map c)"
    using assms(2) by (auto simp: leg_inv_def)
  let ?c1 = "c\<lparr>query_result := (query_result c)\<lparr>pickup_leg := current_leg_eta c\<rparr>\<rparr>"
  let ?c2 = "?c1\<lparr>pickup_route := Some (current_held_route (query_start_gps ?c1) g ?c1),
                 current_leg := TRIP, current_route_state := None, route_received := False\<rparr>"
  have ready: "leg_ready ?c2"
    using assms(1,2) g by (auto simp: leg_ready_def leg_inv_def map_ok_def current_held_route_def current_leg_eta_def)
  obtain r m where l: "getLaneById (tc_map c) g = Inr (r, m)" "cache_extends (tc_map c) m"
    "map_option lane_id r = known_id (tc_map c) g"
    using by_id.lookup_total [of "tc_map c" g thesis] assms(1) by (auto simp: map_ok_def)
  with g(2) obtain lane where lane: "r = Some lane" "lane_id lane = g" by (auto simp: known_id_Some)
  have fl: "query_from_lane (query_start_gps c) ?c2 = Inr (Some lane, m)"
    using g(1) l(1) lane(1) by (simp add: query_from_lane_def)
  obtain m2 st where st: "startQueryLeg now (query_start_gps c) (query_goal_gps c) ?c2 =
      Inr (transitionTo now QUERY_PUBLISHING_INITIAL_POSE (?c2\<lparr>tc_map := m2, status := st\<rparr>))"
    "cache_extends (tc_map ?c2) m2"
  proof (rule startQueryLeg_resolved [OF ready fl, of "query_goal_gps c" now])
    show "connected_id (tc_map ?c2) (query_goal_gps c) (lane_id lane) True \<noteq> None"
      using assms(5) [OF g(1)] lane(2) by simp
  qed (use l(2) lane(2) g(2) in simp_all)
  then have "finish_pickup_leg now c =
      Inr (transitionTo now QUERY_PUBLISHING_INITIAL_POSE (?c2\<lparr>tc_map := m2, status := st\<rparr>))"
    using g(1) by (simp add: finish_pickup_leg_def Let_def)
  with that st(2) assms(4) show thesis by (simp add: localised_def)
qed

text \<open>The two legs, at whatever times the events arrive.\<close>

lemma quote_run:
  assumes "map snd es = quote_events svc d e" "state_of c = QUERY_PUBLISHING_INITIAL_POSE" "localised c"
  obtains c1 t where "run ctrl_step es c = tick_query_eta t c1" "state_of c1 = QUERY_READING_ETA"
    "eta_received c1" "core c1 = core c" "kept c1 = kept c"
proof -
  obtain t1 t2 t3 t4 t5 t6 t7 where es: "es =
      [(t1, tick_event svc), (t2, tick_event svc), (t3, tick_event svc), (t4, EvRouteState RS_SET),
       (t5, tick_event svc), (t6, EvEta d e)] @ [(t7, tick_event svc)]"
    using assms(1) by (auto simp: quote_events_def map_eq_Cons_conv)
  obtain c1 where c1: "run ctrl_step [(t1, tick_event svc), (t2, tick_event svc), (t3, tick_event svc),
       (t4, EvRouteState RS_SET), (t5, tick_event svc), (t6, EvEta d e)] c = Inr c1"
     "state_of c1 = QUERY_READING_ETA" "eta_received c1" "core c1 = core c" "kept c1 = kept c"
    using quote_leg [OF assms(2,3)] by blast
  then have "run ctrl_step es c = run ctrl_step [(t7, tick_event svc)] c1"
    unfolding es run_append by simp
  also have "\<dots> = tick_query_eta t7 c1"
    using c1(2) by (simp add: tick_event_def tick_def split: sum.splits)
  finally show thesis using that c1 by blast
qed

lemma quote_pickup:
  assumes "map snd es = quote_events svc d e" "ctrl_inv c" "state_of c = QUERY_PUBLISHING_INITIAL_POSE"
    "localised c" "current_leg c = PICKUP"
    "\<And>g. goal_lanelet_id (status c) = to_string g \<Longrightarrow> connected_id (tc_map c) (query_goal_gps c) g True \<noteq> None"
  obtains c' where "run ctrl_step es c = Inr c'" "ctrl_inv c'" "localised c'"
    "state_of c' = QUERY_PUBLISHING_INITIAL_POSE" "current_leg c' = TRIP"
proof -
  obtain c1 t where c1: "run ctrl_step es c = tick_query_eta t c1" "state_of c1 = QUERY_READING_ETA"
    "eta_received c1" "core c1 = core c" "kept c1 = kept c"
    using quote_run [OF assms(1,3,4)] by blast
  then have inv: "ctrl_inv c1" using core_eq_inv [of c1 c] assms(2,3) by simp
  obtain c' where c': "finish_pickup_leg t c1 = Inr c'" "state_of c' = QUERY_PUBLISHING_INITIAL_POSE"
    "current_leg c' = TRIP" "localised c'"
  proof (rule finish_pickup_leg_resolved [of c1 t])
    show "map_ok c1" "leg_inv c1" using inv c1(2) by (simp_all add: ctrl_inv_def)
    show "current_leg c1 = PICKUP" "localised c1"
      using c1(4,5) assms(4,5) by (simp_all add: core_def kept_localised [of c1 c])
    show "connected_id (tc_map c1) (query_goal_gps c1) g True \<noteq> None"
      if "goal_lanelet_id (status c1) = to_string g" for g
      using assms(6) [of g] that c1(4) by (simp add: core_def)
  qed
  have "run ctrl_step es c = Inr c'"
    using c1 c'(1) assms(5) by (simp add: tick_query_eta_def finishQueryLeg_def core_def)
  with ctrl.run_inv [OF assms(2) this] c' that show thesis by blast
qed

lemma quote_trip:
  assumes "map snd es = quote_events svc d e" "ctrl_inv c" "state_of c = QUERY_PUBLISHING_INITIAL_POSE"
    "localised c" "current_leg c = TRIP"
  obtains c' where "run ctrl_step es c = Inr c'" "ctrl_inv c'" "localised c'" "state_of c' = ROUTES_READY"
proof -
  obtain c1 t where c1: "run ctrl_step es c = tick_query_eta t c1" "state_of c1 = QUERY_READING_ETA"
    "eta_received c1" "core c1 = core c" "kept c1 = kept c"
    using quote_run [OF assms(1,3,4)] by blast
  let ?c' = "finish_trip_leg t c1"
  have run: "run ctrl_step es c = Inr ?c'"
    using c1 assms(5) by (simp add: tick_query_eta_def finishQueryLeg_def core_def)
  have "localised ?c'"
    using c1(5) assms(4) by (simp add: finish_trip_leg_def Let_def kept_def localised_def reply_query_def emit_def
        split: option.splits)
  with run ctrl.run_inv [OF assms(2) run] that show thesis by simp
qed

section \<open>The drive and the ride\<close>

definition drive_events :: "autoware_services \<Rightarrow> ctrl_event list" where
  "drive_events svc =
     [EvStartTrip, EvMoveCommand, tick_event svc, tick_event svc, EvEngageResponse 1,
      EvRouteState RS_ARRIVED, tick_event svc]"

definition ride_events :: "autoware_services \<Rightarrow> ctrl_event list" where
  "ride_events svc = [EvMoveCommand, EvEngageResponse 1, EvRouteState RS_ARRIVED, tick_event svc]"

lemma startTrip_ready:
  assumes "ctrl_inv c" "state_of c = ROUTES_READY"
  obtains c' where "startTrip now c = Inr (True, c')" "ctrl_inv c'" "state_of c' = WAITING_FOR_PICKUP_START"
    "localised c' = localised c" "engaging_for_pickup c'"
proof -
  obtain c' where c': "startTrip now c = Inr (True, c')" "ctrl_inv c'" "state_of c' = WAITING_FOR_PICKUP_START"
    using startTrip_inv [OF assms(1), of now] assms(2) by metis
  moreover have "localised c' = localised c" "engaging_for_pickup c'"
    using c'(1) by (auto simp: startTrip_def localised_def Let_def split: sum.splits prod.splits option.splits if_splits)
  ultimately show thesis using that by blast
qed

lemma drive_run:
  assumes "map snd es = drive_events svc" "ctrl_inv c" "state_of c = ROUTES_READY" "localised c"
  obtains c' where "run ctrl_step es c = Inr c'" "ctrl_inv c'" "state_of c' = WAITING_FOR_MOVE"
proof -
  obtain t1 t2 t3 t4 t5 t6 t7 where es: "es =
      [(t1, EvStartTrip), (t2, EvMoveCommand), (t3, tick_event svc), (t4, tick_event svc),
       (t5, EvEngageResponse 1), (t6, EvRouteState RS_ARRIVED), (t7, tick_event svc)]"
    using assms(1) by (auto simp: drive_events_def map_eq_Cons_conv)
  obtain c1 where c1: "startTrip t1 c = Inr (True, c1)" "ctrl_inv c1" "state_of c1 = WAITING_FOR_PICKUP_START"
    "localised c1" "engaging_for_pickup c1"
    using startTrip_ready [OF assms(2,3)] assms(4) by metis
  then have "\<exists>c'. run ctrl_step (tl es) c1 = Inr c' \<and> state_of c' = WAITING_FOR_MOVE"
    unfolding es
    by (simp add: handleMoveCommand_def goToPickup_def tick_event_def tick_def tick_localisation_def
        tick_driving_to_pickup_def onEngageResponse_def localised_def publish_defs transitionTo_def)
  then obtain c' where "run ctrl_step es c = Inr c'" "state_of c' = WAITING_FOR_MOVE"
    using c1(1) unfolding es by auto
  with ctrl.run_inv [OF assms(2)] that show thesis by blast
qed

lemma ride_run:
  assumes "map snd es = ride_events svc" "ctrl_inv c" "state_of c = WAITING_FOR_MOVE"
  obtains c' where "run ctrl_step es c = Inr c'" "ctrl_inv c'" "state_of c' = COMPLETED"
proof -
  obtain t1 t2 t3 t4 where es: "es =
      [(t1, EvMoveCommand), (t2, EvEngageResponse 1), (t3, EvRouteState RS_ARRIVED), (t4, tick_event svc)]"
    using assms(1) by (auto simp: ride_events_def map_eq_Cons_conv)
  obtain c1 where c1: "move t1 c = Inr (True, c1)" "ctrl_inv c1" "state_of c1 = ENGAGING" "\<not> engaging_for_pickup c1"
    using move_accepted [OF assms(2,3), of t1] by metis
  then have "\<exists>c'. run ctrl_step (tl es) c1 = Inr c' \<and> state_of c' = COMPLETED"
    unfolding es
    by (simp add: tick_event_def tick_def tick_running_def onEngageResponse_def publish_defs transitionTo_def)
  then obtain c' where "run ctrl_step es c = Inr c'" "state_of c' = COMPLETED"
    using c1(1) assms(3) unfolding es by (auto simp: handleMoveCommand_def)
  with ctrl.run_inv [OF assms(2)] that show thesis by blast
qed

section \<open>From the query to the destination\<close>

lemma queryEta_resolved:
  assumes "ctrl_inv c" "state_of c = IDLE" "getCurrentVehiclePose tf c = Some pose"
    "nearest_id (tc_map c) pose = Some a" "connected_id (tc_map c) s a True = Some b"
  obtains c' where "queryEta now tf s g cb c = Inr (True, c')" "ctrl_inv c'"
    "state_of c' = QUERY_PUBLISHING_INITIAL_POSE" "current_leg c' = PICKUP" "localised c' = localised c"
    "cache_extends (tc_map c) (tc_map c')" "query_goal_gps c' = g" "goal_lanelet_id (status c') = to_string b"
    "query_cb c' = cb"
proof -
  let ?c1 = "c\<lparr>querying := True, current_leg := PICKUP, query_start_gps := s, query_goal_gps := g,
               query_cb := cb, query_result := default_result, pickup_route := None, trip_route := None\<rparr>"
  have m: "wf_map (tc_map c)" "cache_inv (tc_map c)" using assms(1) by (simp_all add: ctrl_inv_def map_ok_def)
  obtain r m1 where l: "findNearestLane (tc_map c) pose = Inr (r, m1)" "cache_extends (tc_map c) m1"
    "map_option lane_id r = Some a"
    using nearest.lookup_total [OF m TrueI, of pose] assms(4) by metis
  then obtain lane where lane: "r = Some lane" "lane_id lane = a" by auto
  have ids: "a \<in> lane_ids (tc_map c)"
    using nearest.lookup_Inr(6) [OF m TrueI l(1) lane(1)] lane(2) by simp
  have ready: "leg_ready ?c1" using m by (simp add: leg_ready_def map_ok_def)
  have q: "query_from_lane pose ?c1 = Inr (Some lane, m1)"
    using l(1) lane(1) by (simp add: query_from_lane_def)
  obtain m2 st where st: "startQueryLeg now pose s ?c1 =
      Inr (transitionTo now QUERY_PUBLISHING_INITIAL_POSE (?c1\<lparr>tc_map := m2, status := st\<rparr>))"
    "cache_extends (tc_map ?c1) m2"
    "Some (goal_lanelet_id st) = map_option to_string (connected_id (tc_map ?c1) s (lane_id lane) True)"
  proof (rule startQueryLeg_resolved [OF ready q, of s now])
    show "connected_id (tc_map ?c1) s (lane_id lane) True \<noteq> None" using assms(5) lane(2) by simp
  qed (use l(2) lane(2) ids in simp_all)
  let ?c' = "transitionTo now QUERY_PUBLISHING_INITIAL_POSE (?c1\<lparr>tc_map := m2, status := st\<rparr>)"
  have eta: "queryEta now tf s g cb c = Inr (True, ?c')"
    using assms(2,3) st(1) by (simp add: queryEta_def Let_def)
  then have inv: "ctrl_inv ?c'"
    using ctrl.step_Inr [OF assms(1), of "(now, EvQueryEta s g cb tf)" ?c'] by simp
  have "goal_lanelet_id st = to_string b" using st(3) assms(5) lane(2) by simp
  with that eta inv st(2) show thesis by (simp add: localised_def)
qed

text \<open>Both quotes, from \<open>IDLE\<close> to \<open>ROUTES_READY\<close>.\<close>

definition query_events :: "gps_coord \<Rightarrow> gps_coord \<Rightarrow> nat option \<Rightarrow> local_coord option \<Rightarrow> autoware_services
    \<Rightarrow> real \<Rightarrow> real \<Rightarrow> real \<Rightarrow> real \<Rightarrow> ctrl_event list" where
  "query_events s g cb tf svc d1 e1 d2 e2 =
     EvQueryEta s g cb tf # quote_events svc d1 e1 @ quote_events svc d2 e2"

lemma query_run:
  assumes "map snd es = query_events s g cb tf svc d1 e1 d2 e2" "ctrl_inv c" "state_of c = IDLE" "localised c"
    "getCurrentVehiclePose tf c = Some pose" "nearest_id (tc_map c) pose = Some a"
    "connected_id (tc_map c) s a True = Some b" "connected_id (tc_map c) g b True \<noteq> None"
  obtains c' where "run ctrl_step es c = Inr c'" "ctrl_inv c'" "localised c'" "state_of c' = ROUTES_READY"
proof -
  obtain t es1 es2 where es: "es = (t, EvQueryEta s g cb tf) # es1 @ es2"
    "map snd es1 = quote_events svc d1 e1" "map snd es2 = quote_events svc d2 e2"
    using assms(1) by (auto simp: query_events_def map_eq_Cons_conv map_eq_append_conv)
  obtain c1 where c1: "queryEta t tf s g cb c = Inr (True, c1)" "ctrl_inv c1"
    "state_of c1 = QUERY_PUBLISHING_INITIAL_POSE" "current_leg c1 = PICKUP" "localised c1"
    "cache_extends (tc_map c) (tc_map c1)" "query_goal_gps c1 = g" "goal_lanelet_id (status c1) = to_string b"
    using queryEta_resolved [OF assms(2,3,5-7), of t g cb] assms(4) by metis
  obtain c2 where c2: "run ctrl_step es1 c1 = Inr c2" "ctrl_inv c2" "localised c2"
    "state_of c2 = QUERY_PUBLISHING_INITIAL_POSE" "current_leg c2 = TRIP"
  proof (rule quote_pickup [OF es(2) c1(2,3,5,4)])
    show "connected_id (tc_map c1) (query_goal_gps c1) i True \<noteq> None"
      if "goal_lanelet_id (status c1) = to_string i" for i
      using that c1(6-8) assms(8) by (simp add: connected_id_extends)
  qed
  obtain c3 where c3: "run ctrl_step es2 c2 = Inr c3" "ctrl_inv c3" "localised c3" "state_of c3 = ROUTES_READY"
    using quote_trip [OF es(3) c2(2,4,3,5)] by blast
  have "run ctrl_step es c = Inr c3" using es(1) c1(1) c2(1) c3(1) by (simp add: run_append)
  with c3 that show thesis by blast
qed

section \<open>The demo controller along the way\<close>

text \<open>Autoware reports it is localised; the next tick ends the initialisation.\<close>

definition demo_idle :: trip_controller where
  "demo_idle = transitionTo 3000000000 IDLE (demo_ctrl\<lparr>current_loc_state := Some LS_INITIALIZED\<rparr>)"

definition services_up :: autoware_services where
  "services_up = \<lparr>mode_service_ready = True, engage_service_ready = True\<rparr>"

lemma demo_ctrl_state: "state_of demo_ctrl = INITIALIZING_IN_MAP" "tc_map demo_ctrl = demo_map"
  by (simp_all add: demo_ctrl_def booted_state)

lemma demo_idle_facts:
  "state_of demo_idle = IDLE" "localised demo_idle" "tc_map demo_idle = demo_map"
  by (simp_all add: demo_idle_def localised_def demo_ctrl_state)

lemma demo_idle_reachable: "ctrl_reachable demo_idle"
proof -
  have "ctrl_reachable (demo_ctrl\<lparr>current_loc_state := Some LS_INITIALIZED\<rparr>)"
    by (rule next_step [OF demo_ctrl_reachable, of "(2000000000, EvLocState LS_INITIALIZED)"]) simp
  then show ?thesis
    by (rule next_step [where e = "(3000000000, EvTick services_up None)"])
       (simp add: demo_idle_def tick_def demo_ctrl_state tick_initializing_def localised_def)
qed

lemma demo_idle_inv: "ctrl_inv demo_idle"
  by (rule ctrl.reachable_inv) (rule demo_idle_reachable)

text \<open>The vehicle stands five metres along the first lane.\<close>

lemma demo_pose: "getCurrentVehiclePose (Some (pt 5 0)) demo_idle = Some (axis_gps 5)"
  by (simp add: getCurrentVehiclePose_def demo_idle_facts localToGps_def demo_projector_def axis_gps_def)

lemma demo_resolves:
  "nearest_id (tc_map demo_idle) (axis_gps 5) = Some 1"
  "connected_id (tc_map demo_idle) (axis_gps 15) 1 True = Some 1"
  "connected_id (tc_map demo_idle) (axis_gps 30) 1 True \<noteq> None"
  by (simp_all add: demo_idle_facts demo_nearest demo_connected)

definition demo_query_events :: "timed_event list" where
  "demo_query_events =
     map (\<lambda>e. (4000000000, e))
       (query_events (axis_gps 15) (axis_gps 30) (Some 7) (Some (pt 5 0)) services_up 12 3 18 4)"

lemma map_snd_timed [simp]: "map snd (map (\<lambda>e. (t, e)) es) = es"
  by (induction es) auto

lemma demo_ready:
  obtains c where "run ctrl_step demo_query_events demo_idle = Inr c" "ctrl_reachable c" "ctrl_inv c" "localised c"
    "state_of c = ROUTES_READY"
proof -
  have es: "map snd demo_query_events =
      query_events (axis_gps 15) (axis_gps 30) (Some 7) (Some (pt 5 0)) services_up 12 3 18 4"
    by (simp only: demo_query_events_def map_snd_timed)
  obtain c where "run ctrl_step demo_query_events demo_idle = Inr c" "ctrl_inv c" "localised c"
    "state_of c = ROUTES_READY"
    by (rule query_run [OF es demo_idle_inv demo_idle_facts(1,2) demo_pose demo_resolves])
  with run_reachable [OF demo_idle_reachable] that show thesis by blast
qed

lemma demo_waiting:
  obtains c where "ctrl_reachable c" "ctrl_inv c" "state_of c = WAITING_FOR_MOVE"
proof -
  obtain c0 where c0: "ctrl_reachable c0" "ctrl_inv c0" "localised c0" "state_of c0 = ROUTES_READY"
    using demo_ready by blast
  obtain c where "run ctrl_step (map (\<lambda>e. (0, e)) (drive_events services_up)) c0 = Inr c"
    "ctrl_inv c" "state_of c = WAITING_FOR_MOVE"
    using drive_run [OF map_snd_timed c0(2,4,3)] by blast
  with run_reachable [OF c0(1)] that show thesis by blast
qed

end
