(* ===== verification/TripDeadline.thy ===== *)
theory TripDeadline
  imports TripReplies
begin

text \<open>
  A query ends in bounded time. The controller learns of time only through its ticks, so the
  bound is in terms of the tick period: each of the five stages of a leg is left by the first
  tick after its timeout, and there are two legs.
\<close>

section \<open>Budgets\<close>

text \<open>The longest time, in nanoseconds, from entering a stage to the end of its leg.\<close>

fun leg_budget :: "trip_timings \<Rightarrow> int \<Rightarrow> trip_state \<Rightarrow> int" where
  "leg_budget tm P QUERY_READING_ETA = eta_settle_ms tm * 1000000 + P"
| "leg_budget tm P QUERY_WAITING_ROUTE =
     route_timeout_ms tm * 1000000 + P + (eta_settle_ms tm * 1000000 + P)"
| "leg_budget tm P QUERY_PUBLISHING_GOAL =
     P + (route_timeout_ms tm * 1000000 + P + (eta_settle_ms tm * 1000000 + P))"
| "leg_budget tm P QUERY_WAITING_LOCALISATION =
     loc_timeout_ms tm * 1000000 + P +
     (P + (route_timeout_ms tm * 1000000 + P + (eta_settle_ms tm * 1000000 + P)))"
| "leg_budget tm P QUERY_PUBLISHING_INITIAL_POSE =
     P + (loc_timeout_ms tm * 1000000 + P +
     (P + (route_timeout_ms tm * 1000000 + P + (eta_settle_ms tm * 1000000 + P))))"
| "leg_budget tm P _ = 0"

definition query_budget :: "trip_timings \<Rightarrow> int \<Rightarrow> query_leg \<Rightarrow> trip_state \<Rightarrow> int" where
  "query_budget tm P leg s =
     leg_budget tm P s + (if leg = PICKUP then leg_budget tm P QUERY_PUBLISHING_INITIAL_POSE else 0)"

text \<open>How long a stage may last before a tick ends it.\<close>

fun stage_timeout :: "trip_timings \<Rightarrow> trip_state \<Rightarrow> int" where
  "stage_timeout tm QUERY_WAITING_LOCALISATION = loc_timeout_ms tm * 1000000"
| "stage_timeout tm QUERY_WAITING_ROUTE = route_timeout_ms tm * 1000000"
| "stage_timeout tm QUERY_READING_ETA = eta_settle_ms tm * 1000000"
| "stage_timeout tm _ = 0"

definition good_timings :: "trip_timings \<Rightarrow> bool" where
  "good_timings tm \<longleftrightarrow> 0 < loc_timeout_ms tm \<and> 0 < route_timeout_ms tm \<and> 0 < eta_settle_ms tm"

definition quoting :: "trip_controller \<Rightarrow> bool" where
  "quoting c \<longleftrightarrow> phase_of (state_of c) = Quoting"

definition deadline :: "int \<Rightarrow> trip_controller \<Rightarrow> time_point" where
  "deadline P c = state_entered_at c + query_budget (timings c) P (current_leg c) (state_of c)"

section \<open>Events between ticks\<close>

fun is_tick :: "ctrl_event \<Rightarrow> bool" where
  "is_tick (EvTick _ _) \<longleftrightarrow> True"
| "is_tick _ \<longleftrightarrow> False"

definition same_stage :: "trip_controller \<Rightarrow> trip_controller \<Rightarrow> bool" where
  "same_stage c c' \<longleftrightarrow> state_of c' = state_of c \<and> state_entered_at c' = state_entered_at c \<and>
     current_leg c' = current_leg c \<and> timings c' = timings c"

lemma same_stage_emit [simp]: "same_stage c (emit e c)"
  by (simp add: same_stage_def emit_def)

lemma same_stage_reply_now [simp]: "same_stage c (reply_now cb r c)"
  by (simp add: reply_now_def same_stage_def emit_def split: option.splits)

lemma quoting_states:
  "quoting c \<Longrightarrow> state_of c \<notin> {IDLE, ROUTES_READY, WAITING_FOR_PICKUP_START, WAITING_FOR_MOVE, ENGAGING}"
  by (auto simp: quoting_def)

text \<open>A rejected \<open>startTrip\<close> still re-arms the engagement for the pickup and forgets the route state.\<close>

lemma startTrip_rejected:
  "state_of c \<notin> {IDLE, ROUTES_READY} \<Longrightarrow>
     startTrip now c = Inr (False, c\<lparr>engaging_for_pickup := True, current_route_state := None\<rparr>)"
  by (simp add: startTrip_def Let_def split: option.splits)

lemma untimed_step_same_stage:
  assumes "quoting c" "ctrl_step (now, e) c = Inr c'" "\<not> is_tick e" "e \<noteq> EvCancel"
  shows "same_stage c c'"
proof (cases e)
  case (EvQueryEta s g cb tf)
  with assms quoting_states [OF assms(1)] show ?thesis by (auto simp: queryEta_def)
next
  case EvStartTrip
  with assms quoting_states [OF assms(1)] show ?thesis
    by (auto simp: startTrip_rejected same_stage_def)
qed (use assms quoting_states [OF assms(1)] in \<open>auto simp: handleMoveCommand_def goToPickup_def
       move_def onRouteReceived_def injectEta_def onModeResponse_def onEngageResponse_def same_stage_def emit_def\<close>)

section \<open>A tick stays only while the stage's time lasts\<close>

lemma elapsed_ms_ge: "0 < k \<Longrightarrow> k \<le> elapsed_ms now since \<longleftrightarrow> since + k * 1000000 \<le> now"
  by (auto simp: elapsed_ms_def duration_cast_ms_ge)

lemma same_stage_publish [simp]:
  "state_entered_at (publish_init c) = state_entered_at c" "state_entered_at (publish_start c) = state_entered_at c"
  "state_entered_at (publish_goal c) = state_entered_at c"
  "current_leg (publish_start c) = current_leg c" "current_leg (publish_goal c) = current_leg c"
  by (simp_all add: publish_defs)

lemma entered_republish [simp]:
  "state_entered_at (p c) = state_entered_at c \<Longrightarrow> state_entered_at (republish now ms p c) = state_entered_at c"
  "current_leg (p c) = current_leg c \<Longrightarrow> current_leg (republish now ms p c) = current_leg c"
  "timings (p c) = timings c \<Longrightarrow> timings (republish now ms p c) = timings c"
  by (simp_all add: republish_def)

definition moved_on :: "time_point \<Rightarrow> int \<Rightarrow> trip_controller \<Rightarrow> trip_controller \<Rightarrow> bool" where
  "moved_on now P c c' \<longleftrightarrow>
     timings c' = timings c \<and>
     (quoting c' \<longrightarrow>
        same_stage c c' \<and> now < state_entered_at c + stage_timeout (timings c) (state_of c) \<or>
        state_entered_at c' = now \<and>
        query_budget (timings c) P (current_leg c') (state_of c') + (stage_timeout (timings c) (state_of c) + P)
          \<le> query_budget (timings c) P (current_leg c) (state_of c))"

lemma not_quoting_failQuery [simp]: "\<not> quoting (failQuery now r c)"
  by (simp add: quoting_def)

lemma startQueryLeg_moved:
  assumes "startQueryLeg now f t c = Inr c'"
  shows "timings c' = timings c"
    "quoting c' \<Longrightarrow> state_of c \<noteq> QUERY_PUBLISHING_INITIAL_POSE \<Longrightarrow>
       state_of c' = QUERY_PUBLISHING_INITIAL_POSE \<and> state_entered_at c' = now \<and> current_leg c' = current_leg c"
  using assms
  by (auto simp: startQueryLeg_def transitionTo_entered set_leg_status_def Let_def
      split: sum.splits prod.splits option.splits)

lemma finishQueryLeg_moved:
  assumes "state_of c = QUERY_READING_ETA" "finishQueryLeg now c = Inr c'"
  shows "moved_on now P c c'"
proof (cases "current_leg c")
  case PICKUP
  with assms have "finish_pickup_leg now c = Inr c'" by (simp add: finishQueryLeg_def)
  then obtain i where
    "startQueryLeg now (query_start_gps c) (query_goal_gps c)
       (c\<lparr>query_result := (query_result c)\<lparr>pickup_leg := current_leg_eta c\<rparr>,
          pickup_route := Some (current_held_route (query_start_gps c) i
             (c\<lparr>query_result := (query_result c)\<lparr>pickup_leg := current_leg_eta c\<rparr>\<rparr>)),
          current_leg := TRIP, current_route_state := None, route_received := False\<rparr>) = Inr c'"
    by (auto simp: finish_pickup_leg_def Let_def split: sum.splits)
  from startQueryLeg_moved [OF this] assms(1) PICKUP show ?thesis
    by (auto simp: moved_on_def query_budget_def)
next
  case TRIP
  with assms show ?thesis
    by (auto simp: finishQueryLeg_def moved_on_def quoting_def finish_trip_leg_def Let_def)
qed


lemma tick_moved:
  assumes "good_timings (timings c)" "0 \<le> P" "quoting c" "tick svc now c = Inr c'"
  shows "moved_on now P c c'"
proof -
  have t: "0 < loc_timeout_ms (timings c)" "0 < route_timeout_ms (timings c)" "0 < eta_settle_ms (timings c)"
    using assms(1) by (simp_all add: good_timings_def)
  show ?thesis
  proof (cases "state_of c")
    case QUERY_PUBLISHING_INITIAL_POSE
    with assms(4) show ?thesis
      by (auto simp: tick_def moved_on_def transitionTo_entered query_budget_def)
  next
    case QUERY_WAITING_LOCALISATION
    with assms(4) t show ?thesis
      by (auto simp: tick_def tick_query_localisation_def Let_def moved_on_def same_stage_def
          transitionTo_entered query_budget_def elapsed_ms_ge not_le split: if_splits)
  next
    case QUERY_PUBLISHING_GOAL
    with assms(4) show ?thesis
      by (auto simp: tick_def moved_on_def transitionTo_entered query_budget_def)
  next
    case QUERY_WAITING_ROUTE
    with assms(4) t show ?thesis
      by (auto simp: tick_def tick_query_route_def Let_def moved_on_def same_stage_def
          transitionTo_entered query_budget_def elapsed_ms_ge not_le split: if_splits)
  next
    case QUERY_READING_ETA
    have fin: "moved_on now P c c'" if "finishQueryLeg now c1 = Inr c'" "timings c1 = timings c"
      "state_of c1 = state_of c" "state_entered_at c1 = state_entered_at c" "current_leg c1 = current_leg c" for c1
      using finishQueryLeg_moved [OF _ that(1), of P] that QUERY_READING_ETA
      by (auto simp: moved_on_def same_stage_def)
    show ?thesis
    proof (cases "eta_received c \<or> eta_settle_ms (timings c) \<le> elapsed_ms now (state_entered_at c)")
      case True
      with assms(4) QUERY_READING_ETA show ?thesis
        by (auto simp: tick_def tick_query_eta_def intro: fin split: if_splits)
    next
      case False
      with assms(4) QUERY_READING_ETA t show ?thesis
        by (auto simp: tick_def tick_query_eta_def moved_on_def same_stage_def elapsed_ms_ge not_le split: if_splits)
    qed
  qed (use assms(3) in \<open>simp_all add: quoting_def\<close>)
qed

lemma onTick_moved:
  assumes "good_timings (timings c)" "0 \<le> P" "quoting c" "onTick svc tf now c = Inr c'"
  shows "moved_on now P c c'"
proof (cases "getCurrentVehiclePose tf c")
  case None
  with assms tick_moved [of c P svc now c'] show ?thesis by (simp add: onTick_def)
next
  case (Some g)
  have "same_stage c (setCurrentGps g c)" by (simp add: same_stage_def setCurrentGps_def)
  with Some assms tick_moved [of "setCurrentGps g c" P svc now c'] show ?thesis
    by (auto simp: onTick_def moved_on_def same_stage_def quoting_def)
qed

section \<open>Paced runs\<close>

text \<open>No two consecutive ticks are more than \<open>P\<close> nanoseconds apart, the first counted from \<open>prev\<close>.\<close>

fun paced :: "int \<Rightarrow> time_point \<Rightarrow> timed_event list \<Rightarrow> bool" where
  "paced P prev [] \<longleftrightarrow> True"
| "paced P prev ((now, e) # es) \<longleftrightarrow>
     (if is_tick e then now \<le> prev + P \<and> paced P now es else paced P prev es)"

fun last_tick :: "time_point \<Rightarrow> timed_event list \<Rightarrow> time_point" where
  "last_tick prev [] = prev"
| "last_tick prev ((now, e) # es) = last_tick (if is_tick e then now else prev) es"

text \<open>The last tick did not end the current stage.\<close>

definition stage_open :: "time_point \<Rightarrow> trip_controller \<Rightarrow> bool" where
  "stage_open prev c \<longleftrightarrow>
     prev \<le> state_entered_at c \<or> prev < state_entered_at c + stage_timeout (timings c) (state_of c)"

lemma stage_timeout_nonneg: "good_timings tm \<Longrightarrow> 0 \<le> stage_timeout tm s"
  by (cases s) (simp_all add: good_timings_def)

lemma stage_budget:
  assumes "good_timings (timings c)" "0 \<le> P" "quoting c"
  shows "stage_timeout (timings c) (state_of c) + P \<le> query_budget (timings c) P (current_leg c) (state_of c)"
  using assms by (cases "state_of c") (auto simp: query_budget_def quoting_def good_timings_def)

lemma open_before_deadline:
  assumes "good_timings (timings c)" "0 < P" "quoting c" "stage_open prev c"
  shows "prev < deadline P c"
  using stage_budget [of c P] stage_timeout_nonneg [OF assms(1), of "state_of c"] assms
  by (auto simp: deadline_def stage_open_def)

lemma tick_deadline:
  assumes "good_timings (timings c)" "0 < P" "quoting c" "stage_open prev c" "now \<le> prev + P"
    "onTick svc tf now c = Inr c'" "quoting c'"
  shows "stage_open now c' \<and> deadline P c' \<le> deadline P c \<and> timings c' = timings c"
proof -
  have m: "moved_on now P c c'" using onTick_moved [of c P svc tf now c'] assms by simp
  have "now \<le> state_entered_at c + stage_timeout (timings c) (state_of c) + P"
    using assms(4,5) stage_timeout_nonneg [OF assms(1), of "state_of c"] by (auto simp: stage_open_def)
  with m assms(7) show ?thesis by (auto simp: moved_on_def same_stage_def stage_open_def deadline_def)
qed

lemma quoting_ends:
  assumes "ctrl_inv c" "good_timings (timings c)" "0 < P" "quoting c" "stage_open prev c"
    "paced P prev es" "EvCancel \<notin> snd ` set es" "deadline P c \<le> last_tick prev es"
  shows "\<exists>es1 es2 c'. es = es1 @ es2 \<and> run ctrl_step es1 c = Inr c' \<and> \<not> quoting c'"
  using assms
proof (induction es arbitrary: c prev)
  case Nil
  then show ?case using open_before_deadline [of c P prev] by simp
next
  case (Cons ev es)
  obtain now e where ev: "ev = (now, e)" by (cases ev)
  from ctrl.step_inv [OF Cons.prems(1), of ev] obtain c1
    where c1: "ctrl_step (now, e) c = Inr c1" "ctrl_inv c1" by (auto simp: ev)
  show ?case
  proof (cases "quoting c1")
    case False
    with c1 ev show ?thesis by (intro exI [of _ "[ev]"] exI [of _ es] exI [of _ c1]) simp
  next
    case True
    let ?prev = "if is_tick e then now else prev"
    have "stage_open ?prev c1 \<and> deadline P c1 \<le> deadline P c \<and> timings c1 = timings c"
    proof (cases "is_tick e")
      case tick: True
      then obtain svc tf where "e = EvTick svc tf" by (cases e) auto
      with tick_deadline [OF Cons.prems(2-5) _ _ True] c1(1) tick Cons.prems(6) ev show ?thesis by auto
    next
      case untimed: False
      with untimed_step_same_stage [OF Cons.prems(4) c1(1)] Cons.prems(5,7) ev show ?thesis
        by (auto simp: same_stage_def stage_open_def deadline_def)
    qed
    then obtain es1 es2 c' where "es = es1 @ es2" "run ctrl_step es1 c1 = Inr c'" "\<not> quoting c'"
      using Cons.IH [of c1 ?prev] c1 True Cons.prems ev by (auto split: if_splits)
    with c1(1) ev show ?thesis by (intro exI [of _ "ev # es1"] exI [of _ es2] exI [of _ c']) simp
  qed
qed

end
