(* ===== verification/TripEffects.thy ===== *)
theory TripEffects
  imports TripInvariant
begin

text \<open>
  What a step may do to the outside: every effect an event adds to the outbox is accounted
  for by the event and the state it found.
\<close>

section \<open>Justified effects\<close>

text \<open>
  A mode change is requested only from a tick while engaging, with both services ready, the
  autonomous mode not known to be unavailable, and at least two seconds after the last
  attempt; the vehicle is engaged only after a successful mode change; an arrival is
  announced only when Autoware reports one on that leg; a reply goes to the callback that is
  owed one; a reported transition is one to the state the step ends in.
\<close>

fun justified :: "timed_event \<Rightarrow> trip_controller \<Rightarrow> trip_controller \<Rightarrow> effect \<Rightarrow> bool" where
  "justified (now, e) c c' ModeRequest \<longleftrightarrow>
     (\<exists>svc tf. e = EvTick svc tf \<and> mode_service_ready svc \<and> engage_service_ready svc) \<and>
     state_of c = ENGAGING \<and> last_publish_time c + 2000 * 1000000 \<le> now \<and>
     (\<forall>ms. current_mode_state c = Some ms \<longrightarrow> is_autonomous_mode_available ms)"
| "justified (now, e) c c' EngageRequest \<longleftrightarrow> e = EvModeResponse True"
| "justified (now, e) c c' PickupArrived \<longleftrightarrow>
     state_of c = DRIVING_TO_PICKUP \<and> current_route_state c = Some RS_ARRIVED \<and> state_of c' = WAITING_FOR_MOVE"
| "justified (now, e) c c' DropoffArrived \<longleftrightarrow>
     state_of c = RUNNING \<and> current_route_state c = Some RS_ARRIVED \<and> state_of c' = COMPLETED"
| "justified (now, e) c c' (QueryReply k r) \<longleftrightarrow>
     query_cb c = Some k \<or> (\<exists>s g tf. e = EvQueryEta s g (Some k) tf)"
| "justified (now, e) c c' (StateChanged p n st) \<longleftrightarrow> n = state_of c' \<and> p \<noteq> n \<and> st_state st = n"
| "justified (now, e) c c' (InitialPose p cov) \<longleftrightarrow> frame_id p = ''map''"
| "justified (now, e) c c' (Goal p) \<longleftrightarrow> frame_id p = ''map''"

definition adds :: "(effect \<Rightarrow> bool) \<Rightarrow> trip_controller \<Rightarrow> trip_controller \<Rightarrow> bool" where
  "adds P c c' \<longleftrightarrow> (\<exists>es. outbox c' = outbox c @ es \<and> (\<forall>x \<in> set es. P x))"

lemma adds_refl [simp]: "adds P c c"
  by (simp add: adds_def)

lemma adds_trans: "adds P c c' \<Longrightarrow> adds P c' c'' \<Longrightarrow> adds P c c''"
  unfolding adds_def by fastforce

lemma adds_mono: "adds P c c' \<Longrightarrow> (\<And>x. P x \<Longrightarrow> Q x) \<Longrightarrow> adds Q c c'"
  unfolding adds_def by blast

text \<open>Fields other than the outbox do not matter.\<close>

lemma adds_outbox: "outbox d = outbox c \<Longrightarrow> adds P d c' = adds P c c'"
  by (simp add: adds_def)

lemma adds_none: "outbox c' = outbox c \<Longrightarrow> adds P c c'"
  by (simp add: adds_def)

lemma adds_flags [simp]:
  "adds P c (d\<lparr>eta_received := b\<rparr>) = adds P c d" "adds P c (d\<lparr>current_route_state := r\<rparr>) = adds P c d"
  "adds P c (d\<lparr>route_received := b\<rparr>) = adds P c d" "adds P c (d\<lparr>engaging_for_pickup := b\<rparr>) = adds P c d"
  "adds P c (d\<lparr>last_publish_time := t\<rparr>) = adds P c d" "adds P c (d\<lparr>tc_map := m\<rparr>) = adds P c d"
  "adds P c (d\<lparr>status := st\<rparr>) = adds P c d"
  by (simp_all add: adds_def)

lemma adds_transitionTo:
  assumes "adds P c c1" "\<And>st. state_of c1 \<noteq> s \<Longrightarrow> st_state st = s \<Longrightarrow> P (StateChanged (state_of c1) s st)"
  shows "adds P c (transitionTo now s c1)"
  using assms by (auto simp: adds_def transitionTo_outbox)

lemma frame_map_pose [simp]: "frame_id (map_pose x y z qz qw) = ''map''"
  by (simp add: map_pose_def)

lemma publish_outbox:
  "\<exists>p cov. outbox (publish_init c) = outbox c @ [InitialPose p cov] \<and> frame_id p = ''map''"
  "\<exists>p cov. outbox (publish_start c) = outbox c @ [InitialPose p cov] \<and> frame_id p = ''map''"
  "\<exists>p. outbox (publish_goal c) = outbox c @ [Goal p] \<and> frame_id p = ''map''"
  "\<exists>p. outbox (publish_start_as_goal c) = outbox c @ [Goal p] \<and> frame_id p = ''map''"
  by (auto simp: publish_defs)

lemma adds_publish [simp]:
  "adds (justified ev d d') c (publish_init c)" "adds (justified ev d d') c (publish_start c)"
  "adds (justified ev d d') c (publish_goal c)" "adds (justified ev d d') c (publish_start_as_goal c)"
  using publish_outbox [of c] by (cases ev; auto simp: adds_def)+

lemma adds_republish: "adds P c (p c) \<Longrightarrow> adds P c (republish now ms p c)"
  by (simp add: republish_def adds_def)

lemma adds_failQuery:
  "(\<And>k r. query_cb c = Some k \<Longrightarrow> P (QueryReply k r)) \<Longrightarrow> adds P c (failQuery now reason c)"
  by (cases "query_cb c") (simp_all add: adds_def failQuery_outbox)

section \<open>The operations\<close>

lemma startQueryLeg_effects:
  assumes "startQueryLeg now f t c = Inr c'" "\<And>k r. query_cb c = Some k \<Longrightarrow> P (QueryReply k r)"
    "\<And>p st. p \<noteq> state_of c' \<Longrightarrow> st_state st = state_of c' \<Longrightarrow> P (StateChanged p (state_of c') st)"
  shows "adds P c c'"
proof -
  have fail: "adds P c (failQuery now reason (c\<lparr>tc_map := m\<rparr>))" for reason m
    using adds_failQuery [of "c\<lparr>tc_map := m\<rparr>" P now reason] assms(2) by (simp add: adds_def)
  have "adds P c (transitionTo now QUERY_PUBLISHING_INITIAL_POSE (c\<lparr>tc_map := m, status := st\<rparr>))"
    if "state_of c' = QUERY_PUBLISHING_INITIAL_POSE" for m st
    using assms(3) that by (intro adds_transitionTo) (simp_all add: adds_none)
  with fail assms(1) show ?thesis
    by (auto simp: startQueryLeg_def split: sum.splits prod.splits option.splits)
qed

lemma finishQueryLeg_effects:
  assumes "finishQueryLeg now c = Inr c'" "\<And>k r. query_cb c = Some k \<Longrightarrow> P (QueryReply k r)"
    "\<And>p st. p \<noteq> state_of c' \<Longrightarrow> st_state st = state_of c' \<Longrightarrow> P (StateChanged p (state_of c') st)"
  shows "adds P c c'"
proof (cases "current_leg c")
  case PICKUP
  with assms(1) obtain i where "startQueryLeg now (query_start_gps c) (query_goal_gps c)
       (c\<lparr>query_result := (query_result c)\<lparr>pickup_leg := current_leg_eta c\<rparr>,
          pickup_route := Some (current_held_route (query_start_gps c) i
             (c\<lparr>query_result := (query_result c)\<lparr>pickup_leg := current_leg_eta c\<rparr>\<rparr>)),
          current_leg := TRIP, current_route_state := None, route_received := False\<rparr>) = Inr c'"
    by (auto simp: finishQueryLeg_def finish_pickup_leg_def Let_def split: sum.splits)
  from startQueryLeg_effects [OF this, of P] assms(2,3) show ?thesis by (simp add: adds_def)
next
  case TRIP
  with assms(1) have c': "c' = finish_trip_leg now c" by (simp add: finishQueryLeg_def)
  show ?thesis
    unfolding c' finish_trip_leg_def Let_def
    using assms(2) assms(3) [unfolded c']
    by (intro adds_transitionTo) (auto simp: adds_def split: option.splits)
qed

lemma doEngage_effects:
  "(mode_service_ready svc \<Longrightarrow> engage_service_ready svc \<Longrightarrow>
      (\<forall>ms. current_mode_state c = Some ms \<longrightarrow> is_autonomous_mode_available ms) \<Longrightarrow> P ModeRequest) \<Longrightarrow>
     adds P c (doEngage svc c)"
  by (auto simp: doEngage_def adds_def emit_def split: option.splits)

lemma elapsed_2s: "2000 \<le> elapsed_ms now since \<longleftrightarrow> since + 2000 * 1000000 \<le> now"
  by (auto simp: elapsed_ms_def duration_cast_ms_ge)

lemma tick_effects:
  assumes "tick svc now c = Inr c'"
  shows "adds (justified (now, EvTick svc tf) c c') c c'"
proof (cases "state_of c")
  case INITIALIZING_IN_MAP
  with assms show ?thesis
    by (auto simp: tick_def tick_initializing_def intro!: adds_republish adds_transitionTo)
next
  case QUERY_PUBLISHING_INITIAL_POSE
  with assms show ?thesis by (auto simp: tick_def intro!: adds_transitionTo)
next
  case QUERY_WAITING_LOCALISATION
  have "adds P c (failQuery now r (republish now 1000 publish_start c))"
    if "adds P c (publish_start c)" "\<And>k r. query_cb c = Some k \<Longrightarrow> P (QueryReply k r)" for P r
    using that by (intro adds_trans [OF adds_republish adds_failQuery]) (simp_all add: publish_defs)
  with QUERY_WAITING_LOCALISATION assms show ?thesis
    by (auto simp: tick_def tick_query_localisation_def Let_def intro!: adds_republish adds_transitionTo)
next
  case QUERY_PUBLISHING_GOAL
  with assms show ?thesis
    using adds_publish(3) [of "(now, EvTick svc tf)" c c' c]
    by (auto simp: tick_def adds_def transitionTo_outbox)
next
  case QUERY_WAITING_ROUTE
  have "adds P c (failQuery now r (republish now 2000 publish_goal c))"
    if "adds P c (publish_goal c)" "\<And>k r. query_cb c = Some k \<Longrightarrow> P (QueryReply k r)" for P r
    using that by (intro adds_trans [OF adds_republish adds_failQuery]) (simp_all add: publish_defs)
  with QUERY_WAITING_ROUTE assms show ?thesis
    by (auto simp: tick_def tick_query_route_def Let_def intro!: adds_republish adds_transitionTo)
next
  case QUERY_READING_ETA
  let ?P = "justified (now, EvTick svc tf) c c'"
  have fin: "adds ?P c c'" if "finishQueryLeg now c1 = Inr c'" "outbox c1 = outbox c" "query_cb c1 = query_cb c" for c1
    using finishQueryLeg_effects [OF that(1), of ?P] that(2,3) by (simp add: adds_def)
  from QUERY_READING_ETA assms show ?thesis
    by (auto simp: tick_def tick_query_eta_def intro: fin split: if_splits)
next
  case PUBLISHING_INITIAL_POSE
  with assms show ?thesis by (auto simp: tick_def intro!: adds_transitionTo)
next
  case WAITING_LOCALISATION
  with assms show ?thesis
    by (auto simp: tick_def tick_localisation_def intro!: adds_republish adds_transitionTo)
next
  case ENGAGING
  let ?P = "justified (now, EvTick svc tf) c c'"
  have "adds ?P c (doEngage svc c)" if "2000 \<le> elapsed_ms now (last_publish_time c)"
    using that ENGAGING by (intro doEngage_effects) (simp add: elapsed_2s)
  with ENGAGING assms show ?thesis by (auto simp: tick_def republish_def)
next
  case DRIVING_TO_PICKUP
  with assms show ?thesis
    by (auto simp: tick_def tick_driving_to_pickup_def Let_def adds_def transitionTo_outbox emit_def split: if_splits)
next
  case RUNNING
  with assms show ?thesis
    by (auto simp: tick_def tick_running_def Let_def adds_def transitionTo_outbox emit_def split: if_splits)
qed (use assms in \<open>simp_all add: tick_def\<close>)


lemma onTick_effects:
  assumes "onTick svc tf now c = Inr c'"
  shows "adds (justified (now, EvTick svc tf) c c') c c'"
proof (cases "getCurrentVehiclePose tf c")
  case None
  with assms tick_effects show ?thesis by (simp add: onTick_def)
next
  case (Some g)
  have same: "justified (now, EvTick svc tf) (setCurrentGps g c) c' x = justified (now, EvTick svc tf) c c' x" for x
    by (cases x) (simp_all add: setCurrentGps_def)
  have "adds (justified (now, EvTick svc tf) (setCurrentGps g c) c') (setCurrentGps g c) c'"
    using assms Some by (intro tick_effects) (simp add: onTick_def)
  then show ?thesis
    unfolding same by (simp add: adds_def setCurrentGps_def)
qed

lemma queryEta_effects:
  assumes "queryEta now tf s g cb c = Inr (ok, c')" "query_cb c = None \<or> state_of c \<noteq> IDLE"
  shows "adds (justified (now, EvQueryEta s g cb tf) c c') c c'"
proof (cases "state_of c = IDLE \<and> getCurrentVehiclePose tf c \<noteq> None")
  case False
  then obtain r where "c' = reply_now cb r c"
    using assms(1) by (auto simp: queryEta_def split: if_splits option.splits)
  then show ?thesis by (auto simp: reply_now_def adds_def emit_def split: option.splits)
next
  case True
  let ?P = "justified (now, EvQueryEta s g cb tf) c c'"
  obtain pose where "startQueryLeg now pose s (c\<lparr>querying := True, current_leg := PICKUP, query_start_gps := s,
       query_goal_gps := g, query_cb := cb, query_result := default_result,
       pickup_route := None, trip_route := None\<rparr>) = Inr c'"
    using True assms(1) by (auto simp: queryEta_def Let_def split: sum.splits)
  from startQueryLeg_effects [OF this, of ?P] show ?thesis by (simp add: adds_def)
qed

lemma adds_transitionTo_same:
  "state_of c' = s \<Longrightarrow> adds (justified ev d c') c c1 \<Longrightarrow> adds (justified ev d c') c (transitionTo now s c1)"
  by (cases ev) (auto intro!: adds_transitionTo)

lemma startTrip_effects:
  "startTrip now c = Inr (ok, c') \<Longrightarrow> adds (justified ev c c') c c'"
  by (auto simp: startTrip_def Let_def split: sum.splits prod.splits option.splits if_splits
      intro!: adds_transitionTo_same)

lemma goToPickup_effects:
  "c' = snd (goToPickup now c) \<Longrightarrow> adds (justified ev c c') c c'"
  by (auto simp: goToPickup_def intro!: adds_transitionTo_same)

lemma adds_publish_goal:
  "outbox c1 = outbox c \<Longrightarrow> adds (justified ev d d') c (publish_goal c1)"
  using adds_publish(3) [of ev d d' c1] by (simp add: adds_def)

lemma move_effects:
  "move now c = Inr (ok, c') \<Longrightarrow> adds (justified ev c c') c c'"
  by (auto simp: move_def Let_def split: sum.splits prod.splits option.splits if_splits
      intro!: adds_transitionTo_same adds_publish_goal)

lemma cancel_effects: "c' = cancel now c \<Longrightarrow> adds (justified ev c c') c c'"
  by (cases ev) (auto simp: cancel_def Let_def doPublishInitialPose_def emit_def adds_def transitionTo_outbox
      split: option.splits)

lemma step_effects:
  assumes "ctrl_inv c" "ctrl_step (now, e) c = Inr c'"
  shows "adds (justified (now, e) c c') c c'"
proof (cases e)
  case (EvQueryEta s g cb tf)
  with assms(2) obtain ok where q: "queryEta now tf s g cb c = Inr (ok, c')" using map_snd_InrD by fastforce
  have "query_cb c = None \<or> state_of c \<noteq> IDLE"
    using assms(1) by (auto simp: ctrl_inv_def idle_inv_def)
  with queryEta_effects [OF q] EvQueryEta show ?thesis by simp
next
  case EvStartTrip
  with assms(2) show ?thesis by (auto dest!: map_snd_InrD intro: startTrip_effects)
next
  case EvMoveCommand
  with assms(2) show ?thesis
    by (auto dest!: map_snd_InrD simp: handleMoveCommand_def intro: move_effects goToPickup_effects split: if_splits)
next
  case EvMove
  with assms(2) show ?thesis by (auto dest!: map_snd_InrD intro: move_effects)
next
  case (EvModeResponse ok)
  with assms(2) show ?thesis by (auto simp: onModeResponse_def adds_def emit_def)
next
  case (EvEngageResponse code)
  with assms(2) show ?thesis
    by (auto simp: onEngageResponse_def intro!: adds_transitionTo_same split: if_splits)
qed (use assms(2) in \<open>auto intro: onTick_effects goToPickup_effects cancel_effects
       simp: onRouteReceived_def injectEta_def adds_none\<close>)

section \<open>What an observer of the state sees\<close>

definition reports :: "trip_state \<Rightarrow> trip_controller \<Rightarrow> trip_controller \<Rightarrow> bool" where
  "reports s c c' \<longleftrightarrow> (\<exists>es p st. outbox c' = outbox c @ es \<and> StateChanged p s st \<in> set es \<and> st_state st = s)"

definition told :: "trip_controller \<Rightarrow> trip_controller \<Rightarrow> bool" where
  "told c c' \<longleftrightarrow> state_of c' = state_of c \<or> state_of c' = IDLE \<or> reports (state_of c') c c'"

definition extends :: "trip_controller \<Rightarrow> trip_controller \<Rightarrow> bool" where
  "extends c c1 \<longleftrightarrow> (\<exists>es. outbox c1 = outbox c @ es) \<and> on_state_change c1 = on_state_change c"

lemma extends_simps [simp]:
  "extends c c"
  "extends c (c1\<lparr>status := st\<rparr>) = extends c c1" "extends c (c1\<lparr>tc_map := m\<rparr>) = extends c c1"
  "extends c (c1\<lparr>current_route_state := r\<rparr>) = extends c c1" "extends c (c1\<lparr>route_received := b\<rparr>) = extends c c1"
  "extends c (c1\<lparr>eta_received := b\<rparr>) = extends c c1" "extends c (c1\<lparr>engaging_for_pickup := b\<rparr>) = extends c c1"
  by (simp_all add: extends_def)

lemma extends_ops [simp]:
  "extends c c1 \<Longrightarrow> extends c (publish_init c1)" "extends c c1 \<Longrightarrow> extends c (publish_start c1)"
  "extends c c1 \<Longrightarrow> extends c (publish_goal c1)" "extends c c1 \<Longrightarrow> extends c (publish_start_as_goal c1)"
  "extends c c1 \<Longrightarrow> extends c (emit e c1)" "extends c c1 \<Longrightarrow> extends c (reply_query c1)"
  "extends c c1 \<Longrightarrow> extends c (transitionTo now s c1)"
  by (auto simp: extends_def publish_defs transitionTo_outbox)

lemma reports_transitionTo:
  assumes "extends c c1" "state_of c1 \<noteq> s" "on_state_change c"
  shows "reports s c (transitionTo now s c1)"
proof -
  obtain es where es: "outbox c1 = outbox c @ es" using assms(1) by (auto simp: extends_def)
  let ?x = "StateChanged (state_of c1) s ((status c1)\<lparr>st_state := s, last_state_change := now\<rparr>)"
  have "outbox (transitionTo now s c1) = outbox c @ (es @ [?x])"
    using assms es by (simp add: transitionTo_outbox extends_def)
  then show ?thesis
    unfolding reports_def
    by (intro exI [of _ "es @ [?x]"] exI [of _ "state_of c1"]
        exI [of _ "(status c1)\<lparr>st_state := s, last_state_change := now\<rparr>"]) simp
qed

lemma told_transitionTo:
  "extends c c1 \<Longrightarrow> state_of c1 = state_of c \<Longrightarrow> on_state_change c \<Longrightarrow> told c (transitionTo now s c1)"
  using reports_transitionTo [of c c1 s now] by (auto simp: told_def)

lemma told_same: "state_of c' = state_of c \<Longrightarrow> told c c'"
  by (simp add: told_def)

lemma told_refl [simp]: "told c c"
  by (simp add: told_def)

lemma told_republish [simp]: "state_of (p c) = state_of c \<Longrightarrow> told c (republish now ms p c)"
  by (simp add: told_same)

lemma told_failQuery [simp]: "told c (failQuery now r c1)"
  by (simp add: told_def)

lemma told_startQueryLeg:
  assumes "startQueryLeg now f t c1 = Inr c'" "extends c c1" "on_state_change c"
    "state_of c1 \<noteq> QUERY_PUBLISHING_INITIAL_POSE"
  shows "told c c'"
proof -
  have "reports QUERY_PUBLISHING_INITIAL_POSE c (transitionTo now QUERY_PUBLISHING_INITIAL_POSE
      (c1\<lparr>tc_map := m, status := set_leg_status m2 a b g (status c1)\<rparr>))" for m m2 a b g
    using assms(2-4) by (intro reports_transitionTo) (simp_all add: set_leg_status_def Let_def)
  with assms(1) show ?thesis
    by (auto simp: startQueryLeg_def told_def split: sum.splits prod.splits option.splits)
qed

lemma told_tick:
  assumes "tick svc now c = Inr c'" "on_state_change c"
  shows "told c c'"
proof (cases "state_of c = QUERY_READING_ETA")
  case False
  with assms show ?thesis
    by (cases "state_of c")
       (auto simp: tick_def tick_initializing_def tick_query_localisation_def tick_query_route_def
         tick_localisation_def tick_driving_to_pickup_def tick_running_def Let_def
         told_transitionTo)
next
  case True
  have fin: "told c c'" if f: "finishQueryLeg now c1 = Inr c'" and c1: "extends c c1" "state_of c1 = state_of c" for c1
  proof (cases "current_leg c1")
    case PICKUP
    with f obtain i where "startQueryLeg now (query_start_gps c1) (query_goal_gps c1)
       (c1\<lparr>query_result := (query_result c1)\<lparr>pickup_leg := current_leg_eta c1\<rparr>,
          pickup_route := Some (current_held_route (query_start_gps c1) i
             (c1\<lparr>query_result := (query_result c1)\<lparr>pickup_leg := current_leg_eta c1\<rparr>\<rparr>)),
          current_leg := TRIP, current_route_state := None, route_received := False\<rparr>) = Inr c'"
      by (auto simp: finishQueryLeg_def finish_pickup_leg_def Let_def split: sum.splits)
    from told_startQueryLeg [OF this _ assms(2)] c1 True show ?thesis by (simp add: extends_def)
  next
    case TRIP
    let ?c2 = "reply_query (c1\<lparr>query_result := (query_result c1)\<lparr>trip_leg := current_leg_eta c1, q_success := True\<rparr>,
                 trip_route := Some (current_held_route (query_goal_gps c1) 0 c1), querying := False\<rparr>)"
    have "extends c (?c2\<lparr>status := default_status\<rparr>)"
      using c1(1) by (auto simp: extends_def)
    from reports_transitionTo [OF this _ assms(2), of ROUTES_READY now] f TRIP show ?thesis
      by (auto simp: finishQueryLeg_def finish_trip_leg_def told_def Let_def)
  qed
  have "extends c (c\<lparr>eta_distance_m := 0, eta_seconds := 0\<rparr>)" by (simp add: extends_def)
  with True assms(1) show ?thesis
    by (auto simp: tick_def tick_query_eta_def intro: fin split: if_splits)
qed

lemma told_onTick:
  assumes "onTick svc tf now c = Inr c'" "on_state_change c"
  shows "told c c'"
proof (cases "getCurrentVehiclePose tf c")
  case None
  with assms told_tick show ?thesis by (simp add: onTick_def)
next
  case (Some g)
  then have "told (setCurrentGps g c) c'"
    using assms told_tick [of svc now "setCurrentGps g c" c'] by (simp add: onTick_def setCurrentGps_def)
  then show ?thesis by (simp add: told_def reports_def setCurrentGps_def)
qed


lemma told_queryEta:
  assumes "queryEta now tf s g cb c = Inr (ok, c')" "on_state_change c"
  shows "told c c'"
proof (cases "state_of c = IDLE \<and> getCurrentVehiclePose tf c \<noteq> None")
  case False
  then obtain r where "c' = reply_now cb r c"
    using assms(1) by (auto simp: queryEta_def split: if_splits option.splits)
  then show ?thesis by (simp add: told_same)
next
  case True
  obtain pose where "startQueryLeg now pose s (c\<lparr>querying := True, current_leg := PICKUP, query_start_gps := s,
       query_goal_gps := g, query_cb := cb, query_result := default_result,
       pickup_route := None, trip_route := None\<rparr>) = Inr c'"
    using True assms(1) by (auto simp: queryEta_def Let_def split: sum.splits)
  from told_startQueryLeg [OF this _ assms(2)] True show ?thesis by (simp add: extends_def)
qed

lemma told_startTrip: "startTrip now c = Inr (ok, c') \<Longrightarrow> on_state_change c \<Longrightarrow> told c c'"
  by (auto simp: startTrip_def Let_def told_transitionTo told_same
      split: sum.splits prod.splits option.splits if_splits)

lemma told_move: "move now c = Inr (ok, c') \<Longrightarrow> on_state_change c \<Longrightarrow> told c c'"
  by (auto simp: move_def Let_def told_transitionTo split: sum.splits prod.splits option.splits if_splits)

lemma told_goToPickup: "on_state_change c \<Longrightarrow> told c (snd (goToPickup now c))"
  by (simp add: goToPickup_def told_transitionTo)

lemma told_step:
  assumes "ctrl_step (now, e) c = Inr c'" "on_state_change c"
  shows "told c c'"
proof (cases e)
  case (EvQueryEta s g cb tf)
  with assms(1) obtain ok where "queryEta now tf s g cb c = Inr (ok, c')" using map_snd_InrD by fastforce
  then show ?thesis using assms(2) by (rule told_queryEta)
next
  case EvStartTrip
  with assms show ?thesis by (auto dest!: map_snd_InrD intro: told_startTrip)
next
  case EvMoveCommand
  with assms show ?thesis
    by (auto dest!: map_snd_InrD simp: handleMoveCommand_def split: if_splits intro: told_move)
       (metis snd_conv told_goToPickup)
next
  case EvMove
  with assms show ?thesis by (auto dest!: map_snd_InrD intro: told_move)
next
  case EvCancel
  with assms show ?thesis by (auto simp: told_def cancel_idle)
qed (use assms in \<open>auto intro: told_onTick simp: told_goToPickup told_transitionTo told_same onRouteReceived_def
       injectEta_def onModeResponse_def onEngageResponse_def split: if_splits\<close>)

text \<open>The callbacks installed at the start are never removed.\<close>

lemma on_state_change_republish: "on_state_change (p c) = on_state_change c \<Longrightarrow>
    on_state_change (republish now ms p c) = on_state_change c"
  by (simp add: republish_def)

lemma on_state_change_startQueryLeg: "startQueryLeg now f t c = Inr c' \<Longrightarrow> on_state_change c' = on_state_change c"
  by (auto simp: startQueryLeg_def split: sum.splits prod.splits option.splits)

lemma on_state_change_finishQueryLeg: "finishQueryLeg now c = Inr c' \<Longrightarrow> on_state_change c' = on_state_change c"
  by (auto simp: finishQueryLeg_def finish_pickup_leg_def finish_trip_leg_def Let_def
      dest!: on_state_change_startQueryLeg split: if_splits sum.splits)

lemma on_state_change_publish [simp]:
  "on_state_change (publish_init c) = on_state_change c" "on_state_change (publish_start c) = on_state_change c"
  "on_state_change (publish_goal c) = on_state_change c" "on_state_change (emit e c) = on_state_change c"
  "on_state_change (publish_start_as_goal c) = on_state_change c"
  by (simp_all add: publish_defs)

lemma on_state_change_tick: "tick svc now c = Inr c' \<Longrightarrow> on_state_change c' = on_state_change c"
  by (cases "state_of c")
     (auto simp: tick_def tick_initializing_def tick_query_localisation_def tick_query_route_def tick_query_eta_def
       tick_localisation_def tick_driving_to_pickup_def tick_running_def Let_def on_state_change_republish doEngage_def
       dest!: on_state_change_finishQueryLeg split: if_splits option.splits)

lemma on_state_change_step:
  assumes "ctrl_step (now, e) c = Inr c'"
  shows "on_state_change c' = on_state_change c"
proof (cases e)
  case (EvQueryEta s g cb tf)
  with assms show ?thesis
    by (auto dest!: map_snd_InrD on_state_change_startQueryLeg simp: queryEta_def reply_now_def Let_def
        split: if_splits option.splits sum.splits)
next
  case EvStartTrip
  with assms show ?thesis
    by (auto dest!: map_snd_InrD simp: startTrip_def Let_def split: sum.splits prod.splits option.splits if_splits)
next
  case EvMoveCommand
  with assms show ?thesis
    by (auto dest!: map_snd_InrD simp: handleMoveCommand_def goToPickup_def move_def Let_def
        split: sum.splits prod.splits option.splits if_splits)
next
  case EvMove
  with assms show ?thesis
    by (auto dest!: map_snd_InrD simp: move_def Let_def split: sum.splits prod.splits option.splits if_splits)
next
  case (EvTick svc tf)
  with assms show ?thesis
    by (auto simp: onTick_def setCurrentGps_def dest!: on_state_change_tick split: option.splits)
next
  case EvCancel
  with assms show ?thesis
    by (auto simp: cancel_def Let_def doPublishInitialPose_def split: option.splits)
qed (use assms in \<open>auto simp: goToPickup_def onRouteReceived_def injectEta_def onModeResponse_def onEngageResponse_def split: if_splits\<close>)

lemma reachable_observed: "ctrl_reachable c \<Longrightarrow> on_state_change c"
  by (induction rule: reachable.induct) (auto simp: ctrl_init_def booted_state dest: on_state_change_step)

end
