(* ===== verification/TripProperties.thy ===== *)
theory TripProperties
  imports TripJourney TripDeadline TripEffects MapProperties
begin

text \<open>
  The properties of the trip controller. Each rests on the invariant of \<open>TripInvariant\<close> through
  the interpretation \<open>ctrl\<close>, and is applied to the controller booted on the example map.
\<close>

section \<open>Safety of the machine\<close>

text \<open>
  C1. From any reachable state, any sequence of events at any times is handled without an
  exception, and the invariant holds at the end.
\<close>

theorem reachable_handles_everything:
  assumes "ctrl_reachable c"
  shows "\<exists>c'. run ctrl_step es c = Inr c' \<and> ctrl_inv c'"
  by (rule ctrl.run_total) (rule ctrl.reachable_inv [OF assms])

theorem reachable_handles_everything_witness:
  "\<exists>c'. run ctrl_step [(5, EvMove), (6, EvStartTrip), (7, EvCancel)] demo_idle = Inr c' \<and> ctrl_inv c'"
  by (rule reachable_handles_everything [OF demo_idle_reachable])

text \<open>
  C2. The controller refines the abstract machine \<open>successors\<close>: no event moves a reachable
  controller along any other edge.
\<close>

theorem controller_refines_successors:
  assumes "ctrl_reachable c" "ctrl_step (now, e) c = Inr c'"
  shows "state_of c' \<in> set (successors e (state_of c))"
  by (rule ctrl_step_edge [OF ctrl.reachable_inv [OF assms(1)] assms(2)])

theorem controller_refines_successors_witness:
  "state_of (cancel 5 demo_idle) \<in> set (successors EvCancel (state_of demo_idle))"
  by (rule controller_refines_successors [OF demo_idle_reachable, of 5]) simp

text \<open>
  C20. \<open>FAILED\<close> and \<open>CANCELLED\<close> are never reached on a well-formed map, and \<open>COMPLETED\<close> is left
  only by a cancellation: after a finished trip every query is rejected until then.
\<close>

theorem dead_states:
  assumes "ctrl_reachable c"
  shows "state_of c \<noteq> FAILED \<and> state_of c \<noteq> CANCELLED \<and>
    (\<forall>now e c'. state_of c = COMPLETED \<and> ctrl_step (now, e) c = Inr c' \<and> e \<noteq> EvCancel \<longrightarrow>
       state_of c' = COMPLETED)"
proof -
  have inv: "ctrl_inv c" by (rule ctrl.reachable_inv [OF assms])
  have "successors e COMPLETED = [COMPLETED]" if "e \<noteq> EvCancel" for e
    using that by (cases e) simp_all
  with ctrl_step_edge [OF inv] have "\<forall>now e c'. state_of c = COMPLETED \<and> ctrl_step (now, e) c = Inr c' \<and>
      e \<noteq> EvCancel \<longrightarrow> state_of c' = COMPLETED" by fastforce
  moreover have "state_of c \<noteq> FAILED" "state_of c \<noteq> CANCELLED" using inv by (auto simp: ctrl_inv_def)
  ultimately show ?thesis by blast
qed

theorem dead_states_witness:
  "state_of demo_idle \<noteq> FAILED \<and> state_of demo_idle \<noteq> CANCELLED"
  using dead_states [OF demo_idle_reachable] by blast

section \<open>Quotes and trips\<close>

definition connected_quote :: "trip_controller \<Rightarrow> routing_graph \<Rightarrow> bool" where
  "connected_quote c rg \<longleftrightarrow>
    (\<exists>p g ll tr. trip_route c = Some tr \<and>
     leg_goal_lane_id (pickup_leg (query_result c)) = to_string p \<and>
     leg_start_lane_id (trip_leg (query_result c)) = to_string p \<and>
     leg_goal_lane_id (trip_leg (query_result c)) = to_string g \<and>
     layer_get (tc_map c) p = Inr ll \<and>
     is_nearest (tc_map c) (gpsToLocal (tc_map c) (held_goal_gps tr)) (reachable_set rg ll 8000) g)"

text \<open>
  C6. When the routes are ready, the quote is of one connected journey: the trip leg starts on
  the lane the pickup leg ended on, that lane is in the map, and the trip leg's goal is the
  first nearest drivable lane to the destination among those the routing graph reaches from
  the pickup lane.
\<close>

theorem ready_quote_connected:
  assumes "ctrl_reachable c" "state_of c = ROUTES_READY" "the_graph (tc_map c) = Some rg"
  shows "connected_quote c rg"
proof -
  have inv: "map_ok c" "bank_inv c" using ctrl.reachable_inv [OF assms(1)] assms(2) by (simp_all add: ctrl_inv_def)
  then obtain pr tr g where b: "pickup_route c = Some pr" "trip_route c = Some tr"
    "held_goal_lane_id pr \<in> lane_ids (tc_map c)"
    "connected_id (tc_map c) (held_goal_gps tr) (held_goal_lane_id pr) True = Some g"
    "leg_goal_lane_id (pickup_leg (query_result c)) = to_string (held_goal_lane_id pr)"
    "leg_start_lane_id (trip_leg (query_result c)) = to_string (held_goal_lane_id pr)"
    "leg_goal_lane_id (trip_leg (query_result c)) = to_string g"
    by (auto simp: bank_inv_def)
  have wf: "wf_map (tc_map c)" using inv(1) by (simp add: map_ok_def)
  then obtain ll where ll: "layer_get (tc_map c) (held_goal_lane_id pr) = Inr ll"
    using b(3) by (metis lane_idsE layer_get_in)
  have "correct_choice (tc_map c) (gpsToLocal (tc_map c) (held_goal_gps tr)) (reachable_set rg ll 8000)
      (connected_id (tc_map c) (held_goal_gps tr) (held_goal_lane_id pr) True)"
    using ll assms(3) candidates_in_layer [OF wf assms(3), of ll "held_goal_lane_id pr" True] wf
    by (simp add: connected_id_def connected_candidates_def scan_choice wf_map_gps)
  with b ll show ?thesis by (auto simp: connected_quote_def correct_choice_def)
qed

lemma ready_map_graph: "ctrl_inv c \<Longrightarrow> state_of c = ROUTES_READY \<Longrightarrow> the_graph (tc_map c) \<noteq> None"
  by (auto simp: ctrl_inv_def bank_inv_def connected_id_def split: option.splits)

theorem ready_quote_connected_witness:
  "\<exists>c rg. ctrl_reachable c \<and> state_of c = ROUTES_READY \<and> connected_quote c rg"
proof -
  obtain c where c: "ctrl_reachable c" "ctrl_inv c" "state_of c = ROUTES_READY" using demo_ready by blast
  then obtain rg where "the_graph (tc_map c) = Some rg" using ready_map_graph by blast
  from ready_quote_connected [OF c(1,3) this] c(1,3) show ?thesis by blast
qed

text \<open>
  \<open>startTrip\<close> is accepted exactly in \<open>ROUTES_READY\<close>, and then leads to
  \<open>WAITING_FOR_PICKUP_START\<close>; in no case does it throw.
\<close>

theorem startTrip_accepts_iff_ready:
  assumes "ctrl_reachable c"
  shows "\<exists>ok c'. startTrip now c = Inr (ok, c') \<and> (ok \<longleftrightarrow> state_of c = ROUTES_READY) \<and>
    state_of c' = (if ok then WAITING_FOR_PICKUP_START else state_of c)"
  by (rule startTrip_inv [OF ctrl.reachable_inv [OF assms], of now]) blast

theorem startTrip_accepts_iff_ready_witness:
  "\<exists>ok c'. startTrip 5 demo_idle = Inr (ok, c') \<and> (ok \<longleftrightarrow> state_of demo_idle = ROUTES_READY) \<and>
    state_of c' = (if ok then WAITING_FOR_PICKUP_START else state_of demo_idle)"
  by (rule startTrip_accepts_iff_ready [OF demo_idle_reachable])

text \<open>
  C4. \<open>move\<close> drives the trip that was quoted: in \<open>WAITING_FOR_MOVE\<close> it is accepted, and the
  lanes it goes between are those of the quoted trip leg, although the goal is looked up again.
\<close>

theorem move_drives_the_quote:
  assumes "ctrl_reachable c" "state_of c = WAITING_FOR_MOVE"
  shows "\<exists>c'. move now c = Inr (True, c') \<and> state_of c' = ENGAGING \<and> \<not> engaging_for_pickup c' \<and>
    goal_lanelet_id (status c') = leg_goal_lane_id (trip_leg (query_result c)) \<and>
    start_lanelet_id (status c') = leg_start_lane_id (trip_leg (query_result c))"
  by (rule move_accepted [OF ctrl.reachable_inv [OF assms(1)] assms(2), of now]) blast

theorem move_drives_the_quote_witness:
  "\<exists>c c'. ctrl_reachable c \<and> state_of c = WAITING_FOR_MOVE \<and>
    move 5 c = Inr (True, c') \<and> state_of c' = ENGAGING \<and> \<not> engaging_for_pickup c' \<and>
    goal_lanelet_id (status c') = leg_goal_lane_id (trip_leg (query_result c)) \<and>
    start_lanelet_id (status c') = leg_start_lane_id (trip_leg (query_result c))"
proof -
  obtain c where "ctrl_reachable c" "state_of c = WAITING_FOR_MOVE" using demo_waiting by blast
  with move_drives_the_quote [of c 5] show ?thesis by blast
qed

text \<open>
  In a cooperative environment a trip completes: from \<open>IDLE\<close> with the vehicle localised
  and the three places resolved, the events the system sends lead to \<open>COMPLETED\<close>, whatever
  their times.
\<close>

theorem cooperative_trip_completes:
  assumes "ctrl_reachable c" "state_of c = IDLE" "localised c" "getCurrentVehiclePose tf c = Some pose"
    "nearest_id (tc_map c) pose = Some a" "connected_id (tc_map c) s a True = Some b"
    "connected_id (tc_map c) g b True \<noteq> None"
    "map snd es = query_events s g cb tf svc d1 e1 d2 e2 @ drive_events svc @ ride_events svc"
  shows "\<exists>c'. run ctrl_step es c = Inr c' \<and> state_of c' = COMPLETED"
proof -
  obtain es1 es2 es3 where es: "es = es1 @ es2 @ es3" "map snd es1 = query_events s g cb tf svc d1 e1 d2 e2"
    "map snd es2 = drive_events svc" "map snd es3 = ride_events svc"
    by (rule map_append3E [OF assms(8)])
  obtain c1 where c1: "run ctrl_step es1 c = Inr c1" "ctrl_inv c1" "localised c1" "state_of c1 = ROUTES_READY"
    by (rule query_run [OF es(2) ctrl.reachable_inv [OF assms(1)] assms(2-7)])
  obtain c2 where c2: "run ctrl_step es2 c1 = Inr c2" "ctrl_inv c2" "state_of c2 = WAITING_FOR_MOVE"
    by (rule drive_run [OF es(3) c1(2,4,3)])
  obtain c3 where "run ctrl_step es3 c2 = Inr c3" "state_of c3 = COMPLETED"
    by (rule ride_run [OF es(4) c2(2,3)])
  with es(1) c1(1) c2(1) show ?thesis by (simp add: run_append)
qed

theorem cooperative_trip_completes_witness:
  "\<exists>c'. run ctrl_step
      (map (\<lambda>e. (4000000000, e))
        (query_events (axis_gps 15) (axis_gps 30) (Some 7) (Some (pt 5 0)) services_up 12 3 18 4 @
         drive_events services_up @ ride_events services_up)) demo_idle = Inr c' \<and>
    state_of c' = COMPLETED"
  by (rule cooperative_trip_completes [OF demo_idle_reachable demo_idle_facts(1,2) demo_pose demo_resolves])
     (rule map_snd_timed)

section \<open>Answers\<close>

text \<open>
  C13. A query callback is answered at most as often as it was handed over, over any sequence
  of events; and exactly as often when nothing is cancelled and no quote is left in progress.
\<close>

theorem answers_match_queries:
  assumes "ctrl_reachable c" "run ctrl_step es c = Inr c'" "owed k c = 0"
  shows "replies k c' \<le> submitted k es \<and>
    (EvCancel \<notin> snd ` set es \<and> \<not> quoting c' \<longrightarrow> replies k c' = submitted k es)"
proof -
  have inv: "ctrl_inv c" "ctrl_inv c'"
    using ctrl.reachable_inv [OF assms(1)] ctrl.run_inv [OF _ assms(2)] by blast+
  have "replies k c' \<le> submitted k es"
    using owed_run_le [OF inv(1) assms(2), of k] assms(3) by (simp add: owed_def)
  moreover have "replies k c' = submitted k es" if "EvCancel \<notin> snd ` set es" "\<not> quoting c'"
  proof -
    have "query_cb c' = None" using settled_no_callback [OF inv(2)] that(2) by (simp add: quoting_def)
    with owed_run [OF inv(1) assms(2) that(1), of k] assms(3) show ?thesis by (simp add: owed_def)
  qed
  ultimately show ?thesis by blast
qed

lemma demo_idle_outbox: "owed k demo_idle = 0"
  by (simp add: demo_idle_def demo_ctrl_def booted_def initializeInMap_def new_TripController_def getDefaultStart_def
      setArrivalCallbacks_def setStateChangeCallback_def publish_defs owed_def replies_def transitionTo_def)

theorem answers_match_queries_witness:
  "\<exists>c. run ctrl_step demo_query_events demo_idle = Inr c \<and> replies 7 c = 1"
proof -
  obtain c where c: "run ctrl_step demo_query_events demo_idle = Inr c" "state_of c = ROUTES_READY"
    using demo_ready by blast
  have "EvCancel \<notin> snd ` set demo_query_events" "submitted 7 demo_query_events = 1" "\<not> quoting c"
    using c(2) by (auto simp: demo_query_events_def query_events_def quote_events_def tick_event_def
        submitted_def quoting_def)
  with answers_match_queries [OF demo_idle_reachable c(1) demo_idle_outbox, of 7] c(1) show ?thesis by auto
qed

lemma accepted_query:
  assumes "queryEta t tf s g cb c = Inr (ok, c1)" "quoting c1" "state_of c = IDLE"
  shows "state_entered_at c1 = t \<and> current_leg c1 = PICKUP \<and> state_of c1 = QUERY_PUBLISHING_INITIAL_POSE \<and>
    timings c1 = timings c"
proof (cases "getCurrentVehiclePose tf c")
  case None
  with assms show ?thesis by (auto simp: queryEta_def quoting_def)
next
  case (Some pose)
  with assms(1,3) have "startQueryLeg t pose s (c\<lparr>querying := True, current_leg := PICKUP, query_start_gps := s,
       query_goal_gps := g, query_cb := cb, query_result := default_result,
       pickup_route := None, trip_route := None\<rparr>) = Inr c1"
    by (auto simp: queryEta_def Let_def split: sum.splits)
  from startQueryLeg_moved [OF this] assms(2,3) show ?thesis by simp
qed


lemma demo_idle_timings: "timings demo_idle = default_timings"
  by (simp add: demo_idle_def demo_ctrl_def booted_state)


section \<open>Effects\<close>



text \<open>
  The state callback hears of every change of state except a return to \<open>IDLE\<close>: a step
  that ends in another state than it began, other than \<open>IDLE\<close>, reports that state.
\<close>

theorem observer_told:
  assumes "ctrl_reachable c" "ctrl_step (now, e) c = Inr c'" "state_of c' \<noteq> state_of c" "state_of c' \<noteq> IDLE"
  shows "reports (state_of c') c c'"
  using told_step [OF assms(2) reachable_observed [OF assms(1)]] assms(3,4) by (simp add: told_def)

theorem observer_told_witness:
  "\<exists>c c'. ctrl_reachable c \<and> state_of c = ROUTES_READY \<and> startTrip 5 c = Inr (True, c') \<and>
    reports WAITING_FOR_PICKUP_START c c'"
proof -
  obtain c where c: "ctrl_reachable c" "ctrl_inv c" "state_of c = ROUTES_READY" using demo_ready by blast
  then obtain c' where c': "startTrip 5 c = Inr (True, c')" "state_of c' = WAITING_FOR_PICKUP_START"
    using startTrip_ready by metis
  then have "ctrl_step (5, EvStartTrip) c = Inr c'" by simp
  from observer_told [OF c(1) this] c'(2) c(3) have "reports WAITING_FOR_PICKUP_START c c'" by simp
  with c c' show ?thesis by blast
qed

text \<open>
  \<open>cancel\<close> always returns to \<open>IDLE\<close> with empty banks, republishes the fixed start when
  there is one, and does nothing else: it answers no query and reports no transition, because
  the status is reset before \<open>transitionTo\<close> compares it.
\<close>

theorem cancel_is_silent:
  "state_of (cancel now c) = IDLE \<and> idle_inv (cancel now c) \<and>
   outbox (cancel now c) = outbox c @
     (case getDefaultStart (tc_map c) of
        None \<Rightarrow> []
      | Some fs \<Rightarrow> [InitialPose (map_pose (pos_x (fs_local fs)) (pos_y (fs_local fs)) (pos_z (fs_local fs))
                                   (ori_z (fs_orientation fs)) (ori_w (fs_orientation fs))) pose_covariance])"
  by (auto simp: cancel_idle) (auto simp: cancel_def Let_def transitionTo_outbox doPublishInitialPose_def emit_def
      split: option.splits)

text \<open>
  A query that fails after it was accepted ends in \<open>IDLE\<close> with empty banks, and its only
  effect is the answer to its callback, which carries the reason; the state callback is not told.
\<close>

theorem failQuery_effects:
  "state_of (failQuery now reason c) = IDLE \<and> idle_inv (failQuery now reason c) \<and>
   outbox (failQuery now reason c) = outbox c @
     (case query_cb c of
        None \<Rightarrow> []
      | Some k \<Rightarrow> [QueryReply k ((query_result c)\<lparr>q_success := False, q_error_message := reason\<rparr>)])"
  by (simp add: idle_inv_def failQuery_outbox)

text \<open>
  A query is rejected unless the controller is idle and the vehicle's transform gives a
  position in the area the code accepts; a rejected query changes nothing and answers its
  callback at once with a failure.
\<close>

theorem queryEta_rejects:
  assumes "state_of c \<noteq> IDLE \<or> getCurrentVehiclePose tf c = None"
  shows "\<exists>msg. queryEta now tf s g cb c =
    Inr (False, c\<lparr>outbox := outbox c @ (case cb of None \<Rightarrow> [] | Some k \<Rightarrow> [QueryReply k (rejected_query msg)])\<rparr>)"
proof -
  have now: "reply_now cb r c = c\<lparr>outbox := outbox c @ (case cb of None \<Rightarrow> [] | Some k \<Rightarrow> [QueryReply k r])\<rparr>" for r
    by (simp add: reply_now_def emit_def split: option.split)
  obtain msg where "queryEta now tf s g cb c = Inr (False, reply_now cb (rejected_query msg) c)"
    using assms by (cases "state_of c = IDLE") (auto simp: queryEta_def)
  then show ?thesis unfolding now by blast
qed

theorem queryEta_rejects_witness:
  "\<exists>msg. queryEta 5 None (axis_gps 15) (axis_gps 30) (Some 7) demo_idle =
    Inr (False, demo_idle\<lparr>outbox := outbox demo_idle @
      (case Some 7 of None \<Rightarrow> [] | Some k \<Rightarrow> [QueryReply k (rejected_query msg)])\<rparr>)"
  by (rule queryEta_rejects) (simp add: getCurrentVehiclePose_def)

text \<open>
  C36. A pickup place the routing graph does not reach from the vehicle's lane is a failed
  query: the callback is told, and the controller stays idle with empty banks.
\<close>

theorem unreachable_pickup_fails:
  assumes "ctrl_reachable c" "state_of c = IDLE" "getCurrentVehiclePose tf c = Some pose"
    "nearest_id (tc_map c) pose = Some a" "connected_id (tc_map c) s a True = None"
  shows "\<exists>c' r. queryEta now tf s g (Some k) c = Inr (True, c') \<and> state_of c' = IDLE \<and> idle_inv c' \<and>
    outbox c' = outbox c @ [QueryReply k r] \<and> \<not> q_success r"
proof -
  let ?c1 = "c\<lparr>querying := True, current_leg := PICKUP, query_start_gps := s, query_goal_gps := g,
               query_cb := Some k, query_result := default_result, pickup_route := None, trip_route := None\<rparr>"
  have m: "wf_map (tc_map c)" "cache_inv (tc_map c)"
    using ctrl.reachable_inv [OF assms(1)] by (simp_all add: ctrl_inv_def map_ok_def)
  obtain r m1 where l: "findNearestLane (tc_map c) pose = Inr (r, m1)" "cache_extends (tc_map c) m1"
    "map_option lane_id r = Some a" using nearest.lookup_total [OF m TrueI, of pose] assms(4) by metis
  then obtain lane where lane: "r = Some lane" "lane_id lane = a" by auto
  have m1: "wf_map m1" "cache_inv m1" "lane_id lane \<in> lane_ids m1"
    using m nearest.lookup_Inr(6) [OF m TrueI l(1) lane(1)] l(2)
    by (simp_all add: cache_extends_static cache_extends_inv)
  obtain m2 where l2: "findNearestConnectedLane m1 s (lane_id lane) True = Inr (None, m2)" "cache_extends m1 m2"
    using connected.lookup_total [OF m1] assms(5) lane(2) connected_id_extends [OF l(2)]
    by (metis option.map_disc_iff)
  have m2: "wf_map m2" "cache_inv m2" using m1 l2(2) by (simp_all add: cache_extends_static cache_extends_inv)
  obtain r3 m3 where l3: "findNearestLane m2 s = Inr (r3, m3)" using nearest.lookup_total [OF m2 TrueI] by metis
  let ?c' = "failQuery now (unreachable_message r3 lane) (?c1\<lparr>tc_map := m3\<rparr>)"
  have "queryEta now tf s g (Some k) c = Inr (True, ?c')"
    using assms(2,3) l(1) lane(1) l2(1) l3
    by (simp add: queryEta_def Let_def startQueryLeg_def query_from_lane_def)
  then show ?thesis
    by (intro exI [of _ ?c'] exI [of _ "default_result\<lparr>q_success := False, q_error_message := unreachable_message r3 lane\<rparr>"])
       (simp add: failQuery_outbox idle_inv_def)
qed

text \<open>The demo map without a fixed start and without any connection.\<close>

definition cut_map :: lanelet_map where
  "cut_map = demo_map\<lparr>the_graph := Some (demo_graph\<lparr>reachable_set := \<lambda>ll r. []\<rparr>), default_start := None\<rparr>"

definition cut_ctrl :: trip_controller where
  "cut_ctrl = booted cut_map default_timings 0"

lemma cut_map_simps [simp]:
  "laneletLayer cut_map = laneletLayer demo_map" "gpsToLocal cut_map g = gpsToLocal demo_map g"
  "the_graph cut_map = Some (demo_graph\<lparr>reachable_set := \<lambda>ll r. []\<rparr>)" "default_start cut_map = None"
  "invalid_id cut_map = 0" "cache cut_map = []"
  by (simp_all add: cut_map_def laneletLayer_def gpsToLocal_def)

lemma cut_map_scan [simp]: "nearest_scan cut_map t lls = nearest_scan demo_map t lls"
  by (rule nearest_scan_cong) (simp_all add: cut_map_def)

lemma cut_wf: "wf_map cut_map" "cache_inv cut_map"
  using demo_wf demo_cache by (auto simp: wf_map_def cache_inv_def cut_map_def laneletLayer_def gpsToLocal_def)

lemma cut_reachable: "ctrl_reachable cut_ctrl" "state_of cut_ctrl = IDLE" "tc_map cut_ctrl = cut_map"
proof -
  show "ctrl_reachable cut_ctrl"
    using cut_wf by (intro reachable.start) (auto simp: ctrl_init_def cut_ctrl_def)
qed (simp_all add: cut_ctrl_def booted_state)

theorem unreachable_pickup_fails_witness:
  "\<exists>c' r. queryEta 5 (Some (pt 5 0)) (axis_gps 15) (axis_gps 30) (Some 7) cut_ctrl = Inr (True, c') \<and>
    state_of c' = IDLE \<and> idle_inv c' \<and> outbox c' = outbox cut_ctrl @ [QueryReply 7 r] \<and> \<not> q_success r"
proof (rule unreachable_pickup_fails [OF cut_reachable(1,2), where a = 1 and pose = "axis_gps 5"])
  show "getCurrentVehiclePose (Some (pt 5 0)) cut_ctrl = Some (axis_gps 5)"
    by (simp add: getCurrentVehiclePose_def cut_reachable localToGps_def cut_map_def demo_projector_def axis_gps_def)
  show "nearest_id (tc_map cut_ctrl) (axis_gps 5) = Some 1"
    using demo_nearest [of 5] by (simp add: nearest_id_def valid_id_def cut_reachable)
  show "connected_id (tc_map cut_ctrl) (axis_gps 15) 1 True = None"
    by (simp add: connected_id_def cut_reachable connected_candidates_def nearest_scan_def valid_id_def
        split: sum.splits)
qed

section \<open>Two hazards\<close>

text \<open>
  C40. A \<open>startTrip\<close> that is rejected while the ride is being engaged is not harmless: it
  re-arms the engagement for the pickup, so that the engagement of the ride, when it
  succeeds, leads to \<open>DRIVING_TO_PICKUP\<close> again instead of \<open>RUNNING\<close>.
\<close>

theorem rejected_startTrip_redirects_ride:
  assumes "state_of c = ENGAGING"
  shows "\<exists>c1. startTrip t c = Inr (False, c1) \<and>
    state_of (onEngageResponse now 1 c1) = DRIVING_TO_PICKUP \<and>
    (\<not> engaging_for_pickup c \<longrightarrow> state_of (onEngageResponse now 1 c) = RUNNING)"
  using assms by (simp add: startTrip_rejected onEngageResponse_def)

theorem rejected_startTrip_redirects_ride_witness:
  "\<exists>c c1. ctrl_reachable c \<and> startTrip 6 c = Inr (False, c1) \<and>
    state_of (onEngageResponse 7 1 c1) = DRIVING_TO_PICKUP \<and> state_of (onEngageResponse 7 1 c) = RUNNING"
proof -
  obtain c0 where c0: "ctrl_reachable c0" "state_of c0 = WAITING_FOR_MOVE" using demo_waiting by blast
  from move_accepted [OF ctrl.reachable_inv [OF c0(1)] c0(2), of 5] obtain c
    where c: "move 5 c0 = Inr (True, c)" "state_of c = ENGAGING" "\<not> engaging_for_pickup c" by blast
  from c0(1) have "ctrl_reachable c"
    by (rule next_step [where e = "(5, EvMove)"]) (simp add: c(1))
  with rejected_startTrip_redirects_ride [OF c(2), of 6 7] c(3) show ?thesis by blast
qed

text \<open>
  While the vehicle waits for the pickup drive, the pose published as its initial pose is
  the fixed start of the map, not the vehicle's position: the trip of a vehicle that stands
  anywhere else begins by telling the localisation it is at the fixed start.
\<close>

theorem pickup_republishes_fixed_start:
  assumes "state_of c = PUBLISHING_INITIAL_POSE"
  shows "\<exists>c'. tick svc now c = Inr c' \<and> state_of c' = WAITING_LOCALISATION \<and>
    InitialPose (map_pose (init_x c) (init_y c) (init_z c) (init_qz c) (init_qw c)) pose_covariance
      \<in> set (outbox c')"
  using assms by (simp add: tick_def transitionTo_outbox publish_defs)

lemma demo_pickup:
  obtains c where "ctrl_reachable c" "state_of c = PUBLISHING_INITIAL_POSE"
proof -
  obtain c0 where c0: "ctrl_reachable c0" "ctrl_inv c0" "state_of c0 = ROUTES_READY" using demo_ready by blast
  then obtain c1 where c1: "startTrip 5 c0 = Inr (True, c1)" "state_of c1 = WAITING_FOR_PICKUP_START"
    using startTrip_ready by metis
  from c0(1) have "ctrl_reachable c1" by (rule next_step [where e = "(5, EvStartTrip)"]) (simp add: c1(1))
  then have "ctrl_reachable (snd (goToPickup 6 c1))" by (rule next_step [where e = "(6, EvGoToPickup)"]) simp
  with c1(2) that show thesis by (simp add: goToPickup_state)
qed

theorem pickup_republishes_fixed_start_witness:
  "\<exists>c c'. ctrl_reachable c \<and> tick services_up 9 c = Inr c' \<and> state_of c' = WAITING_LOCALISATION \<and>
    InitialPose (map_pose (init_x c) (init_y c) (init_z c) (init_qz c) (init_qw c)) pose_covariance
      \<in> set (outbox c')"
proof -
  obtain c where "ctrl_reachable c" "state_of c = PUBLISHING_INITIAL_POSE" using demo_pickup by blast
  with pickup_republishes_fixed_start [of c services_up 9] show ?thesis by blast
qed

end
