(* ===== verification/OutboxShift.thy ===== *)
theory OutboxShift
  imports TripEffects
begin

text \<open>
  The trip controller only appends to its outbox and never reads it: every step commutes with
  putting effects in front of it. So a run that empties the outbox after every step does the
  same, and has the same effects in the same order, as one that lets them pile up.
\<close>

section \<open>Effects in front\<close>

definition shift :: "effect list \<Rightarrow> trip_controller \<Rightarrow> trip_controller" where
  "shift es c = c\<lparr>outbox := es @ outbox c\<rparr>"

lemma shift_fields [simp]:
  "tc_map (shift es c) = tc_map c" "timings (shift es c) = timings c"
  "engaging_for_pickup (shift es c) = engaging_for_pickup c" "current_loc_state (shift es c) = current_loc_state c"
  "current_route_state (shift es c) = current_route_state c" "current_mode_state (shift es c) = current_mode_state c"
  "last_route (shift es c) = last_route c" "last_publish_time (shift es c) = last_publish_time c"
  "status (shift es c) = status c" "on_state_change (shift es c) = on_state_change c"
  "on_pickup_arrived (shift es c) = on_pickup_arrived c" "on_dropoff_arrived (shift es c) = on_dropoff_arrived c"
  "state_entered_at (shift es c) = state_entered_at c" "route_received (shift es c) = route_received c"
  "init_x (shift es c) = init_x c" "init_y (shift es c) = init_y c" "init_z (shift es c) = init_z c"
  "init_qz (shift es c) = init_qz c" "init_qw (shift es c) = init_qw c" "querying (shift es c) = querying c"
  "current_leg (shift es c) = current_leg c" "query_start_gps (shift es c) = query_start_gps c"
  "query_goal_gps (shift es c) = query_goal_gps c" "query_cb (shift es c) = query_cb c"
  "query_result (shift es c) = query_result c" "eta_received (shift es c) = eta_received c"
  "eta_distance_m (shift es c) = eta_distance_m c" "eta_seconds (shift es c) = eta_seconds c"
  "pickup_route (shift es c) = pickup_route c" "trip_route (shift es c) = trip_route c"
  "outbox (shift es c) = es @ outbox c"
  by (simp_all add: shift_def)

lemma shift_updates [simp]:
  "(shift es c)\<lparr>tc_map := m\<rparr> = shift es (c\<lparr>tc_map := m\<rparr>)"
  "(shift es c)\<lparr>engaging_for_pickup := b\<rparr> = shift es (c\<lparr>engaging_for_pickup := b\<rparr>)"
  "(shift es c)\<lparr>current_loc_state := l\<rparr> = shift es (c\<lparr>current_loc_state := l\<rparr>)"
  "(shift es c)\<lparr>current_route_state := r\<rparr> = shift es (c\<lparr>current_route_state := r\<rparr>)"
  "(shift es c)\<lparr>current_mode_state := ms\<rparr> = shift es (c\<lparr>current_mode_state := ms\<rparr>)"
  "(shift es c)\<lparr>last_route := lr\<rparr> = shift es (c\<lparr>last_route := lr\<rparr>)"
  "(shift es c)\<lparr>last_publish_time := t\<rparr> = shift es (c\<lparr>last_publish_time := t\<rparr>)"
  "(shift es c)\<lparr>status := st\<rparr> = shift es (c\<lparr>status := st\<rparr>)"
  "(shift es c)\<lparr>state_entered_at := t\<rparr> = shift es (c\<lparr>state_entered_at := t\<rparr>)"
  "(shift es c)\<lparr>route_received := b\<rparr> = shift es (c\<lparr>route_received := b\<rparr>)"
  "(shift es c)\<lparr>querying := b\<rparr> = shift es (c\<lparr>querying := b\<rparr>)"
  "(shift es c)\<lparr>current_leg := leg\<rparr> = shift es (c\<lparr>current_leg := leg\<rparr>)"
  "(shift es c)\<lparr>query_start_gps := g\<rparr> = shift es (c\<lparr>query_start_gps := g\<rparr>)"
  "(shift es c)\<lparr>query_goal_gps := g\<rparr> = shift es (c\<lparr>query_goal_gps := g\<rparr>)"
  "(shift es c)\<lparr>query_cb := cb\<rparr> = shift es (c\<lparr>query_cb := cb\<rparr>)"
  "(shift es c)\<lparr>query_result := q\<rparr> = shift es (c\<lparr>query_result := q\<rparr>)"
  "(shift es c)\<lparr>eta_received := b\<rparr> = shift es (c\<lparr>eta_received := b\<rparr>)"
  "(shift es c)\<lparr>eta_distance_m := x\<rparr> = shift es (c\<lparr>eta_distance_m := x\<rparr>)"
  "(shift es c)\<lparr>eta_seconds := x\<rparr> = shift es (c\<lparr>eta_seconds := x\<rparr>)"
  "(shift es c)\<lparr>pickup_route := h\<rparr> = shift es (c\<lparr>pickup_route := h\<rparr>)"
  "(shift es c)\<lparr>trip_route := h\<rparr> = shift es (c\<lparr>trip_route := h\<rparr>)"
  "(shift es c)\<lparr>outbox := []\<rparr> = c\<lparr>outbox := []\<rparr>"
  by (simp_all add: shift_def)

lemma shift_Nil [simp]: "shift [] c = c"
  by (simp add: shift_def)

lemma shift_shift [simp]: "shift es (shift fs c) = shift (es @ fs) c"
  by (simp add: shift_def)

lemma shift_clear: "shift (outbox c) (c\<lparr>outbox := []\<rparr>) = c"
  by (simp add: shift_def)

lemma shift_emit [simp]: "emit e (shift es c) = shift es (emit e c)"
  by (simp add: emit_def shift_def)

lemma shift_transitionTo [simp]: "transitionTo now s (shift es c) = shift es (transitionTo now s c)"
  by (simp add: transitionTo_def Let_def)

lemma shift_publish [simp]:
  "publish_init (shift es c) = shift es (publish_init c)" "publish_start (shift es c) = shift es (publish_start c)"
  "publish_goal (shift es c) = shift es (publish_goal c)"
  "publish_start_as_goal (shift es c) = shift es (publish_start_as_goal c)"
  "doPublishInitialPose x y z qz qw (shift es c) = shift es (doPublishInitialPose x y z qz qw c)"
  "doPublishGoal x y z qz qw (shift es c) = shift es (doPublishGoal x y z qz qw c)"
  by (simp_all add: publish_init_def publish_start_def publish_goal_def publish_start_as_goal_def
      doPublishInitialPose_def doPublishGoal_def Let_def)

lemma shift_reply_query [simp]: "reply_query (shift es c) = shift es (reply_query c)"
  by (simp add: reply_query_def split: option.split)

lemma shift_failQuery [simp]: "failQuery now r (shift es c) = shift es (failQuery now r c)"
  by (simp add: failQuery_def Let_def)

lemma shift_legs [simp]:
  "query_from_lane g (shift es c) = query_from_lane g c" "current_leg_eta (shift es c) = current_leg_eta c"
  "current_held_route g i (shift es c) = current_held_route g i c"
  "getCurrentVehiclePose tf (shift es c) = getCurrentVehiclePose tf c"
  "localised (shift es c) = localised c" "route_timeout_message (shift es c) = route_timeout_message c"
  "setCurrentGps g (shift es c) = shift es (setCurrentGps g c)"
  by (simp_all add: query_from_lane_def current_leg_eta_def current_held_route_def getCurrentVehiclePose_def localised_def
      route_timeout_message_def setCurrentGps_def Let_def split: sum.split option.split)

lemma shift_startQueryLeg [simp]:
  "startQueryLeg now f t (shift es c) = map_sum id (shift es) (startQueryLeg now f t c)"
  by (simp add: startQueryLeg_def split: sum.split prod.split option.split)

lemma shift_finishQueryLeg [simp]:
  "finishQueryLeg now (shift es c) = map_sum id (shift es) (finishQueryLeg now c)"
  by (simp add: finishQueryLeg_def finish_pickup_leg_def finish_trip_leg_def Let_def split: sum.split)

section \<open>Commands\<close>

lemma shift_reply_now [simp]: "reply_now cb r (shift es c) = shift es (reply_now cb r c)"
  by (simp add: reply_now_def split: option.split)

lemma shift_queryEta [simp]:
  "queryEta now tf s g cb (shift es c) = map_sum id (map_prod id (shift es)) (queryEta now tf s g cb c)"
  by (simp add: queryEta_def Let_def split: sum.split option.split)

lemma shift_startTrip [simp]:
  "startTrip now (shift es c) = map_sum id (map_prod id (shift es)) (startTrip now c)"
  by (simp add: startTrip_def Let_def split: sum.split option.split prod.split)

lemma shift_move [simp]: "move now (shift es c) = map_sum id (map_prod id (shift es)) (move now c)"
  by (simp add: move_def Let_def split: sum.split option.split prod.split)

lemma shift_goToPickup [simp]: "goToPickup now (shift es c) = map_prod id (shift es) (goToPickup now c)"
  by (simp add: goToPickup_def)

lemma shift_handleMoveCommand [simp]:
  "handleMoveCommand now (shift es c) = map_sum id (map_prod id (shift es)) (handleMoveCommand now c)"
  by (simp add: handleMoveCommand_def)

lemma shift_cancel [simp]: "cancel now (shift es c) = shift es (cancel now c)"
  by (simp add: cancel_def Let_def split: option.split)

section \<open>The tick\<close>

lemma shift_doEngage [simp]: "doEngage svc (shift es c) = shift es (doEngage svc c)"
  by (simp add: doEngage_def split: option.split)

lemma shift_republish [simp]:
  assumes "p (shift es c) = shift es (p c)"
  shows "republish now ms p (shift es c) = shift es (republish now ms p c)"
  using assms by (simp add: republish_def)

lemma shift_responses [simp]:
  "onModeResponse ok (shift es c) = shift es (onModeResponse ok c)"
  "onEngageResponse now code (shift es c) = shift es (onEngageResponse now code c)"
  "onRouteReceived r (shift es c) = shift es (onRouteReceived r c)"
  "injectEta d t (shift es c) = shift es (injectEta d t c)"
  by (simp_all add: onModeResponse_def onEngageResponse_def onRouteReceived_def injectEta_def)

lemma shift_ticks [simp]:
  "tick_initializing now (shift es c) = shift es (tick_initializing now c)"
  "tick_query_localisation now (shift es c) = shift es (tick_query_localisation now c)"
  "tick_query_route now (shift es c) = shift es (tick_query_route now c)"
  "tick_query_eta now (shift es c) = map_sum id (shift es) (tick_query_eta now c)"
  "tick_localisation now (shift es c) = shift es (tick_localisation now c)"
  "tick_driving_to_pickup now (shift es c) = shift es (tick_driving_to_pickup now c)"
  "tick_running now (shift es c) = shift es (tick_running now c)"
  by (simp_all add: tick_initializing_def tick_query_localisation_def tick_query_route_def tick_query_eta_def
      tick_localisation_def tick_driving_to_pickup_def tick_running_def Let_def)

lemma shift_tick [simp]: "tick svc now (shift es c) = map_sum id (shift es) (tick svc now c)"
  by (simp add: tick_def split: trip_state.split)

lemma shift_onTick [simp]: "onTick svc tf now (shift es c) = map_sum id (shift es) (onTick svc tf now c)"
  by (simp add: onTick_def split: option.split)

section \<open>Steps and runs\<close>

lemma map_sum_snd_prod: "map_sum id snd (map_sum id (map_prod id f) x) = map_sum id f (map_sum id snd x)"
  by (cases x) simp_all

lemma shift_step: "ctrl_step e (shift es c) = map_sum id (shift es) (ctrl_step e c)"
proof (cases e)
  case (Pair now x)
  then show ?thesis by (cases x) (simp_all add: map_sum_snd_prod)
qed

lemma shift_run: "run ctrl_step evs (shift es c) = map_sum id (shift es) (run ctrl_step evs c)"
  by (induction evs arbitrary: c) (simp_all add: shift_step split: sum.split)

text \<open>Emptying the outbox and going on is going on and then taking off what was emptied.\<close>

lemma run_after_clear:
  assumes "run ctrl_step evs c = Inr c'"
  obtains c2 where "run ctrl_step evs (c\<lparr>outbox := []\<rparr>) = Inr c2" "outbox c' = outbox c @ outbox c2"
    "c2\<lparr>outbox := []\<rparr> = c'\<lparr>outbox := []\<rparr>"
proof -
  have "run ctrl_step evs (shift (outbox c) (c\<lparr>outbox := []\<rparr>)) = Inr c'"
    using assms by (simp add: shift_clear)
  then obtain c2 where c2: "run ctrl_step evs (c\<lparr>outbox := []\<rparr>) = Inr c2" "c' = shift (outbox c) c2"
    by (cases "run ctrl_step evs (c\<lparr>outbox := []\<rparr>)") (simp_all add: shift_run)
  show thesis by (rule that [OF c2(1)]) (simp_all add: c2(2))
qed

end
