(* ===== verification/TripSignals.thy ===== *)
theory TripSignals
  imports TripJourney OutboxShift
begin

text \<open>
  A whole trip as it is heard outside the trip controller: the effects the agent turns into
  reports, in order, when every handler is given its own clock, services and vehicle pose.
\<close>

section \<open>What a step leaves as it was\<close>

text \<open>
  The projection and the fixed start of the map and the pose the controller starts from; and the
  localisation state, but for its own message.
\<close>

definition grounds where
  "grounds c = (the_projector (tc_map c), default_start (tc_map c), init_x c, init_y c, init_z c, init_qz c, init_qw c)"

definition site where
  "site c = (grounds c, current_loc_state c)"

definition same_survey :: "lanelet_map \<Rightarrow> lanelet_map \<Rightarrow> bool" where
  "same_survey m m' \<longleftrightarrow> the_projector m' = the_projector m \<and> default_start m' = default_start m"

lemma same_survey_simps [simp]: "same_survey m m" "same_survey m (m\<lparr>cache := cs\<rparr>)"
  by (simp_all add: same_survey_def)

lemma same_survey_trans: "same_survey m m' \<Longrightarrow> same_survey m' m'' \<Longrightarrow> same_survey m m''"
  by (simp add: same_survey_def)

lemma emplace_survey: "emplace_lane m ll g = Inr (r, m') \<Longrightarrow> same_survey m m'"
  by (auto simp: emplace_lane_def split: sum.splits)

lemma resolve_survey: "resolve_best m g i = Inr (r, m') \<Longrightarrow> same_survey m m'"
  by (auto simp: resolve_best_def dest: emplace_survey split: if_splits option.splits sum.splits)

lemma lookup_survey:
  "findNearestLane m g = Inr (r, m') \<Longrightarrow> same_survey m m'"
  "getLaneById m i = Inr (r, m') \<Longrightarrow> same_survey m m'"
  "findNearestConnectedLane m g i b = Inr (r, m') \<Longrightarrow> same_survey m m'"
  by (auto simp: findNearestLane_def getLaneById_def findNearestConnectedLane_def
      dest: emplace_survey resolve_survey split: if_splits option.splits sum.splits bool.splits)

lemma site_simps [simp]:
  "site (transitionTo now s c) = site c" "site (emit e c) = site c" "site (reply_query c) = site c"
  "site (failQuery now r c) = site c" "site (publish_init c) = site c" "site (publish_start c) = site c"
  "site (publish_goal c) = site c" "site (publish_start_as_goal c) = site c" "site (doEngage svc c) = site c"
  "site (setCurrentGps g c) = site c" "site (finish_trip_leg now c) = site c"
  by (simp_all add: site_def grounds_def publish_defs reply_query_def failQuery_def doEngage_def finish_trip_leg_def
      split: option.split)

lemma site_updates [simp]:
  "site (c\<lparr>status := st\<rparr>) = site c" "site (c\<lparr>current_route_state := r\<rparr>) = site c"
  "site (c\<lparr>route_received := b\<rparr>) = site c" "site (c\<lparr>eta_received := b\<rparr>) = site c"
  "site (c\<lparr>eta_distance_m := d\<rparr>) = site c" "site (c\<lparr>eta_seconds := d\<rparr>) = site c"
  "site (c\<lparr>last_publish_time := t\<rparr>) = site c" "site (c\<lparr>engaging_for_pickup := b\<rparr>) = site c"
  "site (c\<lparr>query_result := q\<rparr>) = site c" "site (c\<lparr>pickup_route := h\<rparr>) = site c"
  "site (c\<lparr>trip_route := h\<rparr>) = site c" "site (c\<lparr>current_leg := l\<rparr>) = site c"
  "site (c\<lparr>querying := b\<rparr>) = site c" "site (c\<lparr>query_cb := k\<rparr>) = site c"
  "site (c\<lparr>query_start_gps := g\<rparr>) = site c" "site (c\<lparr>query_goal_gps := g\<rparr>) = site c"
  "site (c\<lparr>last_route := lr\<rparr>) = site c" "site (c\<lparr>current_mode_state := ms\<rparr>) = site c"
  "site (c\<lparr>outbox := es\<rparr>) = site c"
  "same_survey (tc_map c) m \<Longrightarrow> site (c\<lparr>tc_map := m\<rparr>) = site c"
  by (simp_all add: site_def grounds_def same_survey_def)

lemma site_republish [simp]: "site (p c) = site c \<Longrightarrow> site (republish now ms p c) = site c"
  by (simp add: republish_def)

lemma query_from_lane_survey: "query_from_lane g c = Inr (r, m) \<Longrightarrow> same_survey (tc_map c) m"
  by (auto simp: query_from_lane_def dest: lookup_survey split: if_splits sum.splits)

lemma site_startQueryLeg: "startQueryLeg now f t c = Inr c' \<Longrightarrow> site c' = site c"
  by (auto simp: startQueryLeg_def dest!: query_from_lane_survey lookup_survey dest: same_survey_trans
      split: sum.splits prod.splits option.splits)

lemma site_finishQueryLeg: "finishQueryLeg now c = Inr c' \<Longrightarrow> site c' = site c"
  by (auto simp: finishQueryLeg_def finish_pickup_leg_def Let_def dest!: site_startQueryLeg
      split: if_splits sum.splits)

lemma site_tick: "tick svc now c = Inr c' \<Longrightarrow> site c' = site c"
  by (cases "state_of c")
     (auto simp: tick_def tick_initializing_def tick_query_localisation_def tick_query_route_def tick_query_eta_def
       tick_localisation_def tick_driving_to_pickup_def tick_running_def Let_def
       dest!: site_finishQueryLeg split: if_splits option.splits)

lemma site_move: "move now c = Inr (ok, c') \<Longrightarrow> site c' = site c"
  by (auto simp: move_def Let_def dest!: lookup_survey split: sum.splits prod.splits option.splits if_splits)

lemma site_goToPickup [simp]: "site (snd (goToPickup now c)) = site c"
  by (simp add: goToPickup_def)

lemma site_step:
  assumes "ctrl_step (now, e) c = Inr c'" "\<And>l. e \<noteq> EvLocState l"
  shows "site c' = site c"
proof (cases e)
  case (EvQueryEta s g cb tf)
  with assms(1) show ?thesis
    by (auto dest!: map_snd_InrD site_startQueryLeg simp: queryEta_def reply_now_def Let_def
        split: if_splits option.splits sum.splits)
next
  case EvStartTrip
  with assms(1) show ?thesis
    by (auto dest!: map_snd_InrD lookup_survey simp: startTrip_def Let_def
        split: sum.splits prod.splits option.splits if_splits)
next
  case EvMoveCommand
  with assms(1) show ?thesis
    by (auto dest!: map_snd_InrD site_move simp: handleMoveCommand_def goToPickup_def split: if_splits)
next
  case EvMove
  with assms(1) show ?thesis by (auto dest!: map_snd_InrD site_move)
next
  case (EvTick svc tf)
  with assms(1) show ?thesis by (auto simp: onTick_def dest!: site_tick split: option.splits)
next
  case EvCancel
  with assms(1) show ?thesis by (auto simp: cancel_def Let_def doPublishInitialPose_def split: option.splits)
qed (use assms in \<open>auto simp: onRouteReceived_def injectEta_def onModeResponse_def onEngageResponse_def split: if_splits\<close>)


lemma grounds_step: "ctrl_step e c = Inr c' \<Longrightarrow> grounds c' = grounds c"
proof (cases "\<exists>l. snd e = EvLocState l")
  case True
  then show "ctrl_step e c = Inr c' \<Longrightarrow> grounds c' = grounds c" by (cases e) (auto simp: grounds_def)
next
  case False
  then show "ctrl_step e c = Inr c' \<Longrightarrow> grounds c' = grounds c"
    using site_step [of "fst e" "snd e" c c'] by (simp add: site_def)
qed

section \<open>The pose a tick reads\<close>

definition look :: "local_coord option \<Rightarrow> trip_controller \<Rightarrow> trip_controller" where
  "look tf c = (case getCurrentVehiclePose tf c of None \<Rightarrow> c | Some g \<Rightarrow> setCurrentGps g c)"

lemma onTick_look: "onTick svc tf now c = tick svc now (look tf c)"
  by (simp add: onTick_def look_def)

lemma look_fields [simp]:
  "state_of (look tf c) = state_of c" "tc_map (look tf c) = tc_map c" "localised (look tf c) = localised c"
  "current_loc_state (look tf c) = current_loc_state c"
  "current_route_state (look tf c) = current_route_state c" "eta_received (look tf c) = eta_received c"
  "eta_distance_m (look tf c) = eta_distance_m c" "eta_seconds (look tf c) = eta_seconds c"
  "query_result (look tf c) = query_result c" "query_cb (look tf c) = query_cb c"
  "current_leg (look tf c) = current_leg c" "query_start_gps (look tf c) = query_start_gps c"
  "query_goal_gps (look tf c) = query_goal_gps c" "outbox (look tf c) = outbox c"
  "engaging_for_pickup (look tf c) = engaging_for_pickup c" "on_state_change (look tf c) = on_state_change c"
  "start_lanelet_id (status (look tf c)) = start_lanelet_id (status c)"
  "goal_lanelet_id (status (look tf c)) = goal_lanelet_id (status c)"
  "pickup_route (look tf c) = pickup_route c" "trip_route (look tf c) = trip_route c" "querying (look tf c) = querying c"
  by (simp_all add: look_def setCurrentGps_def localised_def split: option.split)

lemma look_core [simp]: "core (look tf c) = core c"
  by (simp add: core_def)

lemma look_site [simp]: "site (look tf c) = site c"
  by (simp add: look_def split: option.split)

lemma pose_site: "site c' = site c \<Longrightarrow> getCurrentVehiclePose tf c' = getCurrentVehiclePose tf c"
  by (simp add: site_def grounds_def getCurrentVehiclePose_def localToGps_def Let_def split: option.split)

lemma look_gps: "getCurrentVehiclePose tf c = Some g \<Longrightarrow> current_gps (status (look tf c)) = g"
  by (simp add: look_def setCurrentGps_def)

lemma site_localised: "site c' = site c \<Longrightarrow> localised c' = localised c"
  by (simp add: site_def localised_def)

section \<open>What is heard\<close>

text \<open>The answers to queries, and the states the agent reports or starts and stops streaming in.\<close>

fun audible :: "effect \<Rightarrow> bool" where
  "audible (StateChanged p n st) \<longleftrightarrow> n \<in> {DRIVING_TO_PICKUP, WAITING_FOR_MOVE, RUNNING, COMPLETED, FAILED}"
| "audible (QueryReply k r) \<longleftrightarrow> True"
| "audible e \<longleftrightarrow> False"

definition loud :: "trip_controller \<Rightarrow> effect list" where
  "loud c = filter audible (outbox c)"

lemma loud_transitionTo:
  "loud (transitionTo now s c) =
     loud c @ (if state_of c \<noteq> s \<and> on_state_change c \<and> s \<in> {DRIVING_TO_PICKUP, WAITING_FOR_MOVE, RUNNING, COMPLETED, FAILED}
               then [StateChanged (state_of c) s ((status c)\<lparr>st_state := s, last_state_change := now\<rparr>)] else [])"
  by (simp add: loud_def transitionTo_outbox)

lemma loud_simps [simp]:
  "loud (look tf c) = loud c" "loud (publish_init c) = loud c" "loud (publish_start c) = loud c"
  "loud (publish_goal c) = loud c" "loud (publish_start_as_goal c) = loud c" "loud (doEngage svc c) = loud c"
  "\<not> audible e \<Longrightarrow> loud (emit e c) = loud c"
  "loud (c\<lparr>outbox := []\<rparr>) = []"
  by (simp_all add: loud_def publish_defs doEngage_def split: option.split)

lemma loud_cong [simp]:
  "loud (c\<lparr>status := st\<rparr>) = loud c" "loud (c\<lparr>current_route_state := r\<rparr>) = loud c"
  "loud (c\<lparr>route_received := b\<rparr>) = loud c" "loud (c\<lparr>eta_received := b\<rparr>) = loud c"
  "loud (c\<lparr>eta_distance_m := d\<rparr>) = loud c" "loud (c\<lparr>eta_seconds := d\<rparr>) = loud c"
  "loud (c\<lparr>last_publish_time := t\<rparr>) = loud c" "loud (c\<lparr>engaging_for_pickup := b\<rparr>) = loud c"
  "loud (c\<lparr>query_result := q\<rparr>) = loud c" "loud (c\<lparr>pickup_route := h\<rparr>) = loud c"
  "loud (c\<lparr>trip_route := h\<rparr>) = loud c" "loud (c\<lparr>current_leg := l\<rparr>) = loud c"
  "loud (c\<lparr>querying := b\<rparr>) = loud c" "loud (c\<lparr>query_cb := k\<rparr>) = loud c" "loud (c\<lparr>tc_map := m\<rparr>) = loud c"
  "loud (c\<lparr>query_start_gps := g\<rparr>) = loud c" "loud (c\<lparr>query_goal_gps := g\<rparr>) = loud c"
  by (simp_all add: loud_def)

lemma loud_republish [simp]: "loud (p c) = loud c \<Longrightarrow> loud (republish now ms p c) = loud c"
  by (simp add: republish_def)

section \<open>Scripts\<close>

text \<open>What a handler reads when it runs: the clock, the two services and the vehicle's transform.\<close>

type_synonym moment = "time_point \<times> autoware_services \<times> local_coord option"

abbreviation moment_tf :: "moment \<Rightarrow> local_coord option" where
  "moment_tf m \<equiv> snd (snd m)"

fun timed :: "moment \<Rightarrow> ctrl_event \<Rightarrow> timed_event" where
  "timed (now, svc, tf) (EvTick _ _) = (now, EvTick svc tf)"
| "timed (now, svc, tf) (EvQueryEta s g cb _) = (now, EvQueryEta s g cb tf)"
| "timed (now, svc, tf) e = (now, e)"

text \<open>A tick whose readings are left to the moment it runs in.\<close>

definition some_tick :: ctrl_event where
  "some_tick = EvTick \<lparr>mode_service_ready = False, engage_service_ready = False\<rparr> None"

lemma timed_some_tick [simp]: "timed m some_tick = (fst m, EvTick (fst (snd m)) (moment_tf m))"
  by (cases m) (simp add: some_tick_def)

definition quote_script :: "real \<Rightarrow> real \<Rightarrow> ctrl_event list" where
  "quote_script d e = [some_tick, some_tick, some_tick, EvRouteState RS_SET, some_tick, EvEta d e]"

definition approach_script :: "ctrl_event list" where
  "approach_script =
     [some_tick, some_tick, some_tick, EvModeResponse True, EvEngageResponse 1, EvRouteState RS_ARRIVED, some_tick]"

definition ride_script :: "ctrl_event list" where
  "ride_script = [some_tick, EvModeResponse True, EvEngageResponse 1, EvRouteState RS_ARRIVED, some_tick]"


section \<open>The quotes\<close>

lemma length_6: "length xs = 6 \<Longrightarrow> \<exists>a b c d e f. xs = [a, b, c, d, e, f]"
  by (auto simp: length_Suc_conv eval_nat_numeral)

lemma length_7: "length xs = 7 \<Longrightarrow> \<exists>a b c d e f g. xs = [a, b, c, d, e, f, g]"
  by (auto simp: length_Suc_conv eval_nat_numeral)

lemma length_5: "length xs = 5 \<Longrightarrow> \<exists>a b c d e. xs = [a, b, c, d, e]"
  by (auto simp: length_Suc_conv eval_nat_numeral)

text \<open>Autoware's part of a quote; the tick after it ends the leg.\<close>

lemma quote_heard:
  assumes "length ms = 6" "state_of c = QUERY_PUBLISHING_INITIAL_POSE" "localised c"
  obtains c1 where "run ctrl_step (map2 timed ms (quote_script d e)) c = Inr c1"
    "state_of c1 = QUERY_READING_ETA" "eta_received c1" "core c1 = core c" "site c1 = site c" "loud c1 = loud c"
    "eta_distance_m c1 = d" "eta_seconds c1 = e"
proof -
  obtain m1 m2 m3 m4 m5 m6 where ms: "ms = [m1, m2, m3, m4, m5, m6]"
    using length_6 [OF assms(1)] by blast
  define c2 where "c2 = transitionTo (fst m1) QUERY_WAITING_LOCALISATION (publish_start (look (moment_tf m1) c))"
  define c3 where "c3 = transitionTo (fst m2) QUERY_PUBLISHING_GOAL (look (moment_tf m2) c2)"
  define c4 where "c4 = transitionTo (fst m3) QUERY_WAITING_ROUTE
    ((publish_goal (look (moment_tf m3) c3))\<lparr>route_received := False, current_route_state := None\<rparr>)"
  define c5 where "c5 = c4\<lparr>current_route_state := Some RS_SET\<rparr>"
  define c6 where "c6 = transitionTo (fst m5) QUERY_READING_ETA ((look (moment_tf m5) c5)\<lparr>eta_received := False\<rparr>)"
  have c2: "ctrl_step (timed m1 some_tick) c = Inr c2" "state_of c2 = QUERY_WAITING_LOCALISATION" "site c2 = site c"
    "loud c2 = loud c" "core c2 = core c"
    using assms(2) by (simp_all add: c2_def loud_transitionTo onTick_look tick_def)
  have c3: "ctrl_step (timed m2 some_tick) c2 = Inr c3" "state_of c3 = QUERY_PUBLISHING_GOAL" "site c3 = site c"
    "loud c3 = loud c" "core c3 = core c"
    using c2(2-5) assms(3) site_localised [OF c2(3)]
    by (simp_all add: c3_def loud_transitionTo onTick_look tick_def tick_query_localisation_def)
  have c4: "ctrl_step (timed m3 some_tick) c3 = Inr c4" "state_of c4 = QUERY_WAITING_ROUTE" "site c4 = site c"
    "loud c4 = loud c" "core c4 = core c"
    using c3(2-5) by (simp_all add: c4_def loud_transitionTo onTick_look tick_def)
  have c5: "ctrl_step (timed m4 (EvRouteState RS_SET)) c4 = Inr c5" "state_of c5 = QUERY_WAITING_ROUTE"
    "site c5 = site c" "loud c5 = loud c" "core c5 = core c" "current_route_state c5 = Some RS_SET"
    using c4(2-5) by (cases m4; simp add: c5_def)+
  have c6: "ctrl_step (timed m5 some_tick) c5 = Inr c6" "state_of c6 = QUERY_READING_ETA" "site c6 = site c"
    "loud c6 = loud c" "core c6 = core c"
    using c5(2-6) by (simp_all add: c6_def loud_transitionTo onTick_look tick_def tick_query_route_def)
  let ?c7 = "injectEta d e c6"
  have c7: "ctrl_step (timed m6 (EvEta d e)) c6 = Inr ?c7" "state_of ?c7 = QUERY_READING_ETA" "site ?c7 = site c"
    "loud ?c7 = loud c" "core ?c7 = core c" "eta_received ?c7" "eta_distance_m ?c7 = d" "eta_seconds ?c7 = e"
    using c6(2-5) by (cases m6; simp add: injectEta_def)+
  have "run ctrl_step (map2 timed ms (quote_script d e)) c = Inr ?c7"
    unfolding ms quote_script_def using c2(1) c3(1) c4(1) c5(1) c6(1) c7(1)
    by (simp del: ctrl_step.simps timed_some_tick)
  with c7 that show thesis by simp
qed

lemma quote_end:
  "state_of c = QUERY_READING_ETA \<Longrightarrow> eta_received c \<Longrightarrow>
     ctrl_step (timed m some_tick) c = finishQueryLeg (fst m) (look (moment_tf m) c)"
  by (simp add: onTick_look tick_def tick_query_eta_def)

text \<open>The quote of the pickup leg.\<close>

lemma startQueryLeg_heard:
  assumes "startQueryLeg now f t c = Inr c'" "state_of c' = QUERY_PUBLISHING_INITIAL_POSE"
  shows "loud c' = loud c \<and> query_result c' = query_result c \<and> query_cb c' = query_cb c \<and> site c' = site c"
  using assms site_startQueryLeg [OF assms(1)]
  by (auto simp: startQueryLeg_def loud_transitionTo split: sum.splits prod.splits option.splits)

lemma finish_pickup_leg_heard:
  assumes "finish_pickup_leg now c = Inr c'" "state_of c' = QUERY_PUBLISHING_INITIAL_POSE"
  shows "loud c' = loud c \<and> query_cb c' = query_cb c \<and> pickup_leg (query_result c') = current_leg_eta c"
  using assms by (auto simp: finish_pickup_leg_def Let_def dest!: startQueryLeg_heard split: sum.splits)

lemma quote_pickup_heard:
  assumes "length ms = 6" "ctrl_inv c" "state_of c = QUERY_PUBLISHING_INITIAL_POSE" "localised c"
    "current_leg c = PICKUP"
    "\<And>g. goal_lanelet_id (status c) = to_string g \<Longrightarrow> connected_id (tc_map c) (query_goal_gps c) g True \<noteq> None"
  obtains c1 c' where "run ctrl_step (map2 timed ms (quote_script d e)) c = Inr c1" "loud c1 = loud c"
    "ctrl_step (timed m some_tick) c1 = Inr c'" "ctrl_inv c'" "site c' = site c"
    "state_of c' = QUERY_PUBLISHING_INITIAL_POSE" "current_leg c' = TRIP" "loud c' = loud c"
    "query_cb c' = query_cb c" "leg_eta_seconds (pickup_leg (query_result c')) = e"
proof -
  obtain c1 where c1: "run ctrl_step (map2 timed ms (quote_script d e)) c = Inr c1"
    "state_of c1 = QUERY_READING_ETA" "eta_received c1" "core c1 = core c" "site c1 = site c" "loud c1 = loud c"
    "eta_seconds c1 = e"
    using quote_heard [OF assms(1,3,4)] by metis
  let ?c1 = "look (moment_tf m) c1"
  have inv: "ctrl_inv ?c1" "ctrl_inv c1" using core_eq_inv [of ?c1 c] core_eq_inv [of c1 c] c1(2,4) assms(2,3) by simp_all
  obtain c' where c': "finish_pickup_leg (fst m) ?c1 = Inr c'" "state_of c' = QUERY_PUBLISHING_INITIAL_POSE"
    "current_leg c' = TRIP"
  proof (rule finish_pickup_leg_resolved [of ?c1 "fst m"])
    show "map_ok ?c1" "leg_inv ?c1" using inv(1) c1(2) by (simp_all add: ctrl_inv_def)
    show "current_leg ?c1 = PICKUP" "localised ?c1"
      using c1(4,5) assms(4,5) by (simp_all add: core_def site_localised [of c1 c])
    show "connected_id (tc_map ?c1) (query_goal_gps ?c1) g True \<noteq> None"
      if "goal_lanelet_id (status ?c1) = to_string g" for g
      using assms(6) [of g] that c1(4) by (simp add: core_def)
  qed
  have end_leg: "finishQueryLeg (fst m) ?c1 = Inr c'"
    using c1(4) c'(1) assms(5) by (simp add: finishQueryLeg_def core_def)
  then have step: "ctrl_step (timed m some_tick) c1 = Inr c'"
    using quote_end [OF c1(2,3)] by simp
  show thesis
    by (rule that [OF c1(1,6) step ctrl.step_Inr [OF inv(2) step] _ c'(2,3)])
      (use finish_pickup_leg_heard [OF c'(1,2)] site_finishQueryLeg [OF end_leg] c1(4-7) in
        \<open>simp_all add: core_def current_leg_eta_def\<close>)
qed

text \<open>The quote of the trip leg ends the query and answers it.\<close>

lemma quote_trip_heard:
  assumes "length ms = 6" "ctrl_inv c" "state_of c = QUERY_PUBLISHING_INITIAL_POSE" "localised c"
    "current_leg c = TRIP" "query_cb c = Some k"
  obtains c1 c' r where "run ctrl_step (map2 timed ms (quote_script d e)) c = Inr c1" "loud c1 = loud c"
    "ctrl_step (timed m some_tick) c1 = Inr c'" "ctrl_inv c'" "site c' = site c"
    "state_of c' = ROUTES_READY" "loud c' = loud c @ [QueryReply k r]" "q_success r"
    "pickup_leg r = pickup_leg (query_result c)" "leg_distance_m (trip_leg r) = d" "leg_eta_seconds (trip_leg r) = e"
proof -
  obtain c1 where c1: "run ctrl_step (map2 timed ms (quote_script d e)) c = Inr c1"
    "state_of c1 = QUERY_READING_ETA" "eta_received c1" "core c1 = core c" "site c1 = site c" "loud c1 = loud c"
    "eta_distance_m c1 = d" "eta_seconds c1 = e"
    using quote_heard [OF assms(1,3,4)] by metis
  have same: "current_leg c1 = TRIP" "query_cb c1 = Some k" "query_result c1 = query_result c"
    using c1(4) assms(5,6) by (simp_all add: core_def)
  let ?c1 = "look (moment_tf m) c1"
  let ?c' = "finish_trip_leg (fst m) ?c1"
  let ?r = "(query_result c1)\<lparr>trip_leg := current_leg_eta ?c1, q_success := True\<rparr>"
  have step: "ctrl_step (timed m some_tick) c1 = Inr ?c'"
    using quote_end [OF c1(2,3)] same(1) by (simp add: finishQueryLeg_def)
  have "loud ?c' = loud ?c1 @ [QueryReply k ?r]"
    using same(2) by (simp add: finish_trip_leg_def Let_def loud_transitionTo del: loud_simps) (simp add: loud_def)
  moreover have "ctrl_inv ?c'" using ctrl.step_Inr [OF ctrl.run_inv [OF assms(2) c1(1)] step] .
  ultimately show thesis
    using c1 same step that [of c1 ?c' ?r] by (simp add: current_leg_eta_def)
qed

text \<open>The query itself is not heard.\<close>

lemma queryEta_heard:
  assumes "queryEta now tf s g cb c = Inr (True, c')" "state_of c' = QUERY_PUBLISHING_INITIAL_POSE"
  shows "loud c' = loud c \<and> query_cb c' = cb \<and> site c' = site c"
  using assms
  by (auto simp: queryEta_def Let_def dest!: startQueryLeg_heard split: if_splits option.splits sum.splits)

section \<open>The approach and the ride\<close>

lemma startTrip_heard:
  assumes "startTrip now c = Inr (True, c')"
  shows "loud c' = loud c \<and> site c' = site c"
  using assms
  by (auto simp: startTrip_def Let_def loud_transitionTo dest!: lookup_survey
      split: sum.splits prod.splits option.splits if_splits)

text \<open>Accepted at the pickup, the move command begins the ride to the destination.\<close>

lemma move_heard:
  assumes "move now c = Inr (True, c')"
  shows "loud c' = loud c \<and> site c' = site c"
  using assms site_move [OF assms]
  by (auto simp: move_def Let_def loud_transitionTo split: sum.splits prod.splits option.splits if_splits)

text \<open>The engagement is asked for, granted, and starts the drive.\<close>

lemma engage_tick:
  assumes "state_of c = ENGAGING"
  obtains c' where "ctrl_step (timed m some_tick) c = Inr c'" "state_of c' = ENGAGING" "site c' = site c"
    "loud c' = loud c" "engaging_for_pickup c' = engaging_for_pickup c" "core c' = core c"
    "on_state_change c' = on_state_change c"
proof
  let ?c = "look (moment_tf m) c"
  let ?c' = "republish (fst m) 2000 (doEngage (fst (snd m))) ?c"
  show step: "ctrl_step (timed m some_tick) c = Inr ?c'" using assms by (simp add: onTick_look tick_def)
  show "engaging_for_pickup ?c' = engaging_for_pickup c"
    by (auto simp: republish_def doEngage_def emit_def split: option.split)
  show "on_state_change ?c' = on_state_change c" using on_state_change_step step by (metis timed_some_tick)
qed (use assms in simp_all)

lemma arrival_report:
  assumes "on_state_change c" "state_of c \<noteq> s" "s \<in> {DRIVING_TO_PICKUP, WAITING_FOR_MOVE, RUNNING, COMPLETED, FAILED}"
  shows "\<exists>st. loud (transitionTo now s c) = loud c @ [StateChanged (state_of c) s st] \<and>
      current_gps st = current_gps (status c)"
  using assms by (simp add: loud_transitionTo)

text \<open>Engaged, driven and arrived, in either half of the trip.\<close>

lemma engaged_heard:
  assumes "length ms = 5" "state_of c = ENGAGING" "on_state_change c" "ctrl_inv c"
    "getCurrentVehiclePose (moment_tf (last ms)) c = Some g"
  obtains c' st1 st2 where "run ctrl_step (map2 timed ms ride_script) c = Inr c'" "ctrl_inv c'" "site c' = site c"
    "state_of c' = (if engaging_for_pickup c then WAITING_FOR_MOVE else COMPLETED)" "current_gps st2 = g"
    "loud c' = loud c @ (if engaging_for_pickup c
       then [StateChanged ENGAGING DRIVING_TO_PICKUP st1, StateChanged DRIVING_TO_PICKUP WAITING_FOR_MOVE st2]
       else [StateChanged ENGAGING RUNNING st1, StateChanged RUNNING COMPLETED st2])"
proof -
  obtain m1 m2 m3 m4 m5 where ms: "ms = [m1, m2, m3, m4, m5]" using length_5 [OF assms(1)] by blast
  obtain c1 where c1: "ctrl_step (timed m1 some_tick) c = Inr c1" "state_of c1 = ENGAGING" "site c1 = site c"
    "loud c1 = loud c" "engaging_for_pickup c1 = engaging_for_pickup c" "on_state_change c1"
    using engage_tick [OF assms(2), of m1] assms(3) by metis
  let ?c2 = "emit EngageRequest c1"
  let ?driving = "if engaging_for_pickup c then DRIVING_TO_PICKUP else RUNNING"
  let ?arrived = "if engaging_for_pickup c then WAITING_FOR_MOVE else COMPLETED"
  have c2: "ctrl_step (timed m2 (EvModeResponse True)) c1 = Inr ?c2" by (cases m2) (simp add: onModeResponse_def)
  define c3 where "c3 = transitionTo (fst m3) ?driving ?c2"
  have e2: "state_of ?c2 = ENGAGING" "on_state_change ?c2" "loud ?c2 = loud c" "site ?c2 = site c"
    "engaging_for_pickup ?c2 = engaging_for_pickup c"
    using c1(2-6) by (simp_all add: emit_def) (simp_all add: loud_def site_def)
  have c3: "ctrl_step (timed m3 (EvEngageResponse 1)) ?c2 = Inr c3" "state_of c3 = ?driving" "site c3 = site c"
    "on_state_change c3"
    using e2 by (cases m3; simp add: onEngageResponse_def c3_def)+
  obtain st1 where st1: "loud c3 = loud c @ [StateChanged ENGAGING ?driving st1]"
    using arrival_report [of ?c2 ?driving "fst m3"] e2 unfolding c3_def by (cases "engaging_for_pickup c") auto
  define c4 where "c4 = look (moment_tf m5) (c3\<lparr>current_route_state := Some RS_ARRIVED\<rparr>)"
  have c4: "state_of c4 = ?driving" "site c4 = site c" "loud c4 = loud c3" "on_state_change c4"
    "current_route_state c4 = Some RS_ARRIVED" "current_gps (status c4) = g"
    using c3(2-4) assms(5) look_gps [of "moment_tf m5" "c3\<lparr>current_route_state := Some RS_ARRIVED\<rparr>" g]
      pose_site [of "c3\<lparr>current_route_state := Some RS_ARRIVED\<rparr>" c "moment_tf m5"]
    by (simp_all add: c4_def ms)
  obtain c5 where c5: "tick (fst (snd m5)) (fst m5) c4 = Inr (transitionTo (fst m5) ?arrived c5)" "state_of c5 = ?driving"
    "site c5 = site c" "loud c5 = loud c3" "on_state_change c5" "current_gps (status c5) = g"
  proof
    let ?c5 = "(if engaging_for_pickup c then if on_pickup_arrived c4 then emit PickupArrived c4 else c4
                else if on_dropoff_arrived c4 then emit DropoffArrived c4 else c4)\<lparr>current_route_state := None\<rparr>"
    show "tick (fst (snd m5)) (fst m5) c4 = Inr (transitionTo (fst m5) ?arrived ?c5)"
      using c4(1,5) by (simp add: tick_def tick_driving_to_pickup_def tick_running_def)
    show "on_state_change ?c5" "current_gps (status ?c5) = g" "state_of ?c5 = ?driving"
      using c4(1,4,6) by (simp_all add: emit_def)
  qed (use c4(2,3) in simp_all)
  obtain st2 where st2: "loud (transitionTo (fst m5) ?arrived c5) = loud c5 @ [StateChanged ?driving ?arrived st2]"
    "current_gps st2 = g"
    using arrival_report [of c5 ?arrived "fst m5"] c5(2,5,6) by (cases "engaging_for_pickup c") auto
  have run: "run ctrl_step (map2 timed ms ride_script) c = Inr (transitionTo (fst m5) ?arrived c5)"
    unfolding ms ride_script_def using c1(1) c2 c3(1) c5(1)
    by (cases m4) (simp add: onTick_look c4_def)
  show thesis
    by (rule that [OF run ctrl.run_inv [OF assms(4) run]])
      (use c5(3,4) st1 st2 in \<open>simp_all split: if_splits\<close>)
qed

text \<open>From the first move command to the pickup.\<close>

lemma approach_heard:
  assumes "length ms = 7" "state_of c = PUBLISHING_INITIAL_POSE" "on_state_change c" "ctrl_inv c" "localised c"
    "engaging_for_pickup c" "getCurrentVehiclePose (moment_tf (last ms)) c = Some g"
  obtains c' st1 st2 where "run ctrl_step (map2 timed ms approach_script) c = Inr c'" "ctrl_inv c'" "site c' = site c"
    "state_of c' = WAITING_FOR_MOVE" "current_gps st2 = g"
    "loud c' = loud c @ [StateChanged ENGAGING DRIVING_TO_PICKUP st1, StateChanged DRIVING_TO_PICKUP WAITING_FOR_MOVE st2]"
proof -
  obtain m1 m2 m3 m4 m5 m6 m7 where ms: "ms = [m1, m2, m3, m4, m5, m6, m7]"
    using length_7 [OF assms(1)] by blast
  define c1 where "c1 = transitionTo (fst m1) WAITING_LOCALISATION (publish_init (look (moment_tf m1) c))"
  define c2 where "c2 = transitionTo (fst m2) ENGAGING (publish_start_as_goal (look (moment_tf m2) c1))"
  have c1: "ctrl_step (timed m1 some_tick) c = Inr c1" "state_of c1 = WAITING_LOCALISATION" "site c1 = site c"
    "loud c1 = loud c" "on_state_change c1" "engaging_for_pickup c1"
    using assms(2,3,6) by (simp_all add: c1_def loud_transitionTo onTick_look tick_def)
       (simp add: publish_defs)
  have c2: "ctrl_step (timed m2 some_tick) c1 = Inr c2" "state_of c2 = ENGAGING" "site c2 = site c"
    "loud c2 = loud c" "on_state_change c2" "engaging_for_pickup c2"
    using c1(2-6) assms(5) site_localised [OF c1(3)]
    by (simp_all add: c2_def loud_transitionTo onTick_look tick_def tick_localisation_def)
       (simp add: publish_defs)
  have inv: "ctrl_inv c2" using ctrl.step_Inr [OF ctrl.step_Inr [OF assms(4) c1(1)] c2(1)] .
  have "getCurrentVehiclePose (moment_tf (last [m3, m4, m5, m6, m7])) c2 = Some g"
    using assms(7) pose_site [OF c2(3)] by (simp add: ms)
  note arrive = engaged_heard [OF _ c2(2,5) inv this, unfolded if_P [OF c2(6)]]
  obtain c' st1 st2 where
    c': "run ctrl_step (map2 timed [m3, m4, m5, m6, m7] ride_script) c2 = Inr c'" "ctrl_inv c'" "site c' = site c2"
      "state_of c' = WAITING_FOR_MOVE" "current_gps st2 = g"
      "loud c' = loud c2 @ [StateChanged ENGAGING DRIVING_TO_PICKUP st1, StateChanged DRIVING_TO_PICKUP WAITING_FOR_MOVE st2]"
    by (rule arrive) (simp, rule that)
  have split: "approach_script = some_tick # some_tick # ride_script" by (simp add: approach_script_def ride_script_def)
  have "run ctrl_step (map2 timed ms approach_script) c = Inr c'"
    by (simp only: ms zip_Cons_Cons list.map prod.case run.simps sum.case split c1(1) c2(1) c'(1))
  with c' c2(3,4) that show thesis by simp
qed

end
