(* ===== verification/TripPoses.thy ===== *)
theory TripPoses
  imports TripSignals
begin

text \<open>
  The poses the trip controller sends to Autoware. It keeps a lane as a text and five numbers;
  this theory shows that the text names a lane of the map's cache and the numbers are that
  lane's, so that everything published is the pose of a lane or the fixed start.
\<close>

section \<open>A lane kept as a text and a pose\<close>

definition lane_msg :: "lane_info \<Rightarrow> pose_msg" where
  "lane_msg l = map_pose (pos_x (lane_local l)) (pos_y (lane_local l)) (pos_z (lane_local l))
     (ori_z (lane_orientation l)) (ori_w (lane_orientation l))"

definition names_lane :: "lanelet_map \<Rightarrow> string \<Rightarrow> pose_msg \<Rightarrow> bool" where
  "names_lane m txt p \<longleftrightarrow> (\<exists>l. cache_find m (lane_id l) = Some l \<and> txt = to_string (lane_id l) \<and> p = lane_msg l)"

definition start_msg :: "trip_status \<Rightarrow> pose_msg" where
  "start_msg s = map_pose (start_x s) (start_y s) (start_z s) (start_qz s) (start_qw s)"

definition goal_msg :: "trip_status \<Rightarrow> pose_msg" where
  "goal_msg s = map_pose (goal_x s) (goal_y s) (goal_z s) (goal_qz s) (goal_qw s)"

definition init_msg :: "trip_controller \<Rightarrow> pose_msg" where
  "init_msg c = map_pose (init_x c) (init_y c) (init_z c) (init_qz c) (init_qw c)"

definition start_placed :: "trip_controller \<Rightarrow> bool" where
  "start_placed c \<longleftrightarrow> names_lane (tc_map c) (start_lanelet_id (status c)) (start_msg (status c))"

definition goal_placed :: "trip_controller \<Rightarrow> bool" where
  "goal_placed c \<longleftrightarrow> names_lane (tc_map c) (goal_lanelet_id (status c)) (goal_msg (status c))"

lemma names_lane_extends: "cache_extends m m' \<Longrightarrow> names_lane m txt p \<Longrightarrow> names_lane m' txt p"
  by (auto simp: names_lane_def dest: cache_extends_find)

text \<open>The text read back with \<open>stoll\<close> finds the lane, in the cache and with the pose that was kept.\<close>

lemma names_lane_read_back:
  assumes "names_lane m txt p"
  obtains l where "stoll txt = Inr (lane_id l)" "getLaneById m (lane_id l) = Inr (Some l, m)" "p = lane_msg l"
  using assms by (auto simp: names_lane_def getLaneById_def)

section \<open>The invariant\<close>

definition pose_inv :: "trip_controller \<Rightarrow> bool" where
  "pose_inv c \<longleftrightarrow>
     (phase_of (state_of c) \<in> {Quoting, Underway} \<longrightarrow> start_placed c) \<and>
     (phase_of (state_of c) = Quoting \<or> state_of c \<in> {RUNNING, COMPLETED} \<or>
        state_of c = ENGAGING \<and> \<not> engaging_for_pickup c \<longrightarrow> goal_placed c) \<and>
     (state_of c \<in> {WAITING_FOR_PICKUP_START, PUBLISHING_INITIAL_POSE, WAITING_LOCALISATION} \<longrightarrow> engaging_for_pickup c)"

text \<open>What the invariant reads.\<close>

definition places where
  "places c = (tc_map c, start_lanelet_id (status c), start_msg (status c), goal_lanelet_id (status c), goal_msg (status c),
     engaging_for_pickup c)"

lemma places_placed: "places c' = places c \<Longrightarrow> start_placed c' = start_placed c \<and> goal_placed c' = goal_placed c \<and>
    engaging_for_pickup c' = engaging_for_pickup c"
  by (simp add: places_def start_placed_def goal_placed_def)

lemma places_same: "places c' = places c \<Longrightarrow> state_of c' = state_of c \<Longrightarrow> pose_inv c' = pose_inv c"
  using places_placed [of c' c] by (simp add: pose_inv_def)

lemma places_simps [simp]:
  "places (transitionTo now s c) = places c" "places (emit e c) = places c" "places (publish_init c) = places c"
  "places (publish_start c) = places c" "places (publish_goal c) = places c" "places (publish_start_as_goal c) = places c"
  "places (doEngage svc c) = places c" "places (look tf c) = places c" "places (reply_now cb q c) = places c"
  "places (c\<lparr>current_route_state := r\<rparr>) = places c" "places (c\<lparr>route_received := b\<rparr>) = places c"
  "places (c\<lparr>eta_received := b\<rparr>) = places c" "places (c\<lparr>eta_distance_m := d\<rparr>) = places c"
  "places (c\<lparr>eta_seconds := d\<rparr>) = places c" "places (c\<lparr>last_publish_time := t\<rparr>) = places c"
  "places (c\<lparr>current_loc_state := l\<rparr>) = places c" "places (c\<lparr>current_mode_state := ms\<rparr>) = places c"
  "places (c\<lparr>last_route := lr\<rparr>) = places c" "places (c\<lparr>outbox := es\<rparr>) = places c"
  by (simp_all add: places_def start_msg_def goal_msg_def publish_defs doEngage_def look_def reply_now_def
      split: option.split)

lemma places_republish [simp]: "places (p c) = places c \<Longrightarrow> places (republish now ms p c) = places c"
  by (simp add: republish_def)

lemma pose_inv_IDLE: "state_of c = IDLE \<or> state_of c = ROUTES_READY \<or> state_of c = FAILED \<Longrightarrow> pose_inv c"
  by (auto simp: pose_inv_def)

lemma pose_inv_failQuery [simp]: "pose_inv (failQuery now q c)"
  by (simp add: pose_inv_IDLE)

section \<open>The legs\<close>

lemma set_leg_status_msgs [simp]:
  "start_msg (set_leg_status m f t g s) = lane_msg f" "goal_msg (set_leg_status m f t g s) = lane_msg t"
  by (simp_all add: start_msg_def goal_msg_def set_leg_status_def lane_msg_def Let_def)

lemma transitionTo_msgs [simp]:
  "start_msg (status (transitionTo now s c)) = start_msg (status c)"
  "goal_msg (status (transitionTo now s c)) = goal_msg (status c)"
  by (simp_all add: start_msg_def goal_msg_def)

lemma query_from_lane_found:
  assumes "map_ok c" "query_from_lane g c = Inr (r, m)"
  shows "cache_extends (tc_map c) m" "\<And>l. r = Some l \<Longrightarrow> cache_find m (lane_id l) = Some l \<and> lane_id l \<in> lane_ids m"
    "wf_map m" "cache_inv m"
proof -
  have m: "wf_map (tc_map c)" "cache_inv (tc_map c)" using assms(1) by (simp_all add: map_ok_def)
  have lk: "cache_extends (tc_map c) m \<and> (\<forall>l. r = Some l \<longrightarrow> cache_find m (lane_id l) = Some l) \<and> wf_map m \<and> cache_inv m"
    using assms(2) nearest.lookup_Inr [OF m TrueI, of g r m] by_id.lookup_Inr [OF m TrueI, of _ r m]
    by (auto simp: query_from_lane_def split: if_splits sum.splits)
  then show "cache_extends (tc_map c) m" "wf_map m" "cache_inv m"
    "\<And>l. r = Some l \<Longrightarrow> cache_find m (lane_id l) = Some l \<and> lane_id l \<in> lane_ids m"
    by (auto intro: cache_find_lane_ids)
qed

lemma startQueryLeg_placed:
  assumes "map_ok c" "startQueryLeg now f t c = Inr c'"
  shows "pose_inv c'"
proof (cases "state_of c' = IDLE")
  case True
  then show ?thesis by (simp add: pose_inv_IDLE)
next
  case False
  then obtain l m1 to_lane m2 where q: "query_from_lane f c = Inr (Some l, m1)"
    "findNearestConnectedLane m1 t (lane_id l) True = Inr (Some to_lane, m2)"
    "c' = transitionTo now QUERY_PUBLISHING_INITIAL_POSE (c\<lparr>tc_map := m2, status := set_leg_status m2 l to_lane t (status c)\<rparr>)"
    using assms(2) by (auto simp: startQueryLeg_def split: sum.splits prod.splits option.splits)
  note f = query_from_lane_found [OF assms(1) q(1)]
  note fl = f(2) [OF refl]
  note tl = connected.lookup_Inr [OF f(3,4) conjunct2 [OF fl] q(2)]
  have "cache_find m2 (lane_id l) = Some l" using cache_extends_find [OF tl(1) conjunct1 [OF fl]] .
  moreover have "cache_find m2 (lane_id to_lane) = Some to_lane" using tl(5) by simp
  ultimately have "start_placed c'" "goal_placed c'"
    unfolding start_placed_def goal_placed_def names_lane_def by (auto simp: q(3))
  then show ?thesis by (simp add: pose_inv_def q(3))
qed

lemma finishQueryLeg_placed:
  assumes "map_ok c" "finishQueryLeg now c = Inr c'"
  shows "pose_inv c'"
proof (cases "current_leg c")
  case TRIP
  with assms(2) show ?thesis by (auto simp: finishQueryLeg_def intro!: pose_inv_IDLE)
next
  case PICKUP
  with assms obtain d g where "startQueryLeg now (query_start_gps c) g d = Inr c'" "map_ok d"
    by (auto simp: finishQueryLeg_def finish_pickup_leg_def Let_def map_ok_def split: sum.splits)
  then show ?thesis using startQueryLeg_placed by blast
qed

lemma queryEta_placed:
  assumes "map_ok c" "pose_inv c" "queryEta now tf s g cb c = Inr (ok, c')"
  shows "pose_inv c'"
proof (cases "state_of c = IDLE \<and> getCurrentVehiclePose tf c \<noteq> None")
  case True
  with assms obtain d p where "startQueryLeg now p s d = Inr c'" "map_ok d"
    by (auto simp: queryEta_def Let_def map_ok_def split: sum.splits)
  then show ?thesis using startQueryLeg_placed by blast
next
  case False
  then obtain r where "c' = reply_now cb r c"
    using assms(3) by (auto simp: queryEta_def split: if_splits option.splits)
  then show ?thesis using places_same [of c' c] assms(2) by simp
qed


section \<open>Every step\<close>

lemma pose_inv_step:
  assumes "pose_inv c" "places c' = places c" "phase_of (state_of c) \<in> {Quoting, Underway}"
    "state_of c' \<in> {RUNNING, COMPLETED} \<or> phase_of (state_of c') = Quoting \<Longrightarrow> goal_placed c"
    "state_of c' = ENGAGING \<Longrightarrow> engaging_for_pickup c"
    "state_of c' \<in> {WAITING_FOR_PICKUP_START, PUBLISHING_INITIAL_POSE, WAITING_LOCALISATION} \<Longrightarrow> engaging_for_pickup c"
  shows "pose_inv c'"
  using assms places_placed [OF assms(2)] by (auto simp: pose_inv_def)

lemma tick_placed:
  assumes "ctrl_inv c" "pose_inv c" "tick svc now c = Inr c'"
  shows "pose_inv c'"
proof -
  have map_ok: "map_ok c" using assms(1) by (simp add: ctrl_inv_def)
  have quoting: "goal_placed c" if "phase_of (state_of c) = Quoting"
    using assms(2) that by (simp add: pose_inv_def)
  show ?thesis
  proof (cases "state_of c")
    case INITIALIZING_IN_MAP
    with assms(3) have "state_of c' \<in> {INITIALIZING_IN_MAP, IDLE}"
      by (auto simp: tick_def tick_initializing_def)
    then show ?thesis by (auto simp: pose_inv_def)
  next
    case QUERY_PUBLISHING_INITIAL_POSE
    with assms(3) show ?thesis by (auto simp: tick_def quoting intro!: pose_inv_step [OF assms(2)])
  next
    case QUERY_WAITING_LOCALISATION
    with assms(3) consider q d where "c' = failQuery now q d" | "places c' = places c" "phase_of (state_of c') = Quoting"
      by (auto simp: tick_def tick_query_localisation_def Let_def split: if_splits)
    then show ?thesis
      by cases (use QUERY_WAITING_LOCALISATION quoting in \<open>auto intro!: pose_inv_step [OF assms(2)]\<close>)
  next
    case QUERY_PUBLISHING_GOAL
    with assms(3) show ?thesis by (auto simp: tick_def quoting intro!: pose_inv_step [OF assms(2)])
  next
    case QUERY_WAITING_ROUTE
    with assms(3) consider q d where "c' = failQuery now q d" | "places c' = places c" "phase_of (state_of c') = Quoting"
      by (auto simp: tick_def tick_query_route_def Let_def split: if_splits)
    then show ?thesis
      by cases (use QUERY_WAITING_ROUTE quoting in \<open>auto intro!: pose_inv_step [OF assms(2)]\<close>)
  next
    case QUERY_READING_ETA
    with assms(3) map_ok assms(2) show ?thesis
      by (auto simp: tick_def tick_query_eta_def map_ok_def split: if_splits dest: finishQueryLeg_placed [rotated])
  next
    case PUBLISHING_INITIAL_POSE
    moreover have "engaging_for_pickup c" using assms(2) PUBLISHING_INITIAL_POSE by (simp add: pose_inv_def)
    ultimately show ?thesis using assms(3) by (auto simp: tick_def intro!: pose_inv_step [OF assms(2)])
  next
    case WAITING_LOCALISATION
    moreover have "engaging_for_pickup c" using assms(2) WAITING_LOCALISATION by (simp add: pose_inv_def)
    ultimately show ?thesis using assms(3)
      by (auto simp: tick_def tick_localisation_def split: if_splits intro!: pose_inv_step [OF assms(2)])
  next
    case ENGAGING
    with assms(3) have "c' = republish now 2000 (doEngage svc) c" by (simp add: tick_def)
    then show ?thesis using places_same [of c' c] assms(2) by simp
  next
    case DRIVING_TO_PICKUP
    with assms(3) show ?thesis
      by (auto simp: tick_def tick_driving_to_pickup_def Let_def split: if_splits intro!: pose_inv_step [OF assms(2)])
  next
    case RUNNING
    moreover have "goal_placed c" using assms(2) RUNNING by (simp add: pose_inv_def)
    ultimately show ?thesis using assms(3)
      by (auto simp: tick_def tick_running_def Let_def split: if_splits intro!: pose_inv_step [OF assms(2)])
  qed (use assms(2,3) in \<open>simp_all add: tick_def\<close>)
qed

lemma lane_found:
  assumes "map_ok c"
  shows "getLaneById (tc_map c) i = Inr (Some l, m) \<Longrightarrow> cache_find m (lane_id l) = Some l"
    "findNearestConnectedLane (tc_map c) g i True = Inr (Some l, m) \<Longrightarrow> i \<in> lane_ids (tc_map c) \<Longrightarrow>
       cache_find m (lane_id l) = Some l \<and> cache_extends (tc_map c) m"
  using assms by_id.lookup_Inr(5) [of "tc_map c" i] connected.lookup_Inr(1,5) [of "tc_map c" i g]
  by (auto simp: map_ok_def)

lemma set_lane_msgs [simp]:
  "start_msg (set_start_lane l g s) = lane_msg l" "goal_msg (set_goal_lane l g d s) = lane_msg l"
  "start_msg (set_goal_lane l g d s) = start_msg s"
  by (simp_all add: start_msg_def goal_msg_def set_start_lane_def set_goal_lane_def lane_msg_def)

lemma startTrip_placed:
  assumes "ctrl_inv c" "pose_inv c" "startTrip now c = Inr (ok, c')"
  shows "pose_inv c'"
proof -
  have "pose_inv (c\<lparr>engaging_for_pickup := True, current_route_state := None\<rparr>)"
    using assms(2) by (auto simp: pose_inv_def start_placed_def goal_placed_def)
  moreover have "map_ok c" using assms(1) by (simp add: ctrl_inv_def)
  ultimately show ?thesis
    using assms(3)
    by (auto simp: startTrip_def Let_def pose_inv_IDLE split: sum.splits prod.splits option.splits if_splits
        dest!: lane_found(1))
      (auto simp: pose_inv_def start_placed_def names_lane_def)
qed


lemma move_placed:
  assumes "ctrl_inv c" "pose_inv c" "move now c = Inr (ok, c')"
  shows "pose_inv c'"
proof (cases "state_of c = WAITING_FOR_MOVE")
  case False
  with assms(2,3) show ?thesis by (simp add: move_def)
next
  case True
  have ok: "map_ok c" "bank_inv c" "at_pickup_lane c" "start_placed c" "engaging_for_pickup c \<or> True"
    using True assms(1,2) by (simp_all add: ctrl_inv_def pose_inv_def)
  then obtain pr tr where pr: "pickup_route c = Some pr" "trip_route c = Some tr"
    "held_goal_lane_id pr \<in> lane_ids (tc_map c)" "start_lanelet_id (status c) = to_string (held_goal_lane_id pr)"
    by (auto simp: bank_inv_def at_pickup_lane_def)
  then obtain g m where l: "findNearestConnectedLane (tc_map c) (held_goal_gps tr) (held_goal_lane_id pr) True = Inr (g, m)"
    "c' = (case g of None \<Rightarrow> transitionTo now FAILED (c\<lparr>tc_map := m\<rparr>)
       | Some gl \<Rightarrow> transitionTo now ENGAGING ((publish_goal (c\<lparr>tc_map := m,
           status := set_goal_lane gl (held_goal_gps tr) (held_distance_m tr) (status c),
           current_route_state := None\<rparr>))\<lparr>engaging_for_pickup := False\<rparr>))"
    using True assms(3) by (auto simp: move_def Let_def split: sum.splits prod.splits option.splits)
  show ?thesis
  proof (cases g)
    case None
    with l(2) show ?thesis by (simp add: pose_inv_IDLE)
  next
    case (Some gl)
    note f = lane_found(2) [OF ok(1) l(1)[unfolded Some] pr(3)]
    have "names_lane m (start_lanelet_id (status c)) (start_msg (status c))"
      using ok(4) names_lane_extends [OF conjunct2 [OF f]] by (simp add: start_placed_def)
    then show ?thesis
      using f by (auto simp: l(2) Some pose_inv_def start_placed_def goal_placed_def publish_defs names_lane_def)
  qed
qed

lemma goToPickup_placed:
  assumes "pose_inv c"
  shows "pose_inv (snd (goToPickup now c))"
proof (cases "state_of c = WAITING_FOR_PICKUP_START")
  case True
  then have "engaging_for_pickup c" using assms by (simp add: pose_inv_def)
  with True show ?thesis by (intro pose_inv_step [OF assms]) (simp_all add: goToPickup_def)
qed (use assms in \<open>simp add: goToPickup_def\<close>)

lemma onEngageResponse_placed:
  assumes "pose_inv c"
  shows "pose_inv (onEngageResponse now code c)"
proof (cases "code = 1 \<and> state_of c = ENGAGING")
  case True
  then have "goal_placed c" if "\<not> engaging_for_pickup c" using assms that by (simp add: pose_inv_def)
  with True show ?thesis
    by (intro pose_inv_step [OF assms]) (simp_all add: onEngageResponse_def split: if_splits)
qed (use assms in \<open>auto simp: onEngageResponse_def\<close>)

lemma step_placed:
  assumes "ctrl_inv c" "pose_inv c" "ctrl_step (now, e) c = Inr c'"
  shows "pose_inv c'"
proof -
  have map_ok: "map_ok c" using assms(1) by (simp add: ctrl_inv_def)
  show ?thesis
  proof (cases e)
    case (EvQueryEta s g cb tf)
    with assms(2,3) map_ok show ?thesis by (auto dest!: map_snd_InrD intro: queryEta_placed)
  next
    case EvStartTrip
    with assms show ?thesis by (auto dest!: map_snd_InrD intro: startTrip_placed)
  next
    case EvMoveCommand
    with assms show ?thesis
      by (auto dest!: map_snd_InrD simp: handleMoveCommand_def intro: move_placed goToPickup_placed split: if_splits)
  next
    case EvMove
    with assms show ?thesis by (auto dest!: map_snd_InrD intro: move_placed)
  next
    case (EvTick svc tf)
    have "ctrl_inv (look tf c)" using core_eq_inv [of "look tf c" c] assms(1) by simp
    moreover have "pose_inv (look tf c)" using places_same [of "look tf c" c] assms(2) by simp
    ultimately show ?thesis using EvTick assms(3) tick_placed by (simp add: onTick_look)
  next
    case EvCancel
    with assms(3) show ?thesis by (auto simp: cancel_def Let_def intro: pose_inv_IDLE)
  next
    case (EvModeResponse ok)
    with assms(2,3) show ?thesis using places_same [of c' c] by (auto simp: onModeResponse_def)
  next
    case (EvEta d t)
    with assms(2,3) show ?thesis using places_same [of c' c] by (auto simp: injectEta_def)
  next
    case (EvRoute r)
    have "places (onRouteReceived r c) = places c" by (simp add: onRouteReceived_def)
    with EvRoute assms(2,3) show ?thesis using places_same [of c' c] by (auto simp: onRouteReceived_def)
  qed (use assms(2,3) goToPickup_placed onEngageResponse_placed places_same [of c' c] in auto)
qed


section \<open>What is published\<close>

definition fixed_msg :: "fixed_start \<Rightarrow> pose_msg" where
  "fixed_msg fs = map_pose (pos_x (fs_local fs)) (pos_y (fs_local fs)) (pos_z (fs_local fs))
     (ori_z (fs_orientation fs)) (ori_w (fs_orientation fs))"

definition home_msg :: "lanelet_map \<Rightarrow> pose_msg" where
  "home_msg m = (case getDefaultStart m of None \<Rightarrow> map_pose 0 0 0 0 1 | Some fs \<Rightarrow> fixed_msg fs)"

definition at_home :: "trip_controller \<Rightarrow> bool" where
  "at_home c \<longleftrightarrow> init_msg c = home_msg (tc_map c)"

text \<open>A goal is the pose of a lane of the map, an initial pose that or the fixed start.\<close>

fun on_map :: "lanelet_map \<Rightarrow> effect \<Rightarrow> bool" where
  "on_map m (Goal p) \<longleftrightarrow> (\<exists>l \<in> set (cache m). p = lane_msg l)"
| "on_map m (InitialPose p cov) \<longleftrightarrow>
     cov = pose_covariance \<and> (p = home_msg m \<or> (\<exists>l \<in> set (cache m). p = lane_msg l))"
| "on_map m e \<longleftrightarrow> True"

lemma at_home_grounds: "grounds c' = grounds c \<Longrightarrow> at_home c' = at_home c"
  by (simp add: grounds_def at_home_def init_msg_def home_msg_def getDefaultStart_def split: option.split)

lemma at_home_booted: "at_home (booted m tm now)"
  by (auto simp: booted_def initializeInMap_def at_home_def init_msg_def home_msg_def fixed_msg_def
      setArrivalCallbacks_def setStateChangeCallback_def new_TripController_def publish_defs split: option.split)

lemma cache_find_in: "cache_find m i = Some l \<Longrightarrow> l \<in> set (cache m)"
  by (auto simp: cache_find_def dest: find_SomeD)

lemma publish_on_map:
  "at_home c \<Longrightarrow> adds (on_map (tc_map c)) c (publish_init c)"
  "start_placed c \<Longrightarrow> adds (on_map (tc_map c)) c (publish_start c)"
  "start_placed c \<Longrightarrow> adds (on_map (tc_map c)) c (publish_start_as_goal c)"
  "goal_placed c \<Longrightarrow> adds (on_map (tc_map c)) c (publish_goal c)"
  by (auto simp: adds_def publish_defs at_home_def init_msg_def start_placed_def goal_placed_def start_msg_def goal_msg_def
      names_lane_def dest: cache_find_in)

lemma adds_moved: "adds P c d \<Longrightarrow> adds P c (transitionTo now s d)" if "\<And>p n st. P (StateChanged p n st)"
  using that by (intro adds_transitionTo) auto

lemma on_map_moved: "adds (on_map m) c d \<Longrightarrow> adds (on_map m) c (transitionTo now s d)"
  by (rule adds_moved) simp_all

lemma on_map_failQuery: "adds (on_map m) c d \<Longrightarrow> adds (on_map m) c (failQuery now q d)"
  by (rule adds_trans [OF _ adds_failQuery]) simp_all

lemma on_map_emit: "on_map m e \<Longrightarrow> adds (on_map m) c (emit e c)"
  by (simp add: adds_def emit_def)

lemma tc_map_publish_goal [simp]: "tc_map (publish_goal c) = tc_map c"
  by (simp add: publish_defs)

lemma tick_on_map:
  assumes "ctrl_inv c" "pose_inv c" "at_home c" "tick svc now c = Inr c'"
  shows "adds (on_map (tc_map c')) c c'"
proof (cases "state_of c = QUERY_READING_ETA")
  case True
  have "adds P c c'" if "finishQueryLeg now d = Inr c'" "outbox d = outbox c" "P = on_map (tc_map c')" for d P
    using finishQueryLeg_effects [OF that(1), of P] that(2,3) by (simp add: adds_outbox [of d c])
  with True assms(4) show ?thesis by (auto simp: tick_def tick_query_eta_def split: if_splits)
next
  case False
  have same: "tc_map c' = tc_map c"
    using assms(4) False
    by (cases "state_of c")
      (auto simp: tick_def tick_initializing_def tick_query_localisation_def tick_query_route_def tick_localisation_def
        tick_driving_to_pickup_def tick_running_def Let_def republish_def doEngage_def publish_defs
        split: if_splits option.splits)
  have start: "start_placed c" if "phase_of (state_of c) \<in> {Quoting, Underway}"
    using assms(2) that unfolding pose_inv_def by blast
  have goal: "goal_placed c" if "phase_of (state_of c) = Quoting"
    using assms(2) that by (simp add: pose_inv_def)
  note pub = publish_on_map(1) [OF assms(3)] publish_on_map(2,3) [OF start] publish_on_map(4) [OF goal]
  have engage: "adds (on_map m) c (doEngage svc c)" for m by (rule doEngage_effects) simp
  show ?thesis
    unfolding same using assms(4) False
    by (cases "state_of c")
      (auto simp: tick_def tick_initializing_def tick_query_localisation_def tick_query_route_def tick_localisation_def
        tick_driving_to_pickup_def tick_running_def Let_def pub engage
        intro!: on_map_moved on_map_failQuery adds_republish on_map_emit split: if_splits)
qed


lemma move_on_map:
  assumes "ctrl_inv c" "pose_inv c" "move now c = Inr (ok, c')"
  shows "adds (on_map (tc_map c')) c c'"
proof -
  have ok: "map_ok c" using assms(1) by (simp add: ctrl_inv_def)
  have "stoll (start_lanelet_id (status c)) = Inr i \<Longrightarrow> state_of c = WAITING_FOR_MOVE \<Longrightarrow> i \<in> lane_ids (tc_map c)" for i
    using assms(1) by (auto simp: ctrl_inv_def bank_inv_def at_pickup_lane_def)
  note found = lane_found(2) [OF ok _ this]
  have goal: "adds (on_map m) c (publish_goal (c\<lparr>tc_map := m, status := set_goal_lane l g d (status c), current_route_state := None\<rparr>))"
    if "cache_find m (lane_id l) = Some l" for m l g d
    using cache_find_in [OF that]
    by (auto simp: adds_def publish_goal_def doPublishGoal_def emit_def Let_def set_goal_lane_def lane_msg_def)
  show ?thesis
    using assms(3)
    by (auto simp: move_def Let_def dest: found split: sum.splits prod.splits option.splits if_splits
        intro!: on_map_moved goal)
qed

lemma cancel_on_map:
  assumes "at_home c"
  shows "adds (on_map (tc_map (cancel now c))) c (cancel now c)"
  by (auto simp: cancel_def Let_def adds_def transitionTo_outbox doPublishInitialPose_def emit_def home_msg_def fixed_msg_def
      getDefaultStart_def split: option.split)

lemma step_on_map:
  assumes "ctrl_inv c" "pose_inv c" "at_home c" "ctrl_step (now, e) c = Inr c'"
  shows "adds (on_map (tc_map c')) c c'"
proof (cases e)
  case (EvQueryEta s g cb tf)
  have leg: "adds P c c'" if "startQueryLeg now p s d = Inr c'" "outbox d = outbox c" "P = on_map (tc_map c')" for d p P
    using startQueryLeg_effects [OF that(1), of P] that(2,3) by (simp add: adds_outbox [of d c])
  from EvQueryEta assms(4) show ?thesis
    by (auto dest!: map_snd_InrD simp: queryEta_def Let_def reply_now_def intro: leg on_map_emit
        split: if_splits option.splits sum.splits)
next
  case EvStartTrip
  with assms(4) show ?thesis
    by (auto dest!: map_snd_InrD simp: startTrip_def Let_def adds_none intro!: on_map_moved
        split: sum.splits prod.splits option.splits if_splits)
next
  case EvMoveCommand
  with assms show ?thesis
    by (auto dest!: map_snd_InrD simp: handleMoveCommand_def goToPickup_def adds_none intro: move_on_map intro!: on_map_moved
        split: if_splits)
next
  case EvMove
  with assms show ?thesis by (auto dest!: map_snd_InrD intro: move_on_map)
next
  case (EvTick svc tf)
  have "ctrl_inv (look tf c)" using core_eq_inv [of "look tf c" c] assms(1) by simp
  moreover have "pose_inv (look tf c)" "at_home (look tf c)"
    using places_same [of "look tf c" c] assms(2,3) at_home_grounds [of "look tf c" c] look_site [of tf c]
    by (simp_all add: site_def)
  ultimately have "adds (on_map (tc_map c')) (look tf c) c'"
    using EvTick assms(4) tick_on_map by (simp add: onTick_look)
  then show ?thesis by (simp add: adds_outbox [of "look tf c" c])
next
  case EvCancel
  with assms(3,4) cancel_on_map show ?thesis by auto
next
  case (EvModeResponse ok)
  with assms(4) show ?thesis by (auto simp: onModeResponse_def adds_def emit_def)
qed (use assms(4) in \<open>auto simp: goToPickup_def onEngageResponse_def onRouteReceived_def injectEta_def adds_none
      intro!: on_map_moved\<close>)

text \<open>The invariant of the controller and of its poses together, as a contract of the strand.\<close>

definition placed_inv :: "trip_controller \<Rightarrow> bool" where
  "placed_inv c \<longleftrightarrow> ctrl_inv c \<and> pose_inv c \<and> at_home c"

interpretation placed: strand_machine ctrl_step ctrl_init placed_inv
proof
  show "placed_inv c" if "ctrl_init c" for c
  proof -
    obtain m tm now where "c = booted m tm now" using \<open>ctrl_init c\<close> by (auto simp: ctrl_init_def)
    moreover have "phase_of (state_of (booted m tm now)) = Idle" by (simp add: booted_state)
    then have "pose_inv (booted m tm now)" by (auto simp: pose_inv_def)
    ultimately show ?thesis using ctrl_init_inv [OF that] at_home_booted by (simp add: placed_inv_def)
  qed
  show "\<exists>c'. ctrl_step e c = Inr c' \<and> placed_inv c'" if "placed_inv c" for c e
  proof -
    have "ctrl_inv c" using that by (simp add: placed_inv_def)
    then obtain c' where c': "ctrl_step e c = Inr c'" "ctrl_inv c'" using ctrl.step_inv by blast
    have "ctrl_step (fst e, snd e) c = Inr c'" using c'(1) by simp
    with that have "pose_inv c'" using step_placed [of c "fst e" "snd e" c'] by (simp add: placed_inv_def)
    moreover have "at_home c'" using that at_home_grounds [OF grounds_step [OF c'(1)]] by (simp add: placed_inv_def)
    ultimately show ?thesis using c' by (intro exI [of _ c']) (simp add: placed_inv_def)
  qed
qed

end
