(* ===== verification/LanePoses.thy ===== *)
theory LanePoses
  imports TripPoses MapProperties
begin

text \<open>
  What a pose is: a point on the centre line of a lane with the direction of that lane, as a
  quaternion. Every lane of the cache has such a pose, whatever lookups and handlers run, so
  that everything published does, provided the fixed start of the map is on a lane.
\<close>

section \<open>Poses on a lane\<close>

definition along :: "lanelet \<Rightarrow> real \<times> real \<times> real \<times> real \<Rightarrow> bool" where
  "along ll q \<longleftrightarrow>
     (let (x, y, z, w) = q; (dx, dy) = lane_vector ll; len = sqrt (dx\<^sup>2 + dy\<^sup>2) in
        x = 0 \<and> y = 0 \<and> z\<^sup>2 + w\<^sup>2 = 1 \<and> (w\<^sup>2 - z\<^sup>2) * len = dx \<and> 2 * z * w * len = dy)"

definition lane_pose :: "lanelet \<Rightarrow> pose_msg \<Rightarrow> bool" where
  "lane_pose ll p \<longleftrightarrow>
     frame_id p = ''map'' \<and> on_centerline (ll_centerline ll) (position p) \<and> along ll (ori4 p)"

lemma yaw_along:
  assumes "2 \<le> length (ll_centerline ll)"
  shows "along ll (0, 0, fst (yawToQuat (laneletYaw ll)), snd (yawToQuat (laneletYaw ll)))"
proof -
  obtain dx dy where v: "lane_vector ll = (dx, dy)" by (cases "lane_vector ll")
  have a: "laneletYaw ll = atan2 dy dx" using assms v by (simp add: laneletYaw_def lane_vector_def Let_def)
  define h where "h = atan2 dy dx / 2"
  have polar: "cos (atan2 dy dx) * sqrt (dx\<^sup>2 + dy\<^sup>2) = dx" "sin (atan2 dy dx) * sqrt (dx\<^sup>2 + dy\<^sup>2) = dy"
    using atan2_polar [of dx dy] by (cases "dx = 0 \<and> dy = 0"; auto)+
  have half: "cos (atan2 dy dx) = (cos h)\<^sup>2 - (sin h)\<^sup>2" "sin (atan2 dy dx) = 2 * sin h * cos h"
    using double_angle [of "atan2 dy dx"] by (simp_all add: h_def)
  have "yawToQuat (laneletYaw ll) = (sin h, cos h)" by (simp add: yawToQuat_def a h_def Let_def)
  moreover have "(sin h)\<^sup>2 + (cos h)\<^sup>2 = 1" by simp
  ultimately show ?thesis using polar unfolding along_def v half by (simp only: Let_def prod.case fst_conv snd_conv simp_thms)
qed

lemma makeLaneInfo_pose:
  assumes "wf_map m" "ll \<in> set (laneletLayer m)" "makeLaneInfo m ll g = Inr info"
  shows "lane_id info = ll_id ll" "lane_pose ll (lane_msg info)"
proof -
  let ?t = "gpsToLocal m g"
  have ll: "wf_lanelet ll" using assms(1,2) by (rule wf_map_lanelet)
  obtain a b where ab: "(a, b) \<in> set (segments (ll_centerline ll))"
    "snd (project_loop ?t (ll_centerline ll) (dbl_max, None)) = Some (segment_point ?t a b)"
    using project_loop_closest [OF ll wf_map_gps [OF assms(1), of g]] by metis
  have at: "projectOntoLaneCenterline m g (ll_id ll) = Inr (segment_point ?t a b)"
    using assms(1,2) ab(2) by (simp add: projectOntoLaneCenterline_def layer_get_in)
  have on: "on_centerline (ll_centerline ll) (segment_point ?t a b)"
    unfolding segment_point_at by (rule on_centerlineI [OF ab(1)]) (use segment_param_range [of ?t a b] in blast)+
  have q: "along ll (0, 0, fst (yawToQuat (laneletYaw ll)), snd (yawToQuat (laneletYaw ll)))"
    by (rule yaw_along) (use ll in \<open>simp add: wf_lanelet_def\<close>)
  obtain qz qw where yaw: "yawToQuat (laneletYaw ll) = (qz, qw)" by (cases "yawToQuat (laneletYaw ll)")
  have info: "lane_id info = ll_id ll" "lane_local info = segment_point ?t a b"
    "ori_z (lane_orientation info) = qz" "ori_w (lane_orientation info) = qw"
    using assms(3) by (auto simp: makeLaneInfo_def at yaw Let_def)
  show "lane_id info = ll_id ll" by (rule info)
  have "position (lane_msg info) = segment_point ?t a b" "frame_id (lane_msg info) = ''map''"
    "ori4 (lane_msg info) = (0, 0, qz, qw)" by (simp_all add: lane_msg_def map_pose_def info)
  with on q show "lane_pose ll (lane_msg info)" by (simp add: lane_pose_def yaw)
qed

section \<open>Every cached lane has one\<close>

definition posed_map :: "lanelet_map \<Rightarrow> bool" where
  "posed_map m \<longleftrightarrow> wf_map m \<and>
     (\<forall>l \<in> set (cache m). \<exists>ll \<in> set (laneletLayer m). ll_id ll = lane_id l \<and> lane_pose ll (lane_msg l))"

text \<open>What a lookup may do to the map.\<close>

definition keeps_lanes :: "lanelet_map \<Rightarrow> lanelet_map \<Rightarrow> bool" where
  "keeps_lanes m m' \<longleftrightarrow> laneletLayer m' = laneletLayer m \<and> (posed_map m \<longrightarrow> posed_map m')"

lemma keeps_lanes_refl [simp]: "keeps_lanes m m"
  by (simp add: keeps_lanes_def)

lemma keeps_lanes_trans: "keeps_lanes m m' \<Longrightarrow> keeps_lanes m' m'' \<Longrightarrow> keeps_lanes m m''"
  by (simp add: keeps_lanes_def)

lemma emplace_keeps:
  assumes "emplace_lane m ll g = Inr (r, m')" "wf_map m \<Longrightarrow> ll \<in> set (laneletLayer m)"
  shows "keeps_lanes m m'"
proof -
  obtain info where info: "makeLaneInfo m ll g = Inr info" "m' = m\<lparr>cache := cache m @ [info]\<rparr>"
    using assms(1) by (auto simp: emplace_lane_def split: sum.splits)
  show ?thesis
    using assms(2) makeLaneInfo_pose [OF _ _ info(1)] by (fastforce simp: keeps_lanes_def posed_map_def info(2))
qed

lemma resolve_keeps: "resolve_best m g i = Inr (r, m') \<Longrightarrow> keeps_lanes m m'"
  by (auto simp: resolve_best_def dest: layer_get_Inr intro: emplace_keeps split: if_splits option.splits sum.splits)

lemma lookup_keeps:
  "findNearestLane m g = Inr (r, m') \<Longrightarrow> keeps_lanes m m'"
  "getLaneById m i = Inr (r, m') \<Longrightarrow> keeps_lanes m m'"
  "findNearestConnectedLane m g i b = Inr (r, m') \<Longrightarrow> keeps_lanes m m'"
proof -
  show "findNearestLane m g = Inr (r, m') \<Longrightarrow> keeps_lanes m m'"
    by (auto simp: findNearestLane_def dest: resolve_keeps split: if_splits)
  show "findNearestConnectedLane m g i b = Inr (r, m') \<Longrightarrow> keeps_lanes m m'"
    by (auto simp: findNearestConnectedLane_def dest: resolve_keeps split: bool.splits option.splits sum.splits)
  assume found: "getLaneById m i = Inr (r, m')"
  show "keeps_lanes m m'"
  proof (cases "cache_find m i")
    case None
    with found consider "m' = m" | lls ll where "the_map m = Some lls" "find (\<lambda>ll. ll_id ll = i) lls = Some ll"
        "emplace_lane m ll (localToGps m (midpoint (ll_centerline ll))) = Inr (r, m')"
      by (auto simp: getLaneById_def split: option.splits if_splits)
    then show ?thesis
      by cases (auto simp: laneletLayer_def dest: find_SomeD intro!: emplace_keeps)
  qed (use found in \<open>simp add: getLaneById_def\<close>)
qed

section \<open>Every handler keeps it\<close>

lemma tc_map_sends [simp]:
  "tc_map (emit e c) = tc_map c" "tc_map (doEngage svc c) = tc_map c" "tc_map (finish_trip_leg now c) = tc_map c"
  by (simp_all add: emit_def doEngage_def finish_trip_leg_def split: option.split)

lemma query_from_lane_keeps: "query_from_lane g c = Inr (r, m) \<Longrightarrow> keeps_lanes (tc_map c) m"
  by (auto simp: query_from_lane_def dest: lookup_keeps split: if_splits sum.splits)

lemma startQueryLeg_keeps: "startQueryLeg now f t c = Inr c' \<Longrightarrow> keeps_lanes (tc_map c) (tc_map c')"
  by (auto simp: startQueryLeg_def dest!: query_from_lane_keeps lookup_keeps dest: keeps_lanes_trans
      split: sum.splits prod.splits option.splits)

lemma finishQueryLeg_keeps: "finishQueryLeg now c = Inr c' \<Longrightarrow> keeps_lanes (tc_map c) (tc_map c')"
  by (auto simp: finishQueryLeg_def finish_pickup_leg_def finish_trip_leg_def Let_def dest!: startQueryLeg_keeps
      split: if_splits sum.splits option.splits)

lemma tick_keeps: "tick svc now c = Inr c' \<Longrightarrow> keeps_lanes (tc_map c) (tc_map c')"
  by (cases "state_of c")
     (auto simp: tick_def tick_initializing_def tick_query_localisation_def tick_query_route_def tick_query_eta_def
       tick_localisation_def tick_driving_to_pickup_def tick_running_def Let_def republish_def doEngage_def publish_defs
       dest!: finishQueryLeg_keeps split: if_splits option.splits)

lemma move_keeps: "move now c = Inr (ok, c') \<Longrightarrow> keeps_lanes (tc_map c) (tc_map c')"
  by (auto simp: move_def Let_def publish_defs dest!: lookup_keeps split: sum.splits prod.splits option.splits if_splits)

lemma step_keeps:
  assumes "ctrl_step (now, e) c = Inr c'"
  shows "keeps_lanes (tc_map c) (tc_map c')"
proof (cases e)
  case (EvQueryEta s g cb tf)
  with assms show ?thesis
    by (auto dest!: map_snd_InrD startQueryLeg_keeps simp: queryEta_def reply_now_def Let_def
        split: if_splits option.splits sum.splits)
next
  case EvStartTrip
  with assms show ?thesis
    by (auto dest!: map_snd_InrD lookup_keeps simp: startTrip_def Let_def
        split: sum.splits prod.splits option.splits if_splits)
next
  case EvMoveCommand
  with assms show ?thesis
    by (auto dest!: map_snd_InrD move_keeps simp: handleMoveCommand_def goToPickup_def split: if_splits)
next
  case EvMove
  with assms show ?thesis by (auto dest!: map_snd_InrD move_keeps)
next
  case (EvTick svc tf)
  with assms have "tick svc now (look tf c) = Inr c'" by (simp add: onTick_look)
  then show ?thesis using tick_keeps by fastforce
next
  case EvCancel
  with assms show ?thesis by (auto simp: cancel_def Let_def doPublishInitialPose_def split: option.splits)
qed (use assms in \<open>auto simp: goToPickup_def onRouteReceived_def injectEta_def onModeResponse_def onEngageResponse_def split: if_splits\<close>)

section \<open>Everything sent is such a pose\<close>

text \<open>The poses sent to Autoware so far, and those that will be.\<close>

definition sent_poses :: "effect list \<Rightarrow> pose_msg set" where
  "sent_poses es = {p. Goal p \<in> set es \<or> (\<exists>cov. InitialPose p cov \<in> set es)}"

definition lane_poses :: "lanelet_map \<Rightarrow> pose_msg set" where
  "lane_poses m = {p. \<exists>ll \<in> set (laneletLayer m). lane_pose ll p}"

lemma lane_poses_keeps: "keeps_lanes m m' \<Longrightarrow> lane_poses m' = lane_poses m"
  by (simp add: keeps_lanes_def lane_poses_def)

definition typed_inv :: "trip_controller \<Rightarrow> bool" where
  "typed_inv c \<longleftrightarrow> placed_inv c \<and> posed_map (tc_map c) \<and> home_msg (tc_map c) \<in> lane_poses (tc_map c) \<and>
     sent_poses (outbox c) \<subseteq> lane_poses (tc_map c)"

text \<open>A controller over a map whose fixed start is a lane's.\<close>

definition typed_init :: "trip_controller \<Rightarrow> bool" where
  "typed_init c \<longleftrightarrow> (\<exists>m tm now. posed_map m \<and> cache_inv m \<and> home_msg m \<in> lane_poses m \<and> c = booted m tm now)"

lemma on_map_lane_poses:
  assumes "posed_map m" "home_msg m \<in> lane_poses m" "\<forall>x \<in> set es. on_map m x"
  shows "sent_poses es \<subseteq> lane_poses m"
  using assms by (fastforce simp: sent_poses_def posed_map_def lane_poses_def)

lemma home_msg_survey: "same_survey m m' \<Longrightarrow> home_msg m' = home_msg m"
  by (simp add: same_survey_def home_msg_def getDefaultStart_def)

lemma typed_step:
  assumes "typed_inv c" "ctrl_step (now, e) c = Inr c'"
  shows "typed_inv c'"
proof -
  have placed: "placed_inv c'" using placed.step_Inr [OF _ assms(2)] assms(1) by (simp add: typed_inv_def)
  note set = step_keeps [OF assms(2)]
  have map: "posed_map (tc_map c')" using set assms(1) by (simp add: keeps_lanes_def typed_inv_def)
  have "default_start (tc_map c') = default_start (tc_map c)"
    using grounds_step [OF assms(2)] by (simp add: grounds_def)
  then have home: "home_msg (tc_map c') \<in> lane_poses (tc_map c')"
    using assms(1) lane_poses_keeps [OF set] by (simp add: typed_inv_def home_msg_def getDefaultStart_def)
  have "adds (on_map (tc_map c')) c c'"
    using step_on_map [OF _ _ _ assms(2)] assms(1) by (simp add: typed_inv_def placed_inv_def)
  then obtain es where es: "outbox c' = outbox c @ es" "\<forall>x \<in> set es. on_map (tc_map c') x" by (auto simp: adds_def)
  have "sent_poses (outbox c') = sent_poses (outbox c) \<union> sent_poses es" by (auto simp: sent_poses_def es(1))
  moreover have "sent_poses (outbox c) \<subseteq> lane_poses (tc_map c')"
    using assms(1) lane_poses_keeps [OF set] by (simp add: typed_inv_def)
  ultimately show ?thesis
    using placed map home on_map_lane_poses [OF map home es(2)] by (simp add: typed_inv_def)
qed

lemma typed_booted:
  assumes "posed_map m" "cache_inv m" "home_msg m \<in> lane_poses m"
  shows "typed_inv (booted m tm now)"
proof -
  have "ctrl_init (booted m tm now)" using assms(1,2) by (auto simp: ctrl_init_def posed_map_def)
  then have "placed_inv (booted m tm now)" by (rule placed.init_inv)
  moreover have map: "tc_map (booted m tm now) = m" by (simp add: booted_state)
  moreover have "\<forall>x \<in> set (outbox (booted m tm now)). on_map m x"
    by (auto simp: booted_def initializeInMap_def setArrivalCallbacks_def setStateChangeCallback_def new_TripController_def
        transitionTo_outbox publish_defs home_msg_def fixed_msg_def split: option.split)
  ultimately show ?thesis
    using assms on_map_lane_poses [OF assms(1,3)] by (simp add: typed_inv_def)
qed

interpretation typed: strand_machine ctrl_step typed_init typed_inv
proof
  show "typed_inv c" if "typed_init c" for c using that typed_booted by (auto simp: typed_init_def)
  show "\<exists>c'. ctrl_step e c = Inr c' \<and> typed_inv c'" if "typed_inv c" for c e
  proof -
    have "placed_inv c" using that by (simp add: typed_inv_def)
    then obtain c' where c': "ctrl_step e c = Inr c'" using placed.step_inv [of c e] by blast
    then show ?thesis using typed_step [OF that, of "fst e" "snd e" c'] by simp
  qed
qed

section \<open>From the map to the last message\<close>

lemma fixed_start_posed:
  assumes "wf_map m" "cache m = []" "nearest_id m g \<noteq> None" "setDefaultStart m name g = Inr m'"
  shows "posed_map m'" "cache_inv m'" "home_msg m' \<in> lane_poses m'" "laneletLayer m' = laneletLayer m"
proof -
  have empty: "cache_inv m" "posed_map m" using assms(1,2) by (simp_all add: cache_inv_def posed_map_def)
  obtain r m1 where found: "findNearestLane m g = Inr (r, m1)" "map_option lane_id r = nearest_id m g"
    using nearest.lookup_total [OF assms(1) empty(1) TrueI, of g] by metis
  then obtain l where l: "r = Some l" using assms(3) by auto
  have m': "m' = m1\<lparr>default_start := Some \<lparr>fs_name = name, fs_gps = g, fs_local = lane_local l,
      fs_orientation = lane_orientation l\<rparr>\<rparr>"
    using assms(4) by (simp add: setDefaultStart_def found(1) l)
  have s: "keeps_lanes m m1" using found(1) by (rule lookup_keeps)
  then have m1: "posed_map m1" "laneletLayer m1 = laneletLayer m" using empty(2) by (simp_all add: keeps_lanes_def)
  have same: "laneletLayer m' = laneletLayer m1" "cache m' = cache m1" by (simp_all add: m' laneletLayer_def)
  have "wf_map m' \<and> cache_inv m'" using setDefaultStart_correct [OF assms(1) empty(1), of name g] assms(4) by auto
  then show "posed_map m'" "cache_inv m'" using m1(1) by (simp_all add: posed_map_def same)
  show "laneletLayer m' = laneletLayer m" using m1(2) same by simp
  have "l \<in> set (cache m1)" using nearest.lookup_Inr(5) [OF assms(1) empty(1) TrueI found(1) l] by (rule cache_find_in)
  moreover have "home_msg m' = lane_msg l" by (simp add: m' home_msg_def getDefaultStart_def fixed_msg_def lane_msg_def)
  ultimately show "home_msg m' \<in> lane_poses m'" using m1(1) by (auto simp: posed_map_def lane_poses_def same(1))
qed

end
