(* ===== verification/PoseProperties.thy ===== *)
theory PoseProperties
  imports LanePoses
begin

text \<open>
  Properties of the lanes the trip controller keeps as texts and of the poses it publishes.
\<close>

section \<open>Lanes kept as texts\<close>

text \<open>
  C10. The lanes of a leg are kept as the decimal texts of their identifiers beside their poses.
  In every reachable state in which they are used, \<open>stoll\<close> reads the text of the start back, the
  lane found under it is in the map's cache, so that looking it up changes nothing, and its pose
  is the one kept; and the same holds of the goal while a leg is quoted and from the accepted
  move command to the destination.
\<close>

theorem lane_texts_read_back:
  assumes "ctrl_reachable c" "phase_of (state_of c) = Quoting \<or> phase_of (state_of c) = Underway"
  shows "(\<exists>l. stoll (start_lanelet_id (status c)) = Inr (lane_id l) \<and>
        getLaneById (tc_map c) (lane_id l) = Inr (Some l, tc_map c) \<and> start_msg (status c) = lane_msg l) \<and>
    (phase_of (state_of c) = Quoting \<or> state_of c = RUNNING \<or> state_of c = COMPLETED \<or>
       (state_of c = ENGAGING \<and> \<not> engaging_for_pickup c) \<longrightarrow>
       (\<exists>l. stoll (goal_lanelet_id (status c)) = Inr (lane_id l) \<and>
          getLaneById (tc_map c) (lane_id l) = Inr (Some l, tc_map c) \<and> goal_msg (status c) = lane_msg l))"
proof -
  have "pose_inv c" using placed.reachable_inv [OF assms(1)] by (simp add: placed_inv_def)
  with assms(2) have "start_placed c"
    and "phase_of (state_of c) = Quoting \<or> state_of c = RUNNING \<or> state_of c = COMPLETED \<or>
       (state_of c = ENGAGING \<and> \<not> engaging_for_pickup c) \<longrightarrow> goal_placed c"
    unfolding pose_inv_def by blast+
  then show ?thesis
    unfolding start_placed_def goal_placed_def by (metis names_lane_read_back)
qed

text \<open>The demo vehicle with its query accepted.\<close>

lemma demo_quoting:
  obtains c where "ctrl_reachable c" "state_of c = QUERY_PUBLISHING_INITIAL_POSE" "goal_lanelet_id (status c) = to_string 1"
proof -
  obtain c where c: "queryEta 4000000000 (Some (pt 5 0)) (axis_gps 15) (axis_gps 30) (Some 7) demo_idle = Inr (True, c)"
    "ctrl_inv c" "state_of c = QUERY_PUBLISHING_INITIAL_POSE" "goal_lanelet_id (status c) = to_string 1"
    using queryEta_resolved [OF demo_idle_inv demo_idle_facts(1) demo_pose demo_resolves(1,2),
        of 4000000000 "axis_gps 30" "Some 7"] by metis
  have "ctrl_reachable c"
    by (rule next_step [OF demo_idle_reachable, of "(4000000000, EvQueryEta (axis_gps 15) (axis_gps 30) (Some 7) (Some (pt 5 0)))"])
      (simp add: c(1))
  with c that show thesis by blast
qed

theorem lane_texts_read_back_witness:
  "\<exists>c l. ctrl_reachable c \<and> state_of c = QUERY_PUBLISHING_INITIAL_POSE \<and> lane_id l = 1 \<and>
     getLaneById (tc_map c) 1 = Inr (Some l, tc_map c) \<and> goal_msg (status c) = lane_msg l"
proof -
  obtain c where c: "ctrl_reachable c" "state_of c = QUERY_PUBLISHING_INITIAL_POSE" "goal_lanelet_id (status c) = to_string 1"
    by (rule demo_quoting)
  from lane_texts_read_back [OF c(1)] c(2) obtain l where l: "stoll (goal_lanelet_id (status c)) = Inr (lane_id l)"
    "getLaneById (tc_map c) (lane_id l) = Inr (Some l, tc_map c)" "goal_msg (status c) = lane_msg l" by auto
  have "lane_id l = 1" using l(1) by (simp add: c(3))
  with c l show ?thesis by (intro exI [of _ c] exI [of _ l]) simp
qed

section \<open>What Autoware is sent\<close>

text \<open>
  C9. Whatever handler runs in a reachable state, every goal it publishes is the pose of a lane
  of the map, and every initial pose is that or the fixed start of the map; only a map without a
  fixed start makes the controller publish the origin of the map frame instead.
\<close>

theorem published_poses:
  assumes "ctrl_reachable c" "ctrl_step (now, e) c = Inr c'"
  shows "\<exists>es. outbox c' = outbox c @ es \<and> (\<forall>x \<in> set es. on_map (tc_map c') x) \<and>
    lane_id ` set (cache (tc_map c')) \<subseteq> lane_ids (tc_map c')"
proof -
  have inv: "placed_inv c" "placed_inv c'"
    using placed.reachable_inv [OF assms(1)] placed.step_Inr [OF _ assms(2)] by simp_all
  then have "adds (on_map (tc_map c')) c c'"
    using step_on_map [OF _ _ _ assms(2)] by (simp add: placed_inv_def)
  moreover have "cache_inv (tc_map c')" using inv(2) by (simp add: placed_inv_def ctrl_inv_def map_ok_def)
  ultimately show ?thesis by (auto simp: adds_def cache_inv_def)
qed

theorem published_poses_witness:
  "\<exists>c c' p. ctrl_reachable c \<and> ctrl_step (5000000000, EvTick services_up None) c = Inr c' \<and>
     InitialPose p pose_covariance \<in> set (outbox c') \<and>
     (\<exists>es. outbox c' = outbox c @ es \<and> InitialPose p pose_covariance \<in> set es \<and>
        on_map (tc_map c') (InitialPose p pose_covariance))"
proof -
  obtain c where c: "ctrl_reachable c" "state_of c = QUERY_PUBLISHING_INITIAL_POSE" by (rule demo_quoting)
  let ?c' = "transitionTo 5000000000 QUERY_WAITING_LOCALISATION (publish_start c)"
  have step: "ctrl_step (5000000000, EvTick services_up None) c = Inr ?c'" using c(2) by (simp add: tick_def)
  obtain es where es: "outbox ?c' = outbox c @ es" "\<forall>x \<in> set es. on_map (tc_map ?c') x"
    using published_poses [OF c(1) step] by blast
  have "outbox (publish_start c) = outbox c @ [InitialPose (start_msg (status c)) pose_covariance]"
    by (simp add: publish_defs start_msg_def)
  then have "\<exists>fs. outbox ?c' = outbox c @ InitialPose (start_msg (status c)) pose_covariance # fs"
    by (simp add: transitionTo_outbox)
  with es have "InitialPose (start_msg (status c)) pose_covariance \<in> set es" by auto
  with c(1) step es show ?thesis
    by (intro exI [of _ c] exI [of _ ?c'] exI [of _ "start_msg (status c)"]) auto
qed



end
