(* ===== verification/MapConfig.thy ===== *)
theory MapConfig
  imports LaneletMap
begin

text \<open>
  How the map is found and configured: \<open>MapProjectorInfo::load\<close>, the path handling of the
  \<open>AutowareController\<close> constructor and \<open>LaneletMap::resolveOsmPath\<close>. The YAML document and
  the file system are parameters: which keys the document defines and what its scalars
  convert to, and which paths exist.
\<close>

section \<open>The projector configuration\<close>

record map_projector_info =
  projector_type :: string
  origin_lat :: real
  origin_lon :: real
  elevation :: real
  local_offset_x :: real
  local_offset_y :: real
  has_start :: bool
  start_name :: string
  start_lat :: real
  start_lon :: real

text \<open>
  A parsed document, by key paths: whether a node is defined, and the string or number its
  scalar converts to, if it does.
\<close>

record yaml_doc =
  node_defined :: "string list \<Rightarrow> bool"
  node_string :: "string list \<Rightarrow> string option"
  node_double :: "string list \<Rightarrow> real option"

definition as_string :: "yaml_doc \<Rightarrow> string list \<Rightarrow> string \<Rightarrow> string" where
  "as_string d p dflt = (case node_string d p of Some s \<Rightarrow> s | None \<Rightarrow> dflt)"

definition as_double :: "yaml_doc \<Rightarrow> string list \<Rightarrow> real \<Rightarrow> real" where
  "as_double d p dflt = (case node_double d p of Some v \<Rightarrow> v | None \<Rightarrow> dflt)"

definition default_projector_info :: map_projector_info where
  "default_projector_info =
     \<lparr>projector_type = ''MGRS'', origin_lat = 0, origin_lon = 0, elevation = 0, local_offset_x = 0,
      local_offset_y = 0, has_start = False, start_name = [], start_lat = 0, start_lon = 0\<rparr>"

text \<open>
  \<open>load_file\<close> is what \<open>YAML::LoadFile\<close> does with a path: \<open>Inl\<close> the text of a \<open>BadFile\<close>
  exception, or the document.
\<close>

definition load :: "(string \<Rightarrow> string + yaml_doc) \<Rightarrow> string \<Rightarrow> exn + map_projector_info" where
  "load load_file map_path =
     (case load_file (map_path @ ''/map_config.yaml'') of
        Inl what \<Rightarrow> Inl (RuntimeError (''Failed to load map_config.yaml: '' @ what))
      | Inr cfg \<Rightarrow>
          (let info = default_projector_info;
               info = (if node_defined cfg [''projector_type'']
                       then info\<lparr>projector_type := as_string cfg [''projector_type''] ''MGRS''\<rparr> else info)
           in if \<not> node_defined cfg [''map_config'']
              then Inl (RuntimeError (''map_config.yaml: missing '' @ [CHR 39] @ ''map_config'' @ [CHR 39] @ '' section''))
              else
                (let info = info\<lparr>origin_lat := as_double cfg [''map_config'', ''latitude''] 0,
                                 origin_lon := as_double cfg [''map_config'', ''longitude''] 0,
                                 elevation := as_double cfg [''map_config'', ''elevation''] 0\<rparr>;
                     info = (if node_defined cfg [''local_offset'']
                             then info\<lparr>local_offset_x := as_double cfg [''local_offset'', ''x''] 0,
                                       local_offset_y := as_double cfg [''local_offset'', ''y''] 0\<rparr>
                             else info)
                 in Inr (if node_defined cfg [''start_position'']
                         then info\<lparr>has_start := True,
                                   start_name := as_string cfg [''start_position'', ''name''] ''default'',
                                   start_lat := as_double cfg [''start_position'', ''latitude''] (origin_lat info),
                                   start_lon := as_double cfg [''start_position'', ''longitude''] (origin_lon info)\<rparr>
                         else info))))"

section \<open>Paths\<close>

text \<open>\<open>find_last_of('/')\<close> and the two prefixes it separates.\<close>

definition dir_of :: "string \<Rightarrow> string option" where
  "dir_of p = (if CHR 0x2F \<in> set p
               then Some (rev (tl (dropWhile (\<lambda>ch. ch \<noteq> CHR 0x2F) (rev p)))) else None)"

definition has_osm_suffix :: "string \<Rightarrow> bool" where
  "has_osm_suffix p \<longleftrightarrow> 4 \<le> length p \<and> drop (length p - 4) p = ''.osm''"

text \<open>The directory the configuration is read from, and the path of the map file.\<close>

definition map_paths :: "string \<Rightarrow> string \<times> string" where
  "map_paths map_path =
     (if has_osm_suffix map_path
      then ((case dir_of map_path of Some d \<Rightarrow> d | None \<Rightarrow> ''.''), map_path)
      else (map_path, map_path @ ''/lanelet2_map.osm''))"

text \<open>\<open>join base p\<close> is \<open>fs::path(base) / p\<close>.\<close>

definition resolveOsmPath ::
  "(string \<Rightarrow> bool) \<Rightarrow> (string \<Rightarrow> bool) \<Rightarrow> (string \<Rightarrow> string \<Rightarrow> string) \<Rightarrow> string list \<Rightarrow> string \<Rightarrow> string" where
  "resolveOsmPath exists is_absolute join bases filename =
     (if is_absolute filename \<and> exists filename then filename
      else case find exists (map (\<lambda>base. join base filename) bases) of
             Some candidate \<Rightarrow> candidate
           | None \<Rightarrow> filename)"

text \<open>
  The constructor of \<open>LaneletMap\<close>: \<open>read\<close> is what lanelet2 makes of a file, with the
  projector for the origin and the routing graph it builds.
\<close>

definition new_LaneletMap ::
  "(string \<Rightarrow> bool) \<Rightarrow> (string \<Rightarrow> string) \<Rightarrow> (string \<Rightarrow> lanelet list) \<Rightarrow> projector \<Rightarrow> routing_graph \<Rightarrow> i64 \<Rightarrow>
     string \<Rightarrow> real \<Rightarrow> real \<Rightarrow> exn + lanelet_map" where
  "new_LaneletMap exists resolve read proj graph invalid osm_path ox oy =
     (let full_path = resolve osm_path
      in if \<not> exists full_path then Inl (RuntimeError (''[LaneletMap] File not found: '' @ full_path))
         else if read full_path = [] then Inl (RuntimeError (''[LaneletMap] Map has no lanelets: '' @ full_path))
         else Inr \<lparr>offset_x = ox, offset_y = oy, invalid_id = invalid, the_graph = Some graph,
                   the_map = Some (read full_path), the_projector = proj, cache = [], default_start = None\<rparr>)"

section \<open>Facts\<close>

lemma dir_of_slash:
  assumes "p = d @ slash # f" "slash = CHR 0x2F" "slash \<notin> set f"
  shows "dir_of p = Some d"
proof -
  have "dropWhile (\<lambda>ch. ch \<noteq> slash) (rev f @ slash # rev d) = slash # rev d"
    using assms(3) by (subst dropWhile_append2) auto
  then show ?thesis using assms(1) unfolding dir_of_def assms(2) [symmetric] by simp
qed

lemma dir_of_split:
  assumes "dir_of p = Some d"
  obtains f where "p = d @ CHR 0x2F # f" "CHR 0x2F \<notin> set f"
proof -
  have "CHR 0x2F \<in> set p" using assms by (auto simp: dir_of_def split: if_splits)
  then obtain d' f where "p = d' @ CHR 0x2F # f" "CHR 0x2F \<notin> set f" by (meson split_list_last)
  with dir_of_slash [OF this(1) refl this(2)] assms that show thesis by simp
qed

lemma new_LaneletMap_loaded: "new_LaneletMap ex rs rd pj gr iv p ox oy = Inr m \<Longrightarrow> isLoaded m \<and> cache m = []"
  by (auto simp: new_LaneletMap_def Let_def isLoaded_def split: if_splits)

end
