(* ===== verification/AutowareController.thy ===== *)
theory AutowareController
  imports TripEffects MapConfig
begin

text \<open>
  \<open>AutowareController.cc\<close>: the owner of the map and of the trip controller. Its public
  operations post to the strand; modelled here are the posted handlers, which guard against a
  controller that does not exist yet and call the callback they were given. What the trip
  controller emits is relayed as it happens: reported transitions and arrivals go to the
  callbacks installed from outside, the rest to Autoware.
\<close>

section \<open>State and outputs\<close>

datatype arrival_kind = ArrivedPickup | ArrivedDropoff

text \<open>The callbacks passed in are identified by numbers.\<close>

datatype ac_output =
    ToAutoware effect
  | TripStateCallback trip_state trip_state trip_status
  | ArrivalCallback arrival_kind
  | BoolCallback nat bool
  | StatusCallback nat trip_status
  | EtaCallback nat eta_query_result

record autoware_controller =
  lanelet_map_ptr :: lanelet_map
  trip_ctrl :: "trip_controller option"
  trip_state_callback :: bool
  arrival_callback :: bool
  outputs :: "ac_output list"

definition new_AutowareController :: "lanelet_map \<Rightarrow> autoware_controller" where
  "new_AutowareController m =
     \<lparr>lanelet_map_ptr = m, trip_ctrl = None, trip_state_callback = False, arrival_callback = False,
      outputs = []\<rparr>"

text \<open>The constructor, with the configuration loaded and the map built from it.\<close>

definition construct ::
  "(string \<Rightarrow> exn + map_projector_info) \<Rightarrow> (string \<Rightarrow> map_projector_info \<Rightarrow> exn + lanelet_map) \<Rightarrow>
     string \<Rightarrow> exn + autoware_controller" where
  "construct load_info make_map map_path =
     (let (dir_path, osm_path) = map_paths map_path
      in case load_info dir_path of
           Inl e \<Rightarrow> Inl e
         | Inr info \<Rightarrow>
             (case make_map osm_path info of
                Inl e \<Rightarrow> Inl e
              | Inr m \<Rightarrow>
                  if has_start info
                  then (case setDefaultStart m (start_name info)
                               \<lparr>latitude = start_lat info, longitude = start_lon info\<rparr> of
                          Inl e \<Rightarrow> Inl e
                        | Inr m' \<Rightarrow> Inr (new_AutowareController m'))
                  else Inr (new_AutowareController m)))"

definition setTripStateCallback :: "bool \<Rightarrow> autoware_controller \<Rightarrow> autoware_controller" where
  "setTripStateCallback cb a = a\<lparr>trip_state_callback := cb\<rparr>"

definition setArrivalCallback :: "bool \<Rightarrow> autoware_controller \<Rightarrow> autoware_controller" where
  "setArrivalCallback cb a = a\<lparr>arrival_callback := cb\<rparr>"

section \<open>Relaying\<close>

text \<open>\<open>onTripStateChanged\<close> and the two arrival lambdas; the other effects leave the process.\<close>

fun relay :: "autoware_controller \<Rightarrow> effect \<Rightarrow> ac_output list" where
  "relay a (StateChanged p n st) = (if trip_state_callback a then [TripStateCallback p n st] else [])"
| "relay a PickupArrived = (if arrival_callback a then [ArrivalCallback ArrivedPickup] else [])"
| "relay a DropoffArrived = (if arrival_callback a then [ArrivalCallback ArrivedDropoff] else [])"
| "relay a (QueryReply k r) = [EtaCallback k r]"
| "relay a e = [ToAutoware e]"

text \<open>Taking back the trip controller after an operation, with the effects it emitted.\<close>

definition absorb :: "trip_controller \<Rightarrow> autoware_controller \<Rightarrow> autoware_controller" where
  "absorb c a = a\<lparr>trip_ctrl := Some (c\<lparr>outbox := []\<rparr>), outputs := outputs a @ concat (map (relay a) (outbox c))\<rparr>"

definition reply_bool :: "nat option \<Rightarrow> bool \<Rightarrow> autoware_controller \<Rightarrow> autoware_controller" where
  "reply_bool cb ok a = (case cb of None \<Rightarrow> a | Some k \<Rightarrow> a\<lparr>outputs := outputs a @ [BoolCallback k ok]\<rparr>)"

section \<open>Posted handlers\<close>

definition initialize :: "time_point \<Rightarrow> autoware_controller \<Rightarrow> autoware_controller" where
  "initialize now a =
     (let c = new_TripController (lanelet_map_ptr a) default_timings;
          c = setStateChangeCallback True c;
          c = setArrivalCallbacks True True c
      in absorb (initializeInMap now c) a)"

definition startTripImpl :: "time_point \<Rightarrow> nat option \<Rightarrow> autoware_controller \<Rightarrow> exn + autoware_controller" where
  "startTripImpl now cb a =
     (case trip_ctrl a of
        None \<Rightarrow> Inr (reply_bool cb False a)
      | Some c \<Rightarrow>
          (case startTrip now c of
             Inl e \<Rightarrow> Inl e
           | Inr (ok, c') \<Rightarrow> Inr (reply_bool cb ok (absorb c' a))))"

definition handleMoveCommandImpl :: "time_point \<Rightarrow> nat option \<Rightarrow> autoware_controller \<Rightarrow> exn + autoware_controller" where
  "handleMoveCommandImpl now cb a =
     (case trip_ctrl a of
        None \<Rightarrow> Inr (reply_bool cb False a)
      | Some c \<Rightarrow>
          (case handleMoveCommand now c of
             Inl e \<Rightarrow> Inl e
           | Inr (ok, c') \<Rightarrow> Inr (reply_bool cb ok (absorb c' a))))"

definition moveImpl :: "time_point \<Rightarrow> nat option \<Rightarrow> autoware_controller \<Rightarrow> exn + autoware_controller" where
  "moveImpl now cb a =
     (case trip_ctrl a of
        None \<Rightarrow> Inr (reply_bool cb False a)
      | Some c \<Rightarrow>
          (case move now c of
             Inl e \<Rightarrow> Inl e
           | Inr (ok, c') \<Rightarrow> Inr (reply_bool cb ok (absorb c' a))))"

definition goToPickupImpl :: "time_point \<Rightarrow> nat option \<Rightarrow> autoware_controller \<Rightarrow> exn + autoware_controller" where
  "goToPickupImpl now cb a =
     (case trip_ctrl a of
        None \<Rightarrow> Inr (reply_bool cb False a)
      | Some c \<Rightarrow> (case goToPickup now c of (ok, c') \<Rightarrow> Inr (reply_bool cb ok (absorb c' a))))"

definition cancelTripImpl :: "time_point \<Rightarrow> autoware_controller \<Rightarrow> autoware_controller" where
  "cancelTripImpl now a = (case trip_ctrl a of None \<Rightarrow> a | Some c \<Rightarrow> absorb (cancel now c) a)"

definition getTripStatusSync :: "autoware_controller \<Rightarrow> trip_status" where
  "getTripStatusSync a = (case trip_ctrl a of None \<Rightarrow> default_status | Some c \<Rightarrow> status c)"

definition getTripStatusImpl :: "nat option \<Rightarrow> autoware_controller \<Rightarrow> autoware_controller" where
  "getTripStatusImpl cb a =
     (case cb of None \<Rightarrow> a | Some k \<Rightarrow> a\<lparr>outputs := outputs a @ [StatusCallback k (getTripStatusSync a)]\<rparr>)"

definition not_initialized :: eta_query_result where
  "not_initialized = default_result\<lparr>q_success := False, q_error_message := ''not initialized''\<rparr>"

definition ac_queryEta ::
  "time_point \<Rightarrow> local_coord option \<Rightarrow> gps_coord \<Rightarrow> gps_coord \<Rightarrow> nat option \<Rightarrow> autoware_controller
     \<Rightarrow> exn + autoware_controller" where
  "ac_queryEta now tf start goal cb a =
     (case trip_ctrl a of
        None \<Rightarrow> Inr (case cb of None \<Rightarrow> a | Some k \<Rightarrow> a\<lparr>outputs := outputs a @ [EtaCallback k not_initialized]\<rparr>)
      | Some c \<Rightarrow>
          (case queryEta now tf start goal cb c of
             Inl e \<Rightarrow> Inl e
           | Inr (ok, c') \<Rightarrow> Inr (absorb c' a)))"

definition onTickTimer ::
  "autoware_services \<Rightarrow> local_coord option \<Rightarrow> time_point \<Rightarrow> autoware_controller \<Rightarrow> exn + autoware_controller" where
  "onTickTimer svc tf now a =
     (case trip_ctrl a of
        None \<Rightarrow> Inr a
      | Some c \<Rightarrow>
          (let c1 = (case getCurrentVehiclePose tf c of None \<Rightarrow> c | Some g \<Rightarrow> setCurrentGps g c)
           in case tick svc now c1 of Inl e \<Rightarrow> Inl e | Inr c' \<Rightarrow> Inr (absorb c' a)))"

text \<open>The period of the tick timer, \<open>static_cast<int>(1000.0 / tick_hz_)\<close>.\<close>

definition tick_period_ms :: "real \<Rightarrow> int" where
  "tick_period_ms tick_hz = (let q = 1000 / tick_hz in if 0 \<le> q then \<lfloor>q\<rfloor> else \<lceil>q\<rceil>)"

section \<open>The machine\<close>

text \<open>
  The handlers on the strand, by the same events as the trip controller, plus the creation
  and the status request. Messages and responses reach the trip controller only once it exists.
\<close>

datatype ac_event =
    AcInitialize
  | AcQueryEta gps_coord gps_coord "nat option" "local_coord option"
  | AcStartTrip "nat option"
  | AcMoveCommand "nat option"
  | AcMove "nat option"
  | AcGoToPickup "nat option"
  | AcCancel
  | AcGetStatus "nat option"
  | AcTick autoware_services "local_coord option"
  | AcMessage ctrl_event

fun is_message :: "ctrl_event \<Rightarrow> bool" where
  "is_message (EvLocState _) \<longleftrightarrow> True"
| "is_message (EvRouteState _) \<longleftrightarrow> True"
| "is_message (EvModeState _) \<longleftrightarrow> True"
| "is_message (EvRoute _) \<longleftrightarrow> True"
| "is_message (EvEta _ _) \<longleftrightarrow> True"
| "is_message (EvModeResponse _) \<longleftrightarrow> True"
| "is_message (EvEngageResponse _) \<longleftrightarrow> True"
| "is_message _ \<longleftrightarrow> False"

definition ac_message :: "time_point \<Rightarrow> ctrl_event \<Rightarrow> autoware_controller \<Rightarrow> exn + autoware_controller" where
  "ac_message now e a =
     (case trip_ctrl a of
        None \<Rightarrow> Inr a
      | Some c \<Rightarrow> if is_message e
                  then (case ctrl_step (now, e) c of Inl x \<Rightarrow> Inl x | Inr c' \<Rightarrow> Inr (absorb c' a))
                  else Inr a)"

fun ac_step :: "time_point \<times> ac_event \<Rightarrow> autoware_controller \<Rightarrow> exn + autoware_controller" where
  "ac_step (now, AcInitialize) a = Inr (initialize now a)"
| "ac_step (now, AcQueryEta s g cb tf) a = ac_queryEta now tf s g cb a"
| "ac_step (now, AcStartTrip cb) a = startTripImpl now cb a"
| "ac_step (now, AcMoveCommand cb) a = handleMoveCommandImpl now cb a"
| "ac_step (now, AcMove cb) a = moveImpl now cb a"
| "ac_step (now, AcGoToPickup cb) a = goToPickupImpl now cb a"
| "ac_step (now, AcCancel) a = Inr (cancelTripImpl now a)"
| "ac_step (now, AcGetStatus cb) a = Inr (getTripStatusImpl cb a)"
| "ac_step (now, AcTick svc tf) a = onTickTimer svc tf now a"
| "ac_step (now, AcMessage e) a = ac_message now e a"

definition ac_inv :: "autoware_controller \<Rightarrow> bool" where
  "ac_inv a \<longleftrightarrow> wf_map (lanelet_map_ptr a) \<and> cache_inv (lanelet_map_ptr a) \<and>
     (\<forall>c. trip_ctrl a = Some c \<longrightarrow> ctrl_inv c \<and> outbox c = [])"

definition ac_init :: "autoware_controller \<Rightarrow> bool" where
  "ac_init a \<longleftrightarrow> (\<exists>m. wf_map m \<and> cache_inv m \<and> a = new_AutowareController m)"

lemma ctrl_inv_outbox [simp]: "ctrl_inv (c\<lparr>outbox := es\<rparr>) = ctrl_inv c"
  by (rule core_eq_inv) (simp_all add: core_def)

lemma absorb_inv [simp]: "ac_inv (absorb c a) \<longleftrightarrow> wf_map (lanelet_map_ptr a) \<and> cache_inv (lanelet_map_ptr a) \<and> ctrl_inv c"
  by (simp add: ac_inv_def absorb_def)

lemma reply_bool_inv [simp]: "ac_inv (reply_bool cb ok a) = ac_inv a"
  by (simp add: ac_inv_def reply_bool_def split: option.splits)

lemma outputs_inv [simp]: "ac_inv (a\<lparr>outputs := os\<rparr>) = ac_inv a"
  by (simp add: ac_inv_def)

lemma ac_invD:
  "ac_inv a \<Longrightarrow> wf_map (lanelet_map_ptr a)" "ac_inv a \<Longrightarrow> cache_inv (lanelet_map_ptr a)"
  "ac_inv a \<Longrightarrow> trip_ctrl a = Some c \<Longrightarrow> ctrl_inv c"
  by (simp_all add: ac_inv_def)

lemma ac_step_inv:
  assumes "ac_inv a"
  shows "\<exists>a'. ac_step e a = Inr a' \<and> ac_inv a'"
proof -
  obtain now ev where e: "e = (now, ev)" by (cases e)
  note inv = ac_invD [OF assms]
  have step: "\<exists>c'. ctrl_step (now, x) c = Inr c' \<and> ctrl_inv c'" if "trip_ctrl a = Some c" for c x
    using ctrl.step_inv [OF inv(3) [OF that], of "(now, x)"] .
  show ?thesis
  proof (cases ev)
    case AcInitialize
    have "ctrl_inv (booted (lanelet_map_ptr a) default_timings now)"
      using inv by (intro ctrl_init_inv) (auto simp: ctrl_init_def)
    with e AcInitialize inv show ?thesis by (simp add: initialize_def booted_def Let_def)
  next
    case (AcQueryEta s g cb tf)
    with e assms inv step [of _ "EvQueryEta s g cb tf"] show ?thesis
      by (cases "trip_ctrl a"; cases cb) (auto simp: ac_queryEta_def dest!: map_snd_InrD)
  next
    case (AcStartTrip cb)
    with e assms inv step [of _ EvStartTrip] show ?thesis
      by (cases "trip_ctrl a") (auto simp: startTripImpl_def dest!: map_snd_InrD)
  next
    case (AcMoveCommand cb)
    with e assms inv step [of _ EvMoveCommand] show ?thesis
      by (cases "trip_ctrl a") (auto simp: handleMoveCommandImpl_def dest!: map_snd_InrD)
  next
    case (AcMove cb)
    with e assms inv step [of _ EvMove] show ?thesis
      by (cases "trip_ctrl a") (auto simp: moveImpl_def dest!: map_snd_InrD)
  next
    case (AcGoToPickup cb)
    with e assms inv goToPickup_inv show ?thesis
      by (cases "trip_ctrl a") (auto simp: goToPickupImpl_def split_beta)
  next
    case AcCancel
    with e assms inv cancel_inv show ?thesis
      by (cases "trip_ctrl a") (auto simp: cancelTripImpl_def ctrl_inv_def)
  next
    case (AcGetStatus cb)
    with e assms show ?thesis by (simp add: getTripStatusImpl_def ac_inv_def split: option.splits)
  next
    case (AcTick svc tf)
    with e assms inv step [of _ "EvTick svc tf"] show ?thesis
      by (cases "trip_ctrl a") (auto simp: onTickTimer_def onTick_def Let_def)
  next
    case (AcMessage x)
    with e assms inv step [of _ x] show ?thesis
      by (cases "trip_ctrl a") (auto simp: ac_message_def)
  qed
qed

interpretation ac: strand_machine ac_step ac_init ac_inv
  by unfold_locales (auto simp: ac_init_def ac_inv_def new_AutowareController_def intro: ac_step_inv [unfolded ac_inv_def])

end
