(* ===== verification/TripLog.thy ===== *)
theory TripLog
  imports AutowareController TripPoses
begin

text \<open>
  The log of the Autoware controller: the lines \<open>onTripStateChanged\<close> writes for a change of state,
  each to the ROS log and to \<open>spdlog\<close>, with the status it reads when it is called.
\<close>

section \<open>The lines\<close>

fun state_name :: "trip_state \<Rightarrow> string" where
  "state_name IDLE = ''IDLE''"
| "state_name INITIALIZING_IN_MAP = ''INITIALIZING_IN_MAP''"
| "state_name QUERY_PUBLISHING_INITIAL_POSE = ''QUERY_PUBLISHING_INITIAL_POSE''"
| "state_name QUERY_WAITING_LOCALISATION = ''QUERY_WAITING_LOCALISATION''"
| "state_name QUERY_PUBLISHING_GOAL = ''QUERY_PUBLISHING_GOAL''"
| "state_name QUERY_WAITING_ROUTE = ''QUERY_WAITING_ROUTE''"
| "state_name QUERY_READING_ETA = ''QUERY_READING_ETA''"
| "state_name ROUTES_READY = ''ROUTES_READY''"
| "state_name WAITING_FOR_PICKUP_START = ''WAITING_FOR_PICKUP_START''"
| "state_name PUBLISHING_INITIAL_POSE = ''PUBLISHING_INITIAL_POSE''"
| "state_name WAITING_LOCALISATION = ''WAITING_LOCALISATION''"
| "state_name ENGAGING = ''ENGAGING''"
| "state_name DRIVING_TO_PICKUP = ''DRIVING_TO_PICKUP''"
| "state_name WAITING_FOR_MOVE = ''WAITING_FOR_MOVE''"
| "state_name RUNNING = ''RUNNING''"
| "state_name COMPLETED = ''COMPLETED''"
| "state_name CANCELLED = ''CANCELLED''"
| "state_name FAILED = ''FAILED''"

definition state_log :: "trip_state \<Rightarrow> trip_state \<Rightarrow> trip_status \<Rightarrow> string list" where
  "state_log prev next st =
     [''[AutowareAgent] '' @ state_name prev @ '' -> '' @ state_name next] @
     (if next = FAILED then [''[AutowareAgent] Trip FAILED''] else []) @
     (if next = RUNNING \<or> next = DRIVING_TO_PICKUP
      then [''[AutowareAgent] Trip live: lane '' @ start_lanelet_id st @ arrow_utf8 @ ''lane '' @ goal_lanelet_id st]
      else []) @
     (if next = ROUTES_READY
      then [''[AutowareAgent] Routes ready: pickup='' @ start_lanelet_id st @ '' goal='' @ goal_lanelet_id st]
      else [])"

section \<open>What a change of state is announced with\<close>

text \<open>
  The state left, unless the status was reset before, the state reached and the status the step
  ends with.
\<close>

fun announces :: "trip_controller \<Rightarrow> trip_controller \<Rightarrow> effect \<Rightarrow> bool" where
  "announces c c' (StateChanged p n st) \<longleftrightarrow>
     n = state_of c' \<and> st = status c' \<and> p \<noteq> n \<and>
     (if n = ROUTES_READY then p = IDLE \<and> start_lanelet_id st = [] \<and> goal_lanelet_id st = [] else p = state_of c)"
| "announces c c' e \<longleftrightarrow> True"

lemma announces_moved:
  assumes "c' = transitionTo now s d" "adds (announces c c') c d" "state_of d = state_of c" "s \<noteq> ROUTES_READY"
  shows "adds (announces c c') c c'"
  using assms by (auto simp: adds_def transitionTo_def emit_def Let_def)

lemma announces_failQuery: "adds (announces c c') c d \<Longrightarrow> adds (announces c c') c (failQuery now q d)"
  by (rule adds_trans [OF _ adds_failQuery]) simp_all

lemma announces_emit: "announces c c' e \<Longrightarrow> adds (announces c c') c (emit e c)"
  by (simp add: adds_def emit_def)

lemma announces_publish [simp]:
  "adds (announces d d') c (publish_init c)" "adds (announces d d') c (publish_start c)"
  "adds (announces d d') c (publish_goal c)" "adds (announces d d') c (publish_start_as_goal c)"
  by (auto simp: adds_def publish_defs)

lemma announces_startQueryLeg:
  assumes "startQueryLeg now f t d = Inr c'" "outbox d = outbox c" "state_of d = state_of c"
  shows "adds (announces c c') c c'"
proof -
  consider (fail) q m where "c' = failQuery now q (d\<lparr>tc_map := m\<rparr>)"
    | (go) m st where "c' = transitionTo now QUERY_PUBLISHING_INITIAL_POSE (d\<lparr>tc_map := m, status := st\<rparr>)" "st_state st = state_of d"
    using assms(1) by (auto simp: startQueryLeg_def set_leg_status_def Let_def split: sum.splits prod.splits option.splits)
  then show ?thesis
  proof cases
    case fail
    have "adds (announces c c') c (d\<lparr>tc_map := m\<rparr>)" using assms(2) by (simp add: adds_none)
    then show ?thesis unfolding fail by (rule announces_failQuery)
  next
    case go
    show ?thesis by (rule announces_moved [OF go(1)]) (use assms(2,3) go(2) in \<open>simp_all add: adds_none\<close>)
  qed
qed

lemma announces_finishQueryLeg:
  assumes "finishQueryLeg now d = Inr c'" "outbox d = outbox c" "state_of d = state_of c" "state_of c = QUERY_READING_ETA"
  shows "adds (announces c c') c c'"
proof (cases "current_leg d")
  case PICKUP
  with assms obtain d1 g where "startQueryLeg now (query_start_gps d) g d1 = Inr c'" "outbox d1 = outbox c" "state_of d1 = state_of c"
    by (auto simp: finishQueryLeg_def finish_pickup_leg_def Let_def split: sum.splits)
  then show ?thesis by (rule announces_startQueryLeg)
next
  case TRIP
  then have c': "c' = finish_trip_leg now d" using assms(1) by (simp add: finishQueryLeg_def)
  have "status c' = default_status\<lparr>st_state := ROUTES_READY, last_state_change := now\<rparr>"
    by (simp add: c' finish_trip_leg_def transitionTo_def emit_def Let_def default_status_def)
  then show ?thesis
    using assms(2,4)
    by (auto simp: c' finish_trip_leg_def Let_def adds_def transitionTo_outbox default_status_def split: option.split)
qed

lemma announces_tick:
  assumes "tick svc now c = Inr c'"
  shows "adds (announces c c') c c'"
proof (cases "state_of c = QUERY_READING_ETA")
  case True
  with assms show ?thesis
    by (auto simp: tick_def tick_query_eta_def split: if_splits intro: announces_finishQueryLeg)
next
  case False
  have engage: "adds (announces d d') c (doEngage svc c)" for d d' by (rule doEngage_effects) simp
  show ?thesis
    using assms False
    by (cases "state_of c")
      (auto simp: tick_def tick_initializing_def tick_query_localisation_def tick_query_route_def
        tick_localisation_def tick_driving_to_pickup_def tick_running_def Let_def engage
        intro!: announces_moved [OF refl] announces_failQuery adds_republish announces_emit split: if_splits)
qed

lemma announces_move: "move now c = Inr (ok, c') \<Longrightarrow> adds (announces c c') c c'"
  by (auto simp: move_def Let_def split: sum.splits prod.splits option.splits if_splits
      intro!: announces_moved [OF refl] adds_outbox [THEN iffD1, OF _ announces_publish(3)])

lemma announces_step:
  assumes "ctrl_step (now, e) c = Inr c'"
  shows "adds (announces c c') c c'"
proof (cases e)
  case (EvQueryEta s g cb tf)
  with assms show ?thesis
    by (auto dest!: map_snd_InrD simp: queryEta_def Let_def reply_now_def
        intro: announces_startQueryLeg announces_emit split: if_splits option.splits sum.splits)
next
  case EvStartTrip
  with assms show ?thesis
    by (auto dest!: map_snd_InrD simp: startTrip_def Let_def set_start_lane_def adds_none intro!: announces_moved [OF refl]
        split: sum.splits prod.splits option.splits if_splits)
next
  case EvMoveCommand
  with assms show ?thesis
    by (auto dest!: map_snd_InrD simp: handleMoveCommand_def goToPickup_def adds_none intro: announces_move
        intro!: announces_moved [OF refl] split: if_splits)
next
  case EvMove
  with assms show ?thesis by (auto dest!: map_snd_InrD intro: announces_move)
next
  case (EvTick svc tf)
  have "adds (announces (look tf c) c') (look tf c) c'"
    using EvTick assms announces_tick by (simp add: onTick_look)
  moreover have "announces (look tf c) c' x = announces c c' x" for x by (cases x) simp_all
  ultimately show ?thesis by (simp add: adds_def)
next
  case EvCancel
  with assms show ?thesis
    by (auto simp: cancel_def Let_def adds_def transitionTo_outbox doPublishInitialPose_def emit_def split: option.split)
qed (use assms in \<open>auto simp: goToPickup_def onEngageResponse_def onModeResponse_def onRouteReceived_def injectEta_def adds_none
      intro!: announces_moved [OF refl] announces_emit\<close>)

section \<open>What is logged\<close>

lemma running_from: "ctrl_inv c \<Longrightarrow> ctrl_step (now, e) c = Inr c' \<Longrightarrow> state_of c' = RUNNING \<Longrightarrow>
    state_of c \<noteq> RUNNING \<Longrightarrow> state_of c = ENGAGING"
  using ctrl_step_edge [of c now e c'] by (cases e; cases "state_of c") (auto split: if_splits)

text \<open>
  Of the two messages that name the lanes of a trip, the one for the end of the quotes never
  does: the status is reset just before, so it reports a change from \<open>IDLE\<close> and two empty lanes.
  The one for the start of the ride names the lane the vehicle stands on and the lane it goes to,
  both lanes of the map.
\<close>

theorem lanes_in_the_log:
  assumes "ctrl_reachable c" "ctrl_step (now, e) c = Inr c'" "outbox c' = outbox c @ es" "StateChanged p n st \<in> set es"
  shows "(n = ROUTES_READY \<longrightarrow>
      state_log p n st = [''[AutowareAgent] IDLE -> ROUTES_READY'', ''[AutowareAgent] Routes ready: pickup= goal='']) \<and>
    (n = RUNNING \<longrightarrow> (\<exists>from_lane \<in> set (cache (tc_map c')). \<exists>to_lane \<in> set (cache (tc_map c')).
      start_msg st = lane_msg from_lane \<and> goal_msg st = lane_msg to_lane \<and>
      state_log p n st = [''[AutowareAgent] ENGAGING -> RUNNING'',
        ''[AutowareAgent] Trip live: lane '' @ to_string (lane_id from_lane) @ arrow_utf8 @ ''lane '' @ to_string (lane_id to_lane)]))"
proof -
  obtain fs where "outbox c' = outbox c @ fs" "\<forall>x \<in> set fs. announces c c' x"
    using announces_step [OF assms(2)] by (auto simp: adds_def)
  with assms(3,4) have a: "announces c c' (StateChanged p n st)" by auto
  have inv: "placed_inv c" "placed_inv c'"
    using placed.reachable_inv [OF assms(1)] placed.step_Inr [OF _ assms(2)] by simp_all
  show ?thesis
  proof (intro conjI impI)
    assume "n = ROUTES_READY"
    with a show "state_log p n st = [''[AutowareAgent] IDLE -> ROUTES_READY'', ''[AutowareAgent] Routes ready: pickup= goal='']"
      by (auto simp: state_log_def)
  next
    assume n: "n = RUNNING"
    with a have s: "state_of c' = RUNNING" "p = state_of c" "st = status c'" "p \<noteq> RUNNING" by auto
    have p: "p = ENGAGING" using running_from [OF _ assms(2) s(1)] inv(1) s(2,4) by (simp add: placed_inv_def)
    have "start_placed c'" "goal_placed c'" using inv(2) s(1) by (simp_all add: placed_inv_def pose_inv_def)
    then obtain l g where "l \<in> set (cache (tc_map c'))" "start_lanelet_id st = to_string (lane_id l)" "start_msg st = lane_msg l"
      "g \<in> set (cache (tc_map c'))" "goal_lanelet_id st = to_string (lane_id g)" "goal_msg st = lane_msg g"
      by (auto simp: s(3) start_placed_def goal_placed_def names_lane_def dest: cache_find_in)
    then show "\<exists>from_lane \<in> set (cache (tc_map c')). \<exists>to_lane \<in> set (cache (tc_map c')).
      start_msg st = lane_msg from_lane \<and> goal_msg st = lane_msg to_lane \<and>
      state_log p n st = [''[AutowareAgent] ENGAGING -> RUNNING'',
        ''[AutowareAgent] Trip live: lane '' @ to_string (lane_id from_lane) @ arrow_utf8 @ ''lane '' @ to_string (lane_id to_lane)]"
      by (intro bexI [of _ l] bexI [of _ g]) (auto simp: n p state_log_def)
  qed
qed


theorem lanes_in_the_log_witness:
  "\<exists>c c' from_lane to_lane. ctrl_reachable c \<and> ctrl_step (9, EvEngageResponse 1) c = Inr c' \<and>
     outbox c' = outbox c @ [StateChanged ENGAGING RUNNING (status c')] \<and>
     start_msg (status c') = lane_msg from_lane \<and> goal_msg (status c') = lane_msg to_lane \<and>
     state_log ENGAGING RUNNING (status c') = [''[AutowareAgent] ENGAGING -> RUNNING'',
       ''[AutowareAgent] Trip live: lane '' @ to_string (lane_id from_lane) @ arrow_utf8 @ ''lane '' @ to_string (lane_id to_lane)]"
proof -
  obtain c0 where c0: "ctrl_reachable c0" "ctrl_inv c0" "state_of c0 = WAITING_FOR_MOVE" by (rule demo_waiting)
  obtain c where c: "move 3 c0 = Inr (True, c)" "state_of c = ENGAGING" "\<not> engaging_for_pickup c"
    using move_accepted [OF c0(2,3), of 3] by metis
  have reach: "ctrl_reachable c" by (rule next_step [OF c0(1), of "(3, EvMove)"]) (simp add: c(1))
  let ?c' = "transitionTo 9 RUNNING c"
  have step: "ctrl_step (9, EvEngageResponse 1) c = Inr ?c'" using c(2,3) by (simp add: onEngageResponse_def)
  have out: "outbox ?c' = outbox c @ [StateChanged ENGAGING RUNNING (status ?c')]"
    using c(2) reachable_observed [OF reach] by (simp add: transitionTo_def emit_def Let_def)
  from lanes_in_the_log [OF reach step out, of ENGAGING RUNNING "status ?c'"]
  obtain l g where "start_msg (status ?c') = lane_msg l" "goal_msg (status ?c') = lane_msg g"
    "state_log ENGAGING RUNNING (status ?c') = [''[AutowareAgent] ENGAGING -> RUNNING'',
       ''[AutowareAgent] Trip live: lane '' @ to_string (lane_id l) @ arrow_utf8 @ ''lane '' @ to_string (lane_id g)]"
    by auto
  with reach step out show ?thesis by (intro exI [of _ c] exI [of _ ?c'] exI [of _ l] exI [of _ g]) simp
qed

end
