(* ===== verification/StartupProperties.thy ===== *)
theory StartupProperties
  imports MapProperties AutowareController DemoMap
begin

text \<open>Properties of the construction of the Autoware controller from the files of a map.\<close>

section \<open>What load and the map's constructor return\<close>

lemma load_cases:
  "case load load_file dir of
     Inl e \<Rightarrow> (\<exists>what. e = RuntimeError what) \<and>
       (\<forall>cfg. load_file (dir @ ''/map_config.yaml'') = Inr cfg \<longrightarrow> \<not> node_defined cfg [''map_config''])
   | Inr info \<Rightarrow> \<exists>cfg. load_file (dir @ ''/map_config.yaml'') = Inr cfg \<and> node_defined cfg [''map_config''] \<and>
       has_start info = node_defined cfg [''start_position''] \<and>
       (has_start info \<longrightarrow>
          start_name info = as_string cfg [''start_position'', ''name''] ''default'' \<and>
          start_lat info = as_double cfg [''start_position'', ''latitude''] (as_double cfg [''map_config'', ''latitude''] 0) \<and>
          start_lon info = as_double cfg [''start_position'', ''longitude''] (as_double cfg [''map_config'', ''longitude''] 0))"
  by (simp add: load_def default_projector_info_def Let_def split: sum.split)

lemma new_LaneletMap_cases:
  "case new_LaneletMap exists resolve rd proj graph invalid osm ox oy of
     Inl e \<Rightarrow> (\<exists>what. e = RuntimeError what) \<and> (\<not> exists (resolve osm) \<or> rd (resolve osm) = [])
   | Inr m \<Rightarrow> exists (resolve osm) \<and> rd (resolve osm) \<noteq> [] \<and> laneletLayer m = rd (resolve osm) \<and> cache m = [] \<and>
       default_start m = None"
  by (simp add: new_LaneletMap_def laneletLayer_def Let_def)

lemma cache_inv_empty: "cache m = [] \<Longrightarrow> cache_inv m"
  by (simp add: cache_inv_def)

lemma setDefaultStart_layer:
  assumes "wf_map m" "cache_inv m" "setDefaultStart m name g = Inr m'"
  shows "laneletLayer m' = laneletLayer m"
proof -
  obtain r m1 where "findNearestLane m g = Inr (r, m1)" "cache_extends m m1"
    using nearest.lookup_total [OF assms(1,2) TrueI, of g] by metis
  with assms(3) show ?thesis
    by (cases r) (auto simp: setDefaultStart_def laneletLayer_def dest: cache_extends_static)
qed

section \<open>Construction\<close>


text \<open>A configuration with an origin and an unnamed start at the origin's latitude.\<close>

definition demo_doc :: yaml_doc where
  "demo_doc =
     \<lparr>node_defined = (\<lambda>p. p = [''map_config''] \<or> p = [''start_position'']),
      node_string = (\<lambda>p. None),
      node_double = (\<lambda>p. if p = [''map_config'', ''latitude''] then Some 35
                         else if p = [''start_position'', ''longitude''] then Some 139 else None)\<rparr>"

lemma demo_doc_offsets:
  "load (\<lambda>p. Inr demo_doc) dir = Inr info \<Longrightarrow> local_offset_x info = 0 \<and> local_offset_y info = 0"
  by (auto simp: load_def demo_doc_def default_projector_info_def Let_def)

lemma demo_made_wf:
  assumes "new_LaneletMap (\<lambda>p. True) (\<lambda>p. p) (\<lambda>p. [walk_c, lane_a, lane_b]) demo_projector demo_graph 0 osm 0 0 = Inr m"
  shows "wf_map m"
proof -
  have "m = demo_map\<lparr>default_start := None\<rparr>"
    using assms by (simp add: new_LaneletMap_def demo_map_def)
  with demo_wf show ?thesis by (simp add: wf_map_def laneletLayer_def gpsToLocal_def)
qed


end
