(* ===== verification/GatewayClient.thy ===== *)
theory GatewayClient
  imports AutowareController
begin

text \<open>
  The stream to the vehicle gateway: the provider interfaces of \<open>Providers.h\<close> with the adapter
  of \<open>AutowareControllerProvider.h\<close>, and the client of \<open>VehicleGatewayStreamClient.h\<close>: its
  reports, its command dispatch, and its writer as a machine.
\<close>

section \<open>Provider interfaces\<close>

record location_data =
  ld_longitude :: real
  ld_latitud :: real

record eta_data =
  ed_request_id :: i64
  ed_time_seconds :: real
  ed_fare :: real

record trip_init_data =
  ti_request_id :: i64
  ti_start_long :: real
  ti_start_lat :: real
  ti_end_long :: real
  ti_end_lat :: real

record trip_move_data =
  tmv_trip_id :: i64
  tmv_longitude :: real
  tmv_latitude :: real

record arrive_data =
  ar_trip_id :: i64
  ar_longitude :: real
  ar_latitude :: real

text \<open>
  \<open>ITripManager\<close>: the trip identifier is what was last set, and every report of the manager
  carries it.
\<close>

locale trip_manager =
  fixes GetActiveTripId :: "'s \<Rightarrow> i64"
    and SetActiveTripId :: "i64 \<Rightarrow> 's \<Rightarrow> 's"
    and GetArriveData :: "'s \<Rightarrow> arrive_data"
    and GetTripInitData :: "'s \<Rightarrow> trip_init_data"
    and GetTripMoveData :: "'s \<Rightarrow> trip_move_data"
    and GetCurrentStatus :: "'s \<Rightarrow> string"
  assumes get_set [simp]: "GetActiveTripId (SetActiveTripId i s) = i"
    and arrive_id: "ar_trip_id (GetArriveData s) = GetActiveTripId s"
    and init_id: "ti_request_id (GetTripInitData s) = GetActiveTripId s"
    and move_id: "tmv_trip_id (GetTripMoveData s) = GetActiveTripId s"
    and set_status: "GetCurrentStatus (SetActiveTripId i s) = GetCurrentStatus s"
    and set_position: "ar_latitude (GetArriveData (SetActiveTripId i s)) = ar_latitude (GetArriveData s)"
      "ar_longitude (GetArriveData (SetActiveTripId i s)) = ar_longitude (GetArriveData s)"
begin

lemma reports_carry_last_id:
  "ar_trip_id (GetArriveData (SetActiveTripId i s)) = i"
  "ti_request_id (GetTripInitData (SetActiveTripId i s)) = i"
  "tmv_trip_id (GetTripMoveData (SetActiveTripId i s)) = i"
  by (simp_all add: arrive_id init_id move_id)

lemma fold_set_last: "is \<noteq> [] \<Longrightarrow> GetActiveTripId (fold SetActiveTripId is s) = last is"
  by (induction "is" rule: rev_induct) simp_all

end

text \<open>The adapter: the controller's status, read without the strand, and an atomic identifier.\<close>

record trip_adapter =
  ta_controller :: autoware_controller
  active_trip_id :: i64

definition GetActiveTripId :: "trip_adapter \<Rightarrow> i64" where
  "GetActiveTripId t = active_trip_id t"

definition SetActiveTripId :: "i64 \<Rightarrow> trip_adapter \<Rightarrow> trip_adapter" where
  "SetActiveTripId i t = t\<lparr>active_trip_id := i\<rparr>"

definition GetTripInitData :: "trip_adapter \<Rightarrow> trip_init_data" where
  "GetTripInitData t =
     (let s = getTripStatusSync (ta_controller t)
      in \<lparr>ti_request_id = active_trip_id t, ti_start_long = longitude (start_gps s),
          ti_start_lat = latitude (start_gps s), ti_end_long = longitude (goal_gps s),
          ti_end_lat = latitude (goal_gps s)\<rparr>)"

definition GetTripMoveData :: "trip_adapter \<Rightarrow> trip_move_data" where
  "GetTripMoveData t =
     (let s = getTripStatusSync (ta_controller t)
      in \<lparr>tmv_trip_id = active_trip_id t, tmv_longitude = longitude (current_gps s),
          tmv_latitude = latitude (current_gps s)\<rparr>)"

definition GetArriveData :: "trip_adapter \<Rightarrow> arrive_data" where
  "GetArriveData t =
     (let s = getTripStatusSync (ta_controller t)
      in \<lparr>ar_trip_id = active_trip_id t, ar_longitude = longitude (current_gps s),
          ar_latitude = latitude (current_gps s)\<rparr>)"

fun status_name :: "trip_state \<Rightarrow> string" where
  "status_name IDLE = ''idle''"
| "status_name QUERY_PUBLISHING_INITIAL_POSE = ''planning''"
| "status_name QUERY_WAITING_LOCALISATION = ''planning''"
| "status_name QUERY_PUBLISHING_GOAL = ''planning''"
| "status_name QUERY_WAITING_ROUTE = ''planning''"
| "status_name QUERY_READING_ETA = ''planning''"
| "status_name ROUTES_READY = ''routes_ready''"
| "status_name PUBLISHING_INITIAL_POSE = ''preparing''"
| "status_name WAITING_LOCALISATION = ''preparing''"
| "status_name ENGAGING = ''accepted''"
| "status_name DRIVING_TO_PICKUP = ''driving_to_pickup''"
| "status_name WAITING_FOR_MOVE = ''waiting_for_move''"
| "status_name RUNNING = ''in_progress''"
| "status_name COMPLETED = ''completed''"
| "status_name CANCELLED = ''cancelled''"
| "status_name FAILED = ''error''"
| "status_name _ = ''unknown''"

definition GetCurrentStatus :: "trip_adapter \<Rightarrow> string" where
  "GetCurrentStatus t = status_name (st_state (getTripStatusSync (ta_controller t)))"

interpretation adapter: trip_manager GetActiveTripId SetActiveTripId GetArriveData GetTripInitData
  GetTripMoveData GetCurrentStatus
  by unfold_locales (simp_all add: GetActiveTripId_def SetActiveTripId_def GetArriveData_def
      GetTripInitData_def GetTripMoveData_def GetCurrentStatus_def Let_def)

section \<open>Commands and events\<close>

record trip_init_request =
  tir_vin :: string
  tir_request_id :: i64
  tir_start_long :: real
  tir_start_lat :: real
  tir_end_long :: real
  tir_end_lat :: real

record trip_move_request =
  tmr_vin :: string
  tmr_trip_id :: i64

record trip_cancel_request =
  tcr_vin :: string
  tcr_request_id :: i64

text \<open>The \<open>oneof\<close> of the command message; \<open>NoCommand\<close> when none is set.\<close>

datatype gateway_command =
    TripInit trip_init_request
  | TripMove trip_move_request
  | TripPark string
  | OrderUpdateLocation string
  | OrderUpdateStatus string
  | TripCancel trip_cancel_request
  | NoCommand

datatype vehicle_event =
    TripInitAck bool string
  | TripCancelAck bool string
  | OrderUpdateLocationAck bool string
  | LocationEvent string real real
  | EtaEvent string i64 real real string
  | StatusEvent string i64 string
  | ArriveEvent string i64 real real

datatype handler_call =
    OnTripInit trip_init_request
  | OnTripMove trip_move_request
  | OnOrderUpdateLocation string
  | OnTripCancel trip_cancel_request

section \<open>The client\<close>

text \<open>
  Where the thread of \<open>run_with_reconnect\<close> stands: between two runs of \<open>run_stream\<close>, in
  the read loop, or after it, joining the watchdog and the writer.
\<close>

datatype stream_phase =
    Closed
  | Reading
  | Draining

text \<open>
  \<open>stream_dead\<close> and \<open>read_received\<close> are the flags of the current run. \<open>writing\<close> is the
  event the writer has taken from the queue and not yet written. \<open>written\<close> records what was
  handed to \<open>Write\<close> and whether it succeeded, oldest first.
\<close>

record stream_client =
  vin :: string
  handlers_set :: bool
  current_request_id :: i64
  shutdown_flag :: bool
  write_queue :: "vehicle_event list"
  stream_phase :: stream_phase
  stream_dead :: bool
  read_received :: bool
  writing :: "vehicle_event option"
  written :: "(vehicle_event \<times> bool) list"

definition new_stream_client :: "string \<Rightarrow> i64 \<Rightarrow> stream_client" where
  "new_stream_client v req =
     \<lparr>vin = v, handlers_set = False, current_request_id = req, shutdown_flag = False, write_queue = [],
      stream_phase = Closed, stream_dead = False, read_received = False, writing = None, written = []\<rparr>"

definition set_handlers :: "stream_client \<Rightarrow> stream_client" where
  "set_handlers c = c\<lparr>handlers_set := True\<rparr>"

definition enqueue :: "vehicle_event \<Rightarrow> stream_client \<Rightarrow> stream_client" where
  "enqueue ev c = c\<lparr>write_queue := write_queue c @ [ev]\<rparr>"

definition ReportTripInitAck :: "stream_client \<Rightarrow> stream_client" where
  "ReportTripInitAck c = enqueue (TripInitAck True ''accepted'') c"

definition ReportTripCancelAck :: "bool \<Rightarrow> string \<Rightarrow> stream_client \<Rightarrow> stream_client" where
  "ReportTripCancelAck success msg c = enqueue (TripCancelAck success msg) c"

definition ReportOrderUpdateLocationAck :: "bool \<Rightarrow> string \<Rightarrow> stream_client \<Rightarrow> stream_client" where
  "ReportOrderUpdateLocationAck success msg c = enqueue (OrderUpdateLocationAck success msg) c"

definition ReportLocation :: "real \<Rightarrow> real \<Rightarrow> stream_client \<Rightarrow> stream_client" where
  "ReportLocation lat lon c = enqueue (LocationEvent (vin c) lat lon) c"

text \<open>The two-argument report asks the ETA provider only for the request it answers.\<close>

definition ReportEta :: "eta_data \<Rightarrow> real \<Rightarrow> real \<Rightarrow> real \<Rightarrow> stream_client \<Rightarrow> stream_client" where
  "ReportEta provider_eta distance_m time_seconds fare c =
     enqueue (EtaEvent (vin c) (ed_request_id provider_eta) time_seconds fare ''COMPLETED'') c"

definition ReportEta_current :: "eta_data \<Rightarrow> stream_client \<Rightarrow> stream_client" where
  "ReportEta_current provider_eta c =
     enqueue (EtaEvent (vin c) (ed_request_id provider_eta) (ed_time_seconds provider_eta) (ed_fare provider_eta)
       ''COMPLETED'') c"

definition ReportLocation_current :: "location_data \<Rightarrow> stream_client \<Rightarrow> stream_client" where
  "ReportLocation_current d c = enqueue (LocationEvent (vin c) (ld_latitud d) (ld_longitude d)) c"

definition ReportStatus :: "trip_adapter \<Rightarrow> string \<Rightarrow> stream_client \<Rightarrow> stream_client" where
  "ReportStatus tm st c = enqueue (StatusEvent (vin c) (GetActiveTripId tm) st) c"

definition ReportArrive :: "trip_adapter \<Rightarrow> stream_client \<Rightarrow> stream_client" where
  "ReportArrive tm c =
     (let d = GetArriveData tm in enqueue (ArriveEvent (vin c) (ar_trip_id d) (ar_latitude d) (ar_longitude d)) c)"

section \<open>Reading commands\<close>

fun command_vin :: "gateway_command \<Rightarrow> string" where
  "command_vin (TripInit r) = tir_vin r"
| "command_vin (TripMove r) = tmr_vin r"
| "command_vin (TripCancel r) = tcr_vin r"
| "command_vin (TripPark v) = v"
| "command_vin (OrderUpdateLocation v) = v"
| "command_vin (OrderUpdateStatus v) = v"
| "command_vin NoCommand = []"

text \<open>What a command of this vehicle sets before its handler is called.\<close>

fun note_command :: "gateway_command \<Rightarrow> stream_client \<times> trip_adapter \<Rightarrow> stream_client \<times> trip_adapter" where
  "note_command (TripInit r) (c, tm) =
     (c\<lparr>current_request_id := tir_request_id r\<rparr>, SetActiveTripId (tir_request_id r) tm)"
| "note_command (TripMove r) (c, tm) = (c, SetActiveTripId (tmr_trip_id r) tm)"
| "note_command _ ct = ct"

fun handler_of :: "gateway_command \<Rightarrow> handler_call option" where
  "handler_of (TripInit r) = Some (OnTripInit r)"
| "handler_of (TripMove r) = Some (OnTripMove r)"
| "handler_of (OrderUpdateLocation v) = Some (OnOrderUpdateLocation v)"
| "handler_of (TripCancel r) = Some (OnTripCancel r)"
| "handler_of _ = None"

definition read_command ::
  "gateway_command \<Rightarrow> stream_client \<times> trip_adapter \<Rightarrow> handler_call option \<times> stream_client \<times> trip_adapter" where
  "read_command cmd ct =
     (case ct of (c, tm) \<Rightarrow>
        (let c1 = c\<lparr>read_received := True\<rparr>
         in if command_vin cmd \<noteq> vin c then (None, c1, tm)
            else ((if handlers_set c then handler_of cmd else None), note_command cmd (c1, tm))))"

section \<open>The stream as a machine\<close>

text \<open>
  The writer takes one event and hands it to \<open>Write\<close>, which may fail; the watchdog gives up
  if nothing was read; the run ends when \<open>Read\<close> fails and both threads are joined, and the
  next one is opened unless the client is shut down.
\<close>

datatype stream_event =
    SeEnqueue vehicle_event
  | SeOpen
  | SeTake
  | SeWrite bool
  | SeRead gateway_command
  | SeWatchdog
  | SeReadEnd
  | SeJoined
  | SeShutdown

definition open_stream :: "stream_client \<Rightarrow> stream_client" where
  "open_stream c =
     (if shutdown_flag c \<or> stream_phase c \<noteq> Closed then c
      else c\<lparr>stream_phase := Reading, stream_dead := False, read_received := False\<rparr>)"

definition writer_take :: "stream_client \<Rightarrow> stream_client" where
  "writer_take c =
     (if stream_phase c = Closed \<or> shutdown_flag c \<or> stream_dead c \<or> writing c \<noteq> None then c
      else case write_queue c of
             [] \<Rightarrow> c
           | ev # q \<Rightarrow> c\<lparr>write_queue := q, writing := Some ev\<rparr>)"

definition writer_write :: "bool \<Rightarrow> stream_client \<Rightarrow> stream_client" where
  "writer_write ok c =
     (case writing c of
        None \<Rightarrow> c
      | Some ev \<Rightarrow> c\<lparr>writing := None, written := written c @ [(ev, ok)],
                     stream_dead := stream_dead c \<or> \<not> ok\<rparr>)"

definition watchdog_expires :: "stream_client \<Rightarrow> stream_client" where
  "watchdog_expires c =
     (if stream_phase c \<noteq> Closed \<and> \<not> read_received c then c\<lparr>stream_dead := True\<rparr> else c)"

definition read_fails :: "stream_client \<Rightarrow> stream_client" where
  "read_fails c = (if stream_phase c = Reading then c\<lparr>stream_phase := Draining, stream_dead := True\<rparr> else c)"

definition join_threads :: "stream_client \<Rightarrow> stream_client" where
  "join_threads c = (if stream_phase c = Draining \<and> writing c = None then c\<lparr>stream_phase := Closed\<rparr> else c)"

definition client_shutdown :: "stream_client \<Rightarrow> stream_client" where
  "client_shutdown c = c\<lparr>shutdown_flag := True\<rparr>"

fun stream_step :: "stream_event \<Rightarrow> stream_client \<times> trip_adapter \<Rightarrow> exn + stream_client \<times> trip_adapter" where
  "stream_step (SeEnqueue ev) (c, tm) = Inr (enqueue ev c, tm)"
| "stream_step SeOpen (c, tm) = Inr (open_stream c, tm)"
| "stream_step SeTake (c, tm) = Inr (writer_take c, tm)"
| "stream_step (SeWrite ok) (c, tm) = Inr (writer_write ok c, tm)"
| "stream_step (SeRead cmd) (c, tm) =
     Inr (if stream_phase c = Reading then snd (read_command cmd (c, tm)) else (c, tm))"
| "stream_step SeWatchdog (c, tm) = Inr (watchdog_expires c, tm)"
| "stream_step SeReadEnd (c, tm) = Inr (read_fails c, tm)"
| "stream_step SeJoined (c, tm) = Inr (join_threads c, tm)"
| "stream_step SeShutdown (c, tm) = Inr (client_shutdown c, tm)"

text \<open>No step fails, so every run has a result.\<close>

lemma stream_step_total: "\<exists>s'. stream_step e s = Inr s'"
  by (cases s; cases e) auto

definition stream_inv :: "stream_client \<times> trip_adapter \<Rightarrow> bool" where
  "stream_inv s \<longleftrightarrow> (stream_phase (fst s) = Closed \<longrightarrow> writing (fst s) = None)"

lemma note_command_frame [simp]:
  "stream_phase (fst (note_command cmd ct)) = stream_phase (fst ct)"
  "writing (fst (note_command cmd ct)) = writing (fst ct)"
  "written (fst (note_command cmd ct)) = written (fst ct)"
  "write_queue (fst (note_command cmd ct)) = write_queue (fst ct)"
  "stream_dead (fst (note_command cmd ct)) = stream_dead (fst ct)"
  "shutdown_flag (fst (note_command cmd ct)) = shutdown_flag (fst ct)"
  "vin (fst (note_command cmd ct)) = vin (fst ct)"
  "handlers_set (fst (note_command cmd ct)) = handlers_set (fst ct)"
  "ta_controller (snd (note_command cmd ct)) = ta_controller (snd ct)"
  by (cases ct; cases cmd; simp add: SetActiveTripId_def)+

lemma read_command_frame [simp]:
  "stream_phase (fst (snd (read_command cmd ct))) = stream_phase (fst ct)"
  "writing (fst (snd (read_command cmd ct))) = writing (fst ct)"
  "written (fst (snd (read_command cmd ct))) = written (fst ct)"
  "write_queue (fst (snd (read_command cmd ct))) = write_queue (fst ct)"
  "stream_dead (fst (snd (read_command cmd ct))) = stream_dead (fst ct)"
  "shutdown_flag (fst (snd (read_command cmd ct))) = shutdown_flag (fst ct)"
  "vin (fst (snd (read_command cmd ct))) = vin (fst ct)"
  "handlers_set (fst (snd (read_command cmd ct))) = handlers_set (fst ct)"
  "ta_controller (snd (snd (read_command cmd ct))) = ta_controller (snd ct)"
  by (cases ct; simp add: read_command_def Let_def)+

lemmas stream_op_defs =
  enqueue_def open_stream_def writer_take_def writer_write_def watchdog_expires_def read_fails_def
  join_threads_def client_shutdown_def

lemma stream_step_inv: "stream_inv s \<Longrightarrow> stream_step e s = Inr s' \<Longrightarrow> stream_inv s'"
  by (cases s; cases e) (auto simp: stream_inv_def stream_op_defs split: if_splits list.splits option.splits)

definition stream_init :: "stream_client \<times> trip_adapter \<Rightarrow> bool" where
  "stream_init s \<longleftrightarrow> (\<exists>v req tm. s = (new_stream_client v req, tm))"

interpretation stream: strand_machine stream_step stream_init stream_inv
proof unfold_locales
  show "stream_init s \<Longrightarrow> stream_inv s" for s
    by (auto simp: stream_init_def stream_inv_def new_stream_client_def)
  show "stream_inv s \<Longrightarrow> \<exists>s'. stream_step e s = Inr s' \<and> stream_inv s'" for s e
    using stream_step_total [of e s] stream_step_inv by blast
qed

section \<open>What becomes of the events\<close>

text \<open>The events a client holds: written, being written, and queued, oldest first.\<close>

definition held :: "stream_client \<Rightarrow> vehicle_event list" where
  "held c = map fst (written c) @ (case writing c of None \<Rightarrow> [] | Some ev \<Rightarrow> [ev]) @ write_queue c"

fun enqueued :: "stream_event list \<Rightarrow> vehicle_event list" where
  "enqueued [] = []"
| "enqueued (SeEnqueue ev # es) = ev # enqueued es"
| "enqueued (_ # es) = enqueued es"

fun opens :: "stream_event list \<Rightarrow> nat" where
  "opens [] = 0"
| "opens (SeOpen # es) = Suc (opens es)"
| "opens (_ # es) = opens es"

definition lost :: "stream_client \<Rightarrow> vehicle_event list" where
  "lost c = map fst (filter (\<lambda>w. \<not> snd w) (written c))"

lemma held_note [simp]: "held (fst (note_command cmd ct)) = held (fst ct)"
  by (simp add: held_def)

lemma held_read [simp]: "held (fst (snd (read_command cmd ct))) = held (fst ct)"
  by (simp add: held_def)

lemma held_step: "stream_step e s = Inr s' \<Longrightarrow> held (fst s') = held (fst s) @ enqueued [e]"
  by (cases s; cases e) (auto simp: held_def stream_op_defs split: if_splits list.splits option.splits)

lemma enqueued_Cons: "enqueued (e # es) = enqueued [e] @ enqueued es"
  by (cases e) simp_all

lemma held_run: "run stream_step es s = Inr s' \<Longrightarrow> held (fst s') = held (fst s) @ enqueued es"
proof (induction es arbitrary: s)
  case (Cons e es)
  then obtain t where t: "stream_step e s = Inr t" "run stream_step es t = Inr s'" by (auto split: sum.splits)
  show ?case using Cons.IH [OF t(2)] held_step [OF t(1)] enqueued_Cons [of e es] by simp
qed simp

text \<open>The failures so far, and the one the current stream may still have.\<close>

definition risk :: "stream_client \<Rightarrow> nat" where
  "risk c = length (lost c) + (if stream_phase c \<noteq> Closed \<and> (\<not> stream_dead c \<or> writing c \<noteq> None) then 1 else 0)"

lemma risk_step:
  assumes "stream_inv s" "stream_step e s = Inr s'"
  shows "risk (fst s') \<le> risk (fst s) + opens [e]"
  using assms
  by (cases s; cases e)
     (auto simp: risk_def lost_def stream_inv_def stream_op_defs split: if_splits list.splits option.splits)

lemma opens_Cons: "opens (e # es) = opens [e] + opens es"
  by (cases e) simp_all

lemma risk_run:
  "stream_inv s \<Longrightarrow> run stream_step es s = Inr s' \<Longrightarrow> risk (fst s') \<le> risk (fst s) + opens es"
proof (induction es arbitrary: s)
  case (Cons e es)
  then obtain t where t: "stream_step e s = Inr t" "run stream_step es t = Inr s'" by (auto split: sum.splits)
  show ?case
    using Cons.IH [OF stream.step_Inr [OF Cons.prems(1) t(1)] t(2)] risk_step [OF Cons.prems(1) t(1)]
      opens_Cons [of e es] by linarith
qed simp

text \<open>After a shutdown the writer takes nothing more.\<close>

lemma shutdown_step:
  assumes "shutdown_flag (fst s)" "stream_step e s = Inr s'"
  shows "shutdown_flag (fst s') \<and>
     map fst (written (fst s')) @ (case writing (fst s') of None \<Rightarrow> [] | Some ev \<Rightarrow> [ev]) =
     map fst (written (fst s)) @ (case writing (fst s) of None \<Rightarrow> [] | Some ev \<Rightarrow> [ev])"
  using assms
  by (cases s; cases e) (auto simp: stream_op_defs split: if_splits list.splits option.splits)

lemma shutdown_run:
  "shutdown_flag (fst s) \<Longrightarrow> run stream_step es s = Inr s' \<Longrightarrow>
     map fst (written (fst s')) @ (case writing (fst s') of None \<Rightarrow> [] | Some ev \<Rightarrow> [ev]) =
     map fst (written (fst s)) @ (case writing (fst s) of None \<Rightarrow> [] | Some ev \<Rightarrow> [ev])"
proof (induction es arbitrary: s)
  case (Cons e es)
  then obtain t where t: "stream_step e s = Inr t" "run stream_step es t = Inr s'" by (auto split: sum.splits)
  show ?case using Cons.IH [OF _ t(2)] shutdown_step [OF Cons.prems(1) t(1)] by simp
qed simp

end
