(* ===== verification/SensorMessages.thy ===== *)
theory SensorMessages
  imports RosMessages
begin

text \<open>
  The messages the bridges subscribe to that more than one of them reads, the enumerations of
  \<open>vehicle_frame.proto\<close> they share, and the conversion both bridges with an MRM entry have.
  Single precision values are real numbers like double precision ones, so \<open>static_cast<float>\<close>
  is the identity.

  An enumerated field appears as the value its conversion is given: the constants the conversion
  names, and any other number of the conversion's parameter type, to which a wider field has
  been narrowed.
\<close>

section \<open>Perceived objects and traffic lights\<close>

datatype object_label =
    OC_CAR
  | OC_TRUCK
  | OC_BUS
  | OC_TRAILER
  | OC_MOTORCYCLE
  | OC_BICYCLE
  | OC_PEDESTRIAN
  | OC_ANIMAL
  | OC_OTHER u8

record predicted_object =
  classification :: "object_label list"
  existence_probability :: real
  dimensions :: local_coord
  object_position :: local_coord
  object_orientation :: "real \<times> real \<times> real \<times> real"
  object_twist :: "real \<times> real"

datatype light_color =
    TLE_RED
  | TLE_AMBER
  | TLE_GREEN
  | TLE_OTHER u8

record light_element =
  el_color :: light_color
  el_confidence :: real

record light_group =
  traffic_light_group_id :: i64
  elements :: "light_element list"

section \<open>Minimal risk manoeuvres\<close>

datatype mrm_state_value =
    MRM_STATE_UNKNOWN
  | MRM_STATE_NORMAL
  | MRM_STATE_OPERATING
  | MRM_STATE_SUCCEEDED
  | MRM_STATE_FAILED
  | MRM_STATE_OTHER "16 word"

datatype mrm_behavior_value =
    MRM_BEHAVIOR_EMERGENCY_STOP
  | MRM_BEHAVIOR_PULL_OVER
  | MRM_BEHAVIOR_OTHER u8

text \<open>\<open>vehicle_frame::MrmBehavior\<close>, and the description both bridges write.\<close>

datatype mrm_behavior =
    MRM_NONE
  | MRM_PULL_OVER
  | MRM_EMERGENCY_STOP

fun mrm_description :: "mrm_state_value \<Rightarrow> string" where
  "mrm_description MRM_STATE_NORMAL = ''Normal''"
| "mrm_description MRM_STATE_OPERATING = ''MRM Operating''"
| "mrm_description MRM_STATE_SUCCEEDED = ''MRM Succeeded''"
| "mrm_description MRM_STATE_FAILED = ''MRM Failed''"
| "mrm_description _ = ''Unknown''"

definition mrm_active :: "mrm_state_value \<Rightarrow> bool" where
  "mrm_active s \<longleftrightarrow> s \<noteq> MRM_STATE_NORMAL \<and> s \<noteq> MRM_STATE_UNKNOWN"

end
