(* ===== verification/FrameLoop.thy ===== *)
theory FrameLoop
  imports StrandMachine
begin

text \<open>
  What the five publishing bridges share. Each keeps a state that subscriptions overwrite, on a
  strand of its own, and a timer that is armed again by its handler, which publishes a frame
  numbered by a 64-bit counter. \<open>shutdown\<close> cancels the timer from another thread, which only
  affects a wait that is pending at that moment, and then waits for the loop to end.
\<close>

section \<open>The loop\<close>

text \<open>
  \<open>Starting\<close>: the first \<open>scheduleNextTick\<close> is posted. \<open>Armed\<close>: a wait is pending.
  \<open>Expired\<close>: the wait is over and its handler queued or running. \<open>Aborted\<close>: the wait was
  cancelled and its handler queued. \<open>Stopped\<close>: no wait is left, so \<open>io_context::run\<close> can return.
\<close>

datatype timer_state =
    Starting
  | Armed
  | Expired
  | Aborted
  | Stopped

record ('s, 'f) bridge =
  bridge_state :: 's
  frame_seq :: u64
  timer :: timer_state
  frames :: "'f list"

definition new_bridge :: "'s \<Rightarrow> ('s, 'f) bridge" where
  "new_bridge s = \<lparr>bridge_state = s, frame_seq = 0, timer = Starting, frames = []\<rparr>"

text \<open>
  \<open>LStart\<close> runs the posted \<open>scheduleNextTick\<close>, \<open>LExpire\<close> ends the wait, \<open>LHandler\<close> runs
  the wait's handler with what \<open>onTick\<close> reads from outside, \<open>LCancel\<close> is \<open>shutdown\<close>, and
  \<open>LMessage\<close> runs the handler of a message.
\<close>

datatype ('m, 'i) loop_event =
    LStart
  | LExpire
  | LHandler 'i
  | LCancel
  | LMessage 'm

definition scheduleNextTick :: "('s, 'f) bridge \<Rightarrow> ('s, 'f) bridge" where
  "scheduleNextTick b = b\<lparr>timer := Armed\<rparr>"

text \<open>
  \<open>onTick\<close>: what it refreshes, whether it sends, and the frame it builds from the sequence number.
\<close>

definition onTick_with ::
  "('i \<Rightarrow> 's \<Rightarrow> 's) \<Rightarrow> ('s \<Rightarrow> bool) \<Rightarrow> (u64 \<Rightarrow> 'i \<Rightarrow> 's \<Rightarrow> 'f) \<Rightarrow> 'i \<Rightarrow> ('s, 'f) bridge \<Rightarrow> ('s, 'f) bridge" where
  "onTick_with refresh sends build i b =
     (let s = refresh i (bridge_state b);
          b1 = b\<lparr>bridge_state := s\<rparr>;
          b2 = (if sends s
                then b1\<lparr>frame_seq := frame_seq b1 + 1, frames := frames b1 @ [build (frame_seq b1) i s]\<rparr>
                else b1)
      in scheduleNextTick b2)"

definition loop_cancel :: "('s, 'f) bridge \<Rightarrow> ('s, 'f) bridge" where
  "loop_cancel b = (if timer b = Armed then b\<lparr>timer := Aborted\<rparr> else b)"

fun loop_step ::
  "('m \<Rightarrow> 's \<Rightarrow> 's) \<Rightarrow> ('i \<Rightarrow> ('s, 'f) bridge \<Rightarrow> ('s, 'f) bridge) \<Rightarrow> ('m, 'i) loop_event
     \<Rightarrow> ('s, 'f) bridge \<Rightarrow> exn + ('s, 'f) bridge" where
  "loop_step apply_msg tick LStart b = Inr (if timer b = Starting then scheduleNextTick b else b)"
| "loop_step apply_msg tick LExpire b = Inr (if timer b = Armed then b\<lparr>timer := Expired\<rparr> else b)"
| "loop_step apply_msg tick (LHandler i) b =
     Inr (if timer b = Expired then tick i b
          else if timer b = Aborted then b\<lparr>timer := Stopped\<rparr> else b)"
| "loop_step apply_msg tick LCancel b = Inr (loop_cancel b)"
| "loop_step apply_msg tick (LMessage m) b = Inr (b\<lparr>bridge_state := apply_msg m (bridge_state b)\<rparr>)"

section \<open>Runs of the loop\<close>

lemma onTick_with_fields [simp]:
  "timer (onTick_with refresh sends build i b) = Armed"
  "bridge_state (onTick_with refresh sends build i b) = refresh i (bridge_state b)"
  by (simp_all add: onTick_with_def scheduleNextTick_def Let_def)

lemma onTick_with_frames:
  "frames (onTick_with refresh sends build i b) =
     frames b @ (if sends (refresh i (bridge_state b)) then [build (frame_seq b) i (refresh i (bridge_state b))] else [])"
  "frame_seq (onTick_with refresh sends build i b) =
     frame_seq b + (if sends (refresh i (bridge_state b)) then 1 else 0)"
  by (simp_all add: onTick_with_def scheduleNextTick_def Let_def)

lemma loop_step_total: "\<exists>b'. loop_step apply_msg tick e b = Inr b'"
  by (cases e) simp_all

lemma loop_run_total: "\<exists>b'. run (loop_step apply_msg tick) es b = Inr b'"
proof (induction es arbitrary: b)
  case (Cons e es)
  obtain b1 where "loop_step apply_msg tick e b = Inr b1" using loop_step_total by blast
  with Cons.IH [of b1] show ?case by simp
qed simp

text \<open>The frames are numbered in order, from the counter's start, modulo \<open>2 ^ 64\<close>.\<close>

definition numbered :: "('f \<Rightarrow> u64) \<Rightarrow> ('s, 'f) bridge \<Rightarrow> bool" where
  "numbered seq b \<longleftrightarrow> frame_seq b = of_nat (length (frames b)) \<and>
     (\<forall>i < length (frames b). seq (frames b ! i) = of_nat i)"

lemma numbered_step:
  assumes "\<And>q i s. seq (build q i s) = q" "numbered seq b"
    "loop_step apply_msg (onTick_with refresh sends build) e b = Inr b'"
  shows "numbered seq b'"
  using assms
  by (cases e)
     (auto simp: numbered_def onTick_with_frames scheduleNextTick_def loop_cancel_def nth_append less_Suc_eq
       split: if_splits)

lemma numbered_run:
  "(\<And>q i s. seq (build q i s) = q) \<Longrightarrow> numbered seq b \<Longrightarrow>
     run (loop_step apply_msg (onTick_with refresh sends build)) es b = Inr b' \<Longrightarrow> numbered seq b'"
proof (induction es arbitrary: b)
  case (Cons e es)
  then obtain t where t: "loop_step apply_msg (onTick_with refresh sends build) e b = Inr t"
    "run (loop_step apply_msg (onTick_with refresh sends build)) es t = Inr b'"
    by (auto split: sum.splits)
  show ?case
    using Cons.IH [OF Cons.prems(1) numbered_step [OF Cons.prems(1,2) t(1)] t(2)] by simp
qed simp

lemma numbered_new [simp]: "numbered seq (new_bridge s)"
  by (simp add: numbered_def new_bridge_def)

section \<open>Ending the loop\<close>

text \<open>A wait cancelled in time ends the loop: nothing is published any more.\<close>

lemma quiet_step:
  assumes "timer b \<in> {Aborted, Stopped}" "loop_step apply_msg tick e b = Inr b'"
  shows "timer b' \<in> {Aborted, Stopped} \<and> frames b' = frames b"
  using assms by (cases e) (auto simp: loop_cancel_def split: if_splits)

lemma quiet_run:
  "timer b \<in> {Aborted, Stopped} \<Longrightarrow> run (loop_step apply_msg tick) es b = Inr b' \<Longrightarrow>
     timer b' \<in> {Aborted, Stopped} \<and> frames b' = frames b"
proof (induction es arbitrary: b)
  case (Cons e es)
  then obtain t where t: "loop_step apply_msg tick e b = Inr t" "run (loop_step apply_msg tick) es t = Inr b'"
    by (auto split: sum.splits)
  show ?case using Cons.IH [OF _ t(2)] quiet_step [OF Cons.prems(1) t(1)] by simp
qed simp

lemma stopped_step:
  "timer b = Stopped \<Longrightarrow> loop_step apply_msg tick e b = Inr b' \<Longrightarrow> timer b' = Stopped"
  by (cases e) (auto simp: loop_cancel_def)

text \<open>
  A loop that is not cancelled in time goes on: only a cancellation that finds a pending wait
  leads to its end.
\<close>

definition going :: "('s, 'f) bridge \<Rightarrow> bool" where
  "going b \<longleftrightarrow> timer b \<in> {Starting, Armed, Expired}"

lemma going_step:
  assumes "going b" "loop_step apply_msg tick e b = Inr b'" "e \<noteq> LCancel \<or> timer b \<noteq> Armed"
    "\<And>i c. timer (tick i c) = Armed"
  shows "going b'"
  using assms by (cases e) (auto simp: going_def loop_cancel_def scheduleNextTick_def split: if_splits)

lemma going_run:
  assumes "\<And>i c. timer (tick i c) = Armed"
  shows "going b \<Longrightarrow> LCancel \<notin> set es \<Longrightarrow> run (loop_step apply_msg tick) es b = Inr b' \<Longrightarrow> going b'"
proof (induction es arbitrary: b)
  case (Cons e es)
  then obtain t where t: "loop_step apply_msg tick e b = Inr t" "run (loop_step apply_msg tick) es t = Inr b'"
    by (auto split: sum.splits)
  have "e \<noteq> LCancel \<or> timer b \<noteq> Armed" using Cons.prems(2) by auto
  from going_step [OF Cons.prems(1) t(1) this assms] Cons.IH [OF _ _ t(2)] Cons.prems(2)
  show ?case by simp
qed simp

section \<open>The latest message of each topic\<close>

text \<open>
  Messages of one topic overwrite each other and messages of different topics do not interfere.
  Then a state depends only on the latest message of each topic.
\<close>

definition latest_of :: "('m \<Rightarrow> 't) \<Rightarrow> 't \<Rightarrow> 'm list \<Rightarrow> 'm option" where
  "latest_of topic t ms = find (\<lambda>m. topic m = t) (rev ms)"

locale topic_store =
  fixes apply_msg :: "'m \<Rightarrow> 's \<Rightarrow> 's"
    and topic :: "'m \<Rightarrow> 't"
  assumes overwrite: "topic m = topic m' \<Longrightarrow> apply_msg m' (apply_msg m s) = apply_msg m' s"
    and independent: "topic m \<noteq> topic m' \<Longrightarrow> apply_msg m' (apply_msg m s) = apply_msg m (apply_msg m' s)"
begin

text \<open>Dropping from a list the messages of one topic.\<close>

lemma fold_topic_first:
  "fold apply_msg ms s =
     (case latest_of topic t ms of
        None \<Rightarrow> fold apply_msg (filter (\<lambda>m. topic m \<noteq> t) ms) s
      | Some m \<Rightarrow> apply_msg m (fold apply_msg (filter (\<lambda>m. topic m \<noteq> t) ms) s))"
proof (induction ms rule: rev_induct)
  case (snoc n ms)
  show ?case
  proof (cases "topic n = t")
    case True
    have "apply_msg n (fold apply_msg ms s) = apply_msg n (fold apply_msg (filter (\<lambda>m. topic m \<noteq> t) ms) s)"
    proof (cases "latest_of topic t ms")
      case None
      with snoc show ?thesis by simp
    next
      case (Some m)
      then have "topic m = t" by (auto simp: latest_of_def find_Some_iff)
      with True Some snoc show ?thesis by (simp add: overwrite)
    qed
    with True show ?thesis by (simp add: latest_of_def)
  next
    case False
    have eq: "latest_of topic t (ms @ [n]) = latest_of topic t ms" using False by (simp add: latest_of_def)
    show ?thesis
    proof (cases "latest_of topic t ms")
      case None
      with snoc False eq show ?thesis by simp
    next
      case (Some m)
      then have "topic m = t" by (auto simp: latest_of_def find_Some_iff)
      then have "topic m \<noteq> topic n" using False by simp
      with Some snoc False eq show ?thesis by (simp add: independent)
    qed
  qed
qed (simp add: latest_of_def)

lemma latest_of_filter:
  "latest_of topic t' (filter (\<lambda>m. topic m \<noteq> t) ms) = (if t' = t then None else latest_of topic t' ms)"
proof -
  have "find (\<lambda>m. topic m = t') (filter (\<lambda>m. topic m \<noteq> t) xs) = (if t' = t then None else find (\<lambda>m. topic m = t') xs)" for xs
    by (induction xs) auto
  then show ?thesis by (simp add: latest_of_def rev_filter)
qed

lemma latest_determines:
  "(\<And>t. latest_of topic t ms = latest_of topic t ns) \<Longrightarrow> fold apply_msg ms s = fold apply_msg ns s"
proof (induction "length ms + length ns" arbitrary: ms ns rule: less_induct)
  case less
  show ?case
  proof (cases "ms = [] \<and> ns = []")
    case False
    then obtain t where t: "t \<in> topic ` set ms \<union> topic ` set ns" by (metis ex_in_conv image_is_empty set_empty sup_bot.eq_neutr_iff)
    let ?f = "filter (\<lambda>m. topic m \<noteq> t)"
    have "length (?f ms) + length (?f ns) < length ms + length ns"
    proof -
      have l: "length (?f xs) \<le> length xs" for xs by (rule length_filter_le)
      have s: "t \<in> topic ` set xs \<Longrightarrow> length (?f xs) < length xs" for xs
        by (auto intro: length_filter_less)
      from t consider "t \<in> topic ` set ms" | "t \<in> topic ` set ns" by blast
      then show ?thesis using l [of ms] l [of ns] s [of ms] s [of ns] by cases (linarith)+
    qed
    moreover have "latest_of topic u (?f ms) = latest_of topic u (?f ns)" for u
      using less.prems [of u] by (simp add: latest_of_filter)
    ultimately have "fold apply_msg (?f ms) s = fold apply_msg (?f ns) s" using less.hyps by blast
    then show ?thesis
      using fold_topic_first [of ms s t] fold_topic_first [of ns s t] less.prems [of t] by (simp split: option.splits)
  qed simp
qed

end

end
