(* ===== verification/ClusterBridge.thy ===== *)
theory ClusterBridge
  imports SensorMessages FrameLoop
begin

text \<open>
  \<open>ClusterBridge.cc\<close>: the vehicle's instruments. Fifteen subscriptions overwrite the fields of
  \<open>FrameState\<close> (\<open>FrameStates.h\<close>); each tick copies them into a \<open>VehicleFrame\<close>.
\<close>

section \<open>Messages\<close>

datatype gear_report =
    GR_PARK
  | GR_REVERSE
  | GR_NEUTRAL
  | GR_DRIVE
  | GR_OTHER u8

datatype turn_report =
    TIR_ENABLE_LEFT
  | TIR_ENABLE_RIGHT
  | TIR_OTHER u8

datatype control_mode_report =
    CMR_AUTONOMOUS
  | CMR_OTHER u8

datatype motion_state_report =
    MS_STOPPED
  | MS_MOVING
  | MS_STARTING
  | MS_OTHER u8

text \<open>The four values of \<open>VehicleKinematics\<close> the bridge reads.\<close>

record kinematics_msg =
  km_accel_x :: real
  km_yaw_rate :: real
  km_longitude :: real
  km_latitude :: real

datatype cluster_msg =
    Velocity real
  | Gear gear_report
  | Steering real
  | HazardLights u8
  | TurnIndicators turn_report
  | ControlMode control_mode_report
  | BatteryStatus real
  | KinematicsStatus kinematics_msg
  | MotionState motion_state_report
  | TargetVelocity real
  | VelocityLimit real
  | Eta real real
  | TrafficSignals "light_group list"
  | Objects "predicted_object list"
  | MrmState mrm_state_value mrm_behavior_value

section \<open>State and frame\<close>

datatype gear_state =
    GEAR_UNKNOWN
  | GEAR_PARK
  | GEAR_REVERSE
  | GEAR_NEUTRAL
  | GEAR_DRIVE

datatype turn_signal =
    TURN_NONE
  | TURN_LEFT
  | TURN_RIGHT

datatype control_mode =
    MODE_UNKNOWN
  | MODE_MANUAL
  | MODE_AUTO

datatype motion_state =
    MOTION_UNKNOWN
  | MOTION_STOPPED
  | MOTION_MOVING
  | MOTION_DECELERATING

record surround_object =
  so_x :: real
  so_y :: real
  so_vx :: real
  so_vy :: real
  so_type :: string

record frame_state =
  speed_mps :: real
  speed_kmh :: real
  gear :: gear_state
  steering_angle_deg :: real
  hazard_on :: bool
  turn_signal :: turn_signal
  control_mode :: control_mode
  battery_pct :: real
  accel_mps2 :: real
  yaw_rate :: real
  motion_state :: motion_state
  target_speed_mps :: real
  speed_limit_mps :: real
  remaining_distance_m :: real
  remaining_time_s :: real
  traffic_light_red :: bool
  traffic_light_yellow :: bool
  traffic_light_green :: bool
  obstacle_count :: u32
  pedestrian_count :: u32
  vehicle_count :: u32
  surround_objects :: "surround_object list"
  mrm_behavior :: mrm_behavior
  is_active :: bool
  description :: string
  fs_longitude :: real
  fs_latitude :: real

definition new_frame_state :: frame_state where
  "new_frame_state =
     \<lparr>speed_mps = 0, speed_kmh = 0, gear = GEAR_UNKNOWN, steering_angle_deg = 0, hazard_on = False,
      turn_signal = TURN_NONE, control_mode = MODE_UNKNOWN, battery_pct = 0, accel_mps2 = 0, yaw_rate = 0,
      motion_state = MOTION_UNKNOWN, target_speed_mps = 0, speed_limit_mps = 0, remaining_distance_m = 0,
      remaining_time_s = 0, traffic_light_red = False, traffic_light_yellow = False,
      traffic_light_green = False, obstacle_count = 0, pedestrian_count = 0, vehicle_count = 0,
      surround_objects = [], mrm_behavior = MRM_NONE, is_active = False, description = [],
      fs_longitude = 0, fs_latitude = 0\<rparr>"

record adas_summary =
  adas_obstacle_count :: u32
  adas_red :: bool
  adas_yellow :: bool
  adas_green :: bool
  adas_pedestrian_count :: u32
  adas_vehicle_count :: u32

record vehicle_frame =
  vf_stamp_ns :: i64
  vf_seq :: u64
  vf_speed_mps :: real
  vf_speed_kmh :: real
  vf_gear :: gear_state
  vf_steering_angle_deg :: real
  vf_hazard_on :: bool
  vf_turn_signal :: turn_signal
  vf_control_mode :: control_mode
  vf_battery_pct :: real
  vf_accel_mps2 :: real
  vf_yaw_rate :: real
  vf_motion_state :: motion_state
  vf_target_speed_mps :: real
  vf_speed_limit_mps :: real
  vf_remaining_distance_m :: real
  vf_remaining_time_s :: real
  vf_adas :: adas_summary
  vf_surround_objects :: "surround_object list"
  vf_mrm_is_active :: bool
  vf_mrm_description :: string
  vf_mrm_behavior :: mrm_behavior

text \<open>A message field that is never set reads as its default, here the obstacle count.\<close>

definition cluster_buildFrame :: "u64 \<Rightarrow> i64 \<Rightarrow> frame_state \<Rightarrow> vehicle_frame" where
  "cluster_buildFrame sq stamp s =
     \<lparr>vf_stamp_ns = stamp, vf_seq = sq, vf_speed_mps = speed_mps s, vf_speed_kmh = speed_kmh s,
      vf_gear = gear s, vf_steering_angle_deg = steering_angle_deg s, vf_hazard_on = hazard_on s,
      vf_turn_signal = turn_signal s, vf_control_mode = control_mode s, vf_battery_pct = battery_pct s,
      vf_accel_mps2 = accel_mps2 s, vf_yaw_rate = yaw_rate s, vf_motion_state = motion_state s,
      vf_target_speed_mps = target_speed_mps s, vf_speed_limit_mps = speed_limit_mps s,
      vf_remaining_distance_m = remaining_distance_m s, vf_remaining_time_s = remaining_time_s s,
      vf_adas = \<lparr>adas_obstacle_count = 0, adas_red = traffic_light_red s,
                 adas_yellow = traffic_light_yellow s, adas_green = traffic_light_green s,
                 adas_pedestrian_count = pedestrian_count s, adas_vehicle_count = vehicle_count s\<rparr>,
      vf_surround_objects = surround_objects s, vf_mrm_is_active = is_active s,
      vf_mrm_description = description s, vf_mrm_behavior = mrm_behavior s\<rparr>"

section \<open>Conversions\<close>

fun toGear :: "gear_report \<Rightarrow> gear_state" where
  "toGear GR_PARK = GEAR_PARK"
| "toGear GR_REVERSE = GEAR_REVERSE"
| "toGear GR_NEUTRAL = GEAR_NEUTRAL"
| "toGear GR_DRIVE = GEAR_DRIVE"
| "toGear (GR_OTHER v) = GEAR_UNKNOWN"

fun toTurn :: "turn_report \<Rightarrow> turn_signal" where
  "toTurn TIR_ENABLE_LEFT = TURN_LEFT"
| "toTurn TIR_ENABLE_RIGHT = TURN_RIGHT"
| "toTurn (TIR_OTHER v) = TURN_NONE"

definition toCtrlMode :: "control_mode_report \<Rightarrow> control_mode" where
  "toCtrlMode v = (if v = CMR_AUTONOMOUS then MODE_AUTO else MODE_MANUAL)"

fun toMotionState :: "motion_state_report \<Rightarrow> motion_state" where
  "toMotionState MS_STOPPED = MOTION_STOPPED"
| "toMotionState MS_MOVING = MOTION_MOVING"
| "toMotionState MS_STARTING = MOTION_DECELERATING"
| "toMotionState (MS_OTHER v) = MOTION_UNKNOWN"

definition toHazard :: "u8 \<Rightarrow> bool" where
  "toHazard v = (if v = 1 then False else if v = 2 then True else False)"

fun toMrmState :: "mrm_behavior_value \<Rightarrow> mrm_behavior" where
  "toMrmState MRM_BEHAVIOR_EMERGENCY_STOP = MRM_EMERGENCY_STOP"
| "toMrmState MRM_BEHAVIOR_PULL_OVER = MRM_PULL_OVER"
| "toMrmState (MRM_BEHAVIOR_OTHER v) = MRM_NONE"

text \<open>\<open>DEG_PER_RAD\<close>, with the decimal for \<open>pi\<close> the code has.\<close>

definition DEG_PER_RAD :: real where
  "DEG_PER_RAD = 180 / 3.14159265358979323846"

section \<open>Handlers\<close>

definition onVelocityImpl :: "real \<Rightarrow> frame_state \<Rightarrow> frame_state" where
  "onVelocityImpl v s = s\<lparr>speed_mps := v, speed_kmh := v * 3.6\<rparr>"

definition onGearImpl :: "gear_report \<Rightarrow> frame_state \<Rightarrow> frame_state" where
  "onGearImpl r s = s\<lparr>gear := toGear r\<rparr>"

definition onSteeringImpl :: "real \<Rightarrow> frame_state \<Rightarrow> frame_state" where
  "onSteeringImpl angle s = s\<lparr>steering_angle_deg := angle * DEG_PER_RAD\<rparr>"

definition onHazardLightsImpl :: "u8 \<Rightarrow> frame_state \<Rightarrow> frame_state" where
  "onHazardLightsImpl r s = s\<lparr>hazard_on := toHazard r\<rparr>"

definition onTurnIndicatorsImpl :: "turn_report \<Rightarrow> frame_state \<Rightarrow> frame_state" where
  "onTurnIndicatorsImpl r s = s\<lparr>turn_signal := toTurn r\<rparr>"

definition onControlModeImpl :: "control_mode_report \<Rightarrow> frame_state \<Rightarrow> frame_state" where
  "onControlModeImpl m s = s\<lparr>control_mode := toCtrlMode m\<rparr>"

definition onBatteryStatusImpl :: "real \<Rightarrow> frame_state \<Rightarrow> frame_state" where
  "onBatteryStatusImpl level s = s\<lparr>battery_pct := level * 100\<rparr>"

definition onKinematicsStatusImpl :: "kinematics_msg \<Rightarrow> frame_state \<Rightarrow> frame_state" where
  "onKinematicsStatusImpl k s =
     s\<lparr>accel_mps2 := km_accel_x k, yaw_rate := km_yaw_rate k, fs_longitude := km_longitude k,
       fs_latitude := km_latitude k\<rparr>"

definition onMotionStateImpl :: "motion_state_report \<Rightarrow> frame_state \<Rightarrow> frame_state" where
  "onMotionStateImpl m s = s\<lparr>motion_state := toMotionState m\<rparr>"

definition onTargetVelocityImpl :: "real \<Rightarrow> frame_state \<Rightarrow> frame_state" where
  "onTargetVelocityImpl v s = s\<lparr>target_speed_mps := v\<rparr>"

definition onVelocityLimitImpl :: "real \<Rightarrow> frame_state \<Rightarrow> frame_state" where
  "onVelocityLimitImpl v s = s\<lparr>speed_limit_mps := v\<rparr>"

definition onEtaImpl :: "real \<Rightarrow> real \<Rightarrow> frame_state \<Rightarrow> frame_state" where
  "onEtaImpl d t s = s\<lparr>remaining_distance_m := d, remaining_time_s := t\<rparr>"

text \<open>The two nested loops over the groups and their elements, setting one flag for each colour.\<close>

definition note_color :: "light_element \<Rightarrow> bool \<times> bool \<times> bool \<Rightarrow> bool \<times> bool \<times> bool" where
  "note_color e flags =
     (case flags of (red, green, yellow) \<Rightarrow>
        (red \<or> el_color e = TLE_RED, green \<or> el_color e = TLE_GREEN, yellow \<or> el_color e = TLE_AMBER))"

definition onTrafficSignalsImpl :: "light_group list \<Rightarrow> frame_state \<Rightarrow> frame_state" where
  "onTrafficSignalsImpl groups s =
     (case fold (\<lambda>g. fold note_color (elements g)) groups (False, False, False) of
        (red, green, yellow) \<Rightarrow>
          s\<lparr>traffic_light_red := red, traffic_light_green := green, traffic_light_yellow := yellow\<rparr>)"

definition is_vehicle :: "object_label \<Rightarrow> bool" where
  "is_vehicle l \<longleftrightarrow> l = OC_CAR \<or> l = OC_TRUCK \<or> l = OC_BUS \<or> l = OC_TRAILER \<or> l = OC_MOTORCYCLE"

text \<open>One turn of the counting loop, on (obstacles, pedestrians, vehicles).\<close>

definition count_object :: "predicted_object \<Rightarrow> u32 \<times> u32 \<times> u32 \<Rightarrow> u32 \<times> u32 \<times> u32" where
  "count_object ob counts =
     (case counts of (obstacles, pedestrians, vehicles) \<Rightarrow>
        (case classification ob of
           [] \<Rightarrow> (obstacles, pedestrians, vehicles)
         | label # _ \<Rightarrow>
             if is_vehicle label then (obstacles + 1, pedestrians, vehicles + 1)
             else if label = OC_PEDESTRIAN then (obstacles + 1, pedestrians + 1, vehicles)
             else (obstacles + 1, pedestrians, vehicles)))"

definition onObjectsImpl :: "predicted_object list \<Rightarrow> frame_state \<Rightarrow> frame_state" where
  "onObjectsImpl objects s =
     (case fold count_object objects (0, 0, 0) of (obstacles, pedestrians, vehicles) \<Rightarrow>
        s\<lparr>obstacle_count := obstacles, pedestrian_count := pedestrians, vehicle_count := vehicles\<rparr>)"

definition label_type :: "object_label \<Rightarrow> string" where
  "label_type l =
     (if l = OC_PEDESTRIAN then ''PEDESTRIAN'' else if is_vehicle l then ''VEHICLE'' else ''UNKNOWN'')"

definition surround :: "predicted_object \<Rightarrow> object_label \<Rightarrow> surround_object" where
  "surround ob label =
     \<lparr>so_x = pos_x (object_position ob), so_y = pos_y (object_position ob), so_vx = fst (object_twist ob),
      so_vy = snd (object_twist ob), so_type = label_type label\<rparr>"

fun surround_loop :: "predicted_object list \<Rightarrow> surround_object list" where
  "surround_loop [] = []"
| "surround_loop (ob # obs) =
     (case classification ob of
        [] \<Rightarrow> surround_loop obs
      | label # _ \<Rightarrow>
          if existence_probability ob < 1 / 2 then surround_loop obs
          else surround ob label # surround_loop obs)"

definition onSurroundObjectsImpl :: "predicted_object list \<Rightarrow> frame_state \<Rightarrow> frame_state" where
  "onSurroundObjectsImpl objects s = s\<lparr>surround_objects := surround_loop objects\<rparr>"

definition onMrmStateImpl :: "mrm_state_value \<Rightarrow> mrm_behavior_value \<Rightarrow> frame_state \<Rightarrow> frame_state" where
  "onMrmStateImpl state behavior s =
     s\<lparr>is_active := mrm_active state, mrm_behavior := toMrmState behavior, description := mrm_description state\<rparr>"

fun cluster_apply :: "cluster_msg \<Rightarrow> frame_state \<Rightarrow> frame_state" where
  "cluster_apply (Velocity v) s = onVelocityImpl v s"
| "cluster_apply (Gear r) s = onGearImpl r s"
| "cluster_apply (Steering a) s = onSteeringImpl a s"
| "cluster_apply (HazardLights r) s = onHazardLightsImpl r s"
| "cluster_apply (TurnIndicators r) s = onTurnIndicatorsImpl r s"
| "cluster_apply (ControlMode m) s = onControlModeImpl m s"
| "cluster_apply (BatteryStatus l) s = onBatteryStatusImpl l s"
| "cluster_apply (KinematicsStatus k) s = onKinematicsStatusImpl k s"
| "cluster_apply (MotionState m) s = onMotionStateImpl m s"
| "cluster_apply (TargetVelocity v) s = onTargetVelocityImpl v s"
| "cluster_apply (VelocityLimit v) s = onVelocityLimitImpl v s"
| "cluster_apply (Eta d t) s = onEtaImpl d t s"
| "cluster_apply (TrafficSignals gs) s = onTrafficSignalsImpl gs s"
| "cluster_apply (Objects obs) s = onObjectsImpl obs (onSurroundObjectsImpl obs s)"
| "cluster_apply (MrmState st b) s = onMrmStateImpl st b s"

text \<open>The subscription each message comes from.\<close>

fun cluster_topic :: "cluster_msg \<Rightarrow> string" where
  "cluster_topic (Velocity v) = ''/vehicle/status/velocity_status''"
| "cluster_topic (Gear r) = ''/vehicle/status/gear_status''"
| "cluster_topic (Steering a) = ''/vehicle/status/steering_status''"
| "cluster_topic (HazardLights r) = ''/vehicle/status/hazard_lights_status''"
| "cluster_topic (TurnIndicators r) = ''/vehicle/status/turn_indicators_status''"
| "cluster_topic (ControlMode m) = ''/vehicle/status/control_mode''"
| "cluster_topic (BatteryStatus l) = ''/vehicle/status/battery_charge''"
| "cluster_topic (KinematicsStatus k) = ''/api/vehicle/kinematics''"
| "cluster_topic (MotionState m) = ''/api/motion/state''"
| "cluster_topic (TargetVelocity v) = ''/planning/scenario_planning/velocity_smoother/closest_velocity''"
| "cluster_topic (VelocityLimit v) = ''/planning/scenario_planning/current_max_velocity''"
| "cluster_topic (Eta d t) = ''/planning/mission_remaining_distance_time''"
| "cluster_topic (TrafficSignals gs) = ''/perception/traffic_light_recognition/traffic_signals''"
| "cluster_topic (Objects obs) = ''/perception/object_recognition/objects''"
| "cluster_topic (MrmState st b) = ''/api/fail_safe/mrm_state''"

section \<open>The bridge\<close>

type_synonym cluster_bridge = "(frame_state, vehicle_frame) bridge"

definition cluster_onTick :: "i64 \<Rightarrow> cluster_bridge \<Rightarrow> cluster_bridge" where
  "cluster_onTick = onTick_with (\<lambda>_ s. s) (\<lambda>_. True) cluster_buildFrame"

definition cluster_step :: "(cluster_msg, i64) loop_event \<Rightarrow> cluster_bridge \<Rightarrow> exn + cluster_bridge" where
  "cluster_step = loop_step cluster_apply cluster_onTick"

lemmas cluster_handler_defs =
  onVelocityImpl_def onSteeringImpl_def onBatteryStatusImpl_def onKinematicsStatusImpl_def
  onTrafficSignalsImpl_def onObjectsImpl_def onSurroundObjectsImpl_def onMrmStateImpl_def onGearImpl_def
  onHazardLightsImpl_def onTurnIndicatorsImpl_def onControlModeImpl_def onMotionStateImpl_def
  onTargetVelocityImpl_def onVelocityLimitImpl_def onEtaImpl_def

interpretation cluster: topic_store cluster_apply cluster_topic
proof unfold_locales
  show "cluster_topic m = cluster_topic m' \<Longrightarrow> cluster_apply m' (cluster_apply m s) = cluster_apply m' s" for m m' s
    by (cases m; cases m') (simp_all add: cluster_handler_defs split: prod.splits)
  show "cluster_topic m \<noteq> cluster_topic m' \<Longrightarrow>
      cluster_apply m' (cluster_apply m s) = cluster_apply m (cluster_apply m' s)" for m m' s
    by (cases m; cases m') (simp_all add: cluster_handler_defs split: prod.splits)
qed

section \<open>The loops\<close>

lemma fold_note_color:
  "fold note_color es (r, g, y) =
     (r \<or> (\<exists>e \<in> set es. el_color e = TLE_RED), g \<or> (\<exists>e \<in> set es. el_color e = TLE_GREEN),
      y \<or> (\<exists>e \<in> set es. el_color e = TLE_AMBER))"
  by (induction es arbitrary: r g y) (auto simp: note_color_def)

lemma fold_groups:
  "fold (\<lambda>g. fold note_color (elements g)) gs (r, g, y) =
     (r \<or> (\<exists>gr \<in> set gs. \<exists>e \<in> set (elements gr). el_color e = TLE_RED),
      g \<or> (\<exists>gr \<in> set gs. \<exists>e \<in> set (elements gr). el_color e = TLE_GREEN),
      y \<or> (\<exists>gr \<in> set gs. \<exists>e \<in> set (elements gr). el_color e = TLE_AMBER))"
  by (induction gs arbitrary: r g y) (auto simp: fold_note_color)

abbreviation classified :: "predicted_object \<Rightarrow> bool" where
  "classified ob \<equiv> classification ob \<noteq> []"

lemma fold_count_object:
  "fold count_object obs (a, b, c) =
     (a + of_nat (length (filter classified obs)),
      b + of_nat (length (filter (\<lambda>ob. classified ob \<and> hd (classification ob) = OC_PEDESTRIAN) obs)),
      c + of_nat (length (filter (\<lambda>ob. classified ob \<and> is_vehicle (hd (classification ob))) obs)))"
  by (induction obs arbitrary: a b c) (auto simp: count_object_def is_vehicle_def split: list.splits)

lemma surround_loop_eq:
  "surround_loop obs =
     map (\<lambda>ob. surround ob (hd (classification ob)))
       (filter (\<lambda>ob. classified ob \<and> 1 / 2 \<le> existence_probability ob) obs)"
  by (induction obs) (auto split: list.splits)

end
