(* ===== verification/AutowareApp.thy ===== *)
theory AutowareApp
  imports GatewayClient ClusterBridge TripReplies
begin

text \<open>
  \<open>AutowareApp.cpp\<close>: the agent. \<open>startAutowareApp\<close> connects the gateway's commands to the
  Autoware controller and the controller's callbacks to the gateway's reports. Commands are read
  on the client's thread; what they ask of the controller is posted to its strand and runs
  there, one task after the other, together with the callbacks it calls.
\<close>

section \<open>Providers\<close>

text \<open>\<open>ClusterBridgeProvider.h\<close>: both adapters read the cluster bridge's state.\<close>

definition GetEta :: "i64 \<Rightarrow> frame_state \<Rightarrow> eta_data" where
  "GetEta request_id s = \<lparr>ed_request_id = request_id, ed_time_seconds = remaining_time_s s, ed_fare = 0\<rparr>"

definition GetCurrentLocation :: "frame_state \<Rightarrow> location_data" where
  "GetCurrentLocation s = \<lparr>ld_longitude = fs_longitude s, ld_latitud = fs_latitude s\<rparr>"

definition calculate_fare :: "real \<Rightarrow> real \<Rightarrow> real" where
  "calculate_fare distance_m time_seconds =
     (let distance_km = distance_m / 1000; time_min = time_seconds / 60
      in 5 + distance_km * 2 + time_min * (1 / 2))"

section \<open>State\<close>

text \<open>
  \<open>strand\<close> holds the posted tasks, \<open>streaming_posts\<close> the values posted to the location bridge,
  \<open>to_autoware\<close> the messages and service calls that left the process. The ETA adapter is read as
  long as it lives; the request identifier it returns is the one the client keeps.
\<close>

record agent =
  trip_mgr :: trip_adapter
  client :: stream_client
  cluster :: frame_state
  strand :: "ac_event list"
  streaming_posts :: "bool list"
  to_autoware :: "effect list"

definition post_task :: "ac_event \<Rightarrow> agent \<Rightarrow> agent" where
  "post_task t a = a\<lparr>strand := strand a @ [t]\<rparr>"

text \<open>
  The application with its controller built and its handlers not yet installed; the stream
  client's thread is already running then.
\<close>

definition start_app :: "autoware_controller \<Rightarrow> agent" where
  "start_app ctrl =
     \<lparr>trip_mgr = \<lparr>ta_controller = ctrl, active_trip_id = 0\<rparr>,
      client = new_stream_client ''ORIN_NANO_001'' 0, cluster = new_frame_state, strand = [AcInitialize],
      streaming_posts = [], to_autoware = []\<rparr>"

text \<open>The callbacks are told apart by number.\<close>

definition cb_query :: nat where "cb_query = 0"
definition cb_start :: nat where "cb_start = 1"
definition cb_move :: nat where "cb_move = 2"
definition cb_location :: nat where "cb_location = 3"

section \<open>Command handlers\<close>

text \<open>A task posted with what it reads when it runs left open; \<open>with_env\<close> fills that in.\<close>

definition on_trip_init :: "trip_init_request \<Rightarrow> agent \<Rightarrow> agent" where
  "on_trip_init req a =
     (let start = \<lparr>latitude = tir_start_lat req, longitude = tir_start_long req\<rparr>;
          goal = \<lparr>latitude = tir_end_lat req, longitude = tir_end_long req\<rparr>
      in post_task (AcQueryEta start goal (Some cb_query) None) a)"

definition on_trip_move :: "agent \<Rightarrow> agent" where
  "on_trip_move a = post_task (AcMoveCommand (Some cb_move)) a"

definition on_order_update_location :: "agent \<Rightarrow> agent" where
  "on_order_update_location a =
     post_task (AcGetStatus (Some cb_location)) (a\<lparr>client := ReportOrderUpdateLocationAck True [] (client a)\<rparr>)"

definition on_trip_cancel :: "agent \<Rightarrow> agent" where
  "on_trip_cancel a =
     (let a1 = post_task AcCancel a;
          a2 = a1\<lparr>client := ReportTripCancelAck True [] (client a1)\<rparr>
      in a2\<lparr>client := ReportStatus (trip_mgr a2) ''CANCELLED'' (client a2)\<rparr>)"

fun call_handler :: "handler_call \<Rightarrow> agent \<Rightarrow> agent" where
  "call_handler (OnTripInit req) a = on_trip_init req a"
| "call_handler (OnTripMove req) a = on_trip_move a"
| "call_handler (OnOrderUpdateLocation v) a = on_order_update_location a"
| "call_handler (OnTripCancel req) a = on_trip_cancel a"

definition agent_read :: "gateway_command \<Rightarrow> agent \<Rightarrow> agent" where
  "agent_read cmd a =
     (case read_command cmd (client a, trip_mgr a) of
        (h, c, tm) \<Rightarrow>
          (let a1 = a\<lparr>client := c, trip_mgr := tm\<rparr>
           in case h of None \<Rightarrow> a1 | Some call \<Rightarrow> call_handler call a1))"

section \<open>Callbacks\<close>

definition on_eta_result :: "eta_query_result \<Rightarrow> agent \<Rightarrow> agent" where
  "on_eta_result r a =
     (if \<not> q_success r then a
      else
        (let total_distance_m = leg_distance_m (pickup_leg r) + leg_distance_m (trip_leg r);
             total_eta_s = leg_eta_seconds (pickup_leg r) + leg_eta_seconds (trip_leg r);
             fare = calculate_fare (leg_distance_m (trip_leg r)) (leg_eta_seconds (trip_leg r));
             provider = GetEta (current_request_id (client a)) (cluster a)
         in post_task (AcStartTrip (Some cb_start))
              (a\<lparr>client := ReportEta provider total_distance_m total_eta_s fare (client a)\<rparr>)))"

text \<open>The trip adapter as a callback sees it that is called with the status \<open>st\<close>.\<close>

definition at_status :: "trip_status \<Rightarrow> trip_adapter \<Rightarrow> trip_adapter" where
  "at_status st tm =
     tm\<lparr>ta_controller := (ta_controller tm)
          \<lparr>trip_ctrl := map_option (\<lambda>c. c\<lparr>status := st\<rparr>) (trip_ctrl (ta_controller tm))\<rparr>\<rparr>"

definition on_trip_state :: "trip_state \<Rightarrow> trip_status \<Rightarrow> agent \<Rightarrow> agent" where
  "on_trip_state s st a =
     (let tm = at_status st (trip_mgr a)
      in case s of
           WAITING_FOR_MOVE \<Rightarrow>
             a\<lparr>client := ReportStatus tm ''ARRIVED_AT_PICKUP'' (ReportArrive tm (ReportTripInitAck (client a))),
               streaming_posts := streaming_posts a @ [False]\<rparr>
         | DRIVING_TO_PICKUP \<Rightarrow> a\<lparr>streaming_posts := streaming_posts a @ [True]\<rparr>
         | RUNNING \<Rightarrow> a\<lparr>client := ReportStatus tm ''IN_PROGRESS'' (client a)\<rparr>
         | COMPLETED \<Rightarrow> a\<lparr>client := ReportStatus tm ''COMPLETED'' (ReportArrive tm (client a))\<rparr>
         | FAILED \<Rightarrow> a\<lparr>client := ReportStatus tm ''ERROR'' (client a)\<rparr>
         | _ \<Rightarrow> a)"

text \<open>The boolean callbacks only log.\<close>

fun react :: "ac_output \<Rightarrow> agent \<Rightarrow> agent" where
  "react (ToAutoware e) a = a\<lparr>to_autoware := to_autoware a @ [e]\<rparr>"
| "react (TripStateCallback p n st) a = on_trip_state n st a"
| "react (ArrivalCallback k) a = a"
| "react (BoolCallback k ok) a = a"
| "react (StatusCallback k st) a =
     (if k = cb_location
      then a\<lparr>client := ReportLocation (latitude (current_gps st)) (longitude (current_gps st)) (client a)\<rparr>
      else a)"
| "react (EtaCallback k r) a = (if k = cb_query then on_eta_result r a else a)"

section \<open>The machine\<close>

fun with_env :: "autoware_services \<Rightarrow> local_coord option \<Rightarrow> ac_event \<Rightarrow> ac_event" where
  "with_env svc tf (AcQueryEta s g cb _) = AcQueryEta s g cb tf"
| "with_env svc tf (AcTick _ _) = AcTick svc tf"
| "with_env svc tf t = t"

definition run_task ::
  "time_point \<Rightarrow> autoware_services \<Rightarrow> local_coord option \<Rightarrow> agent \<Rightarrow> exn + agent" where
  "run_task now svc tf a =
     (case strand a of
        [] \<Rightarrow> Inr a
      | t # ts \<Rightarrow>
          (case ac_step (now, with_env svc tf t) (ta_controller (trip_mgr a)) of
             Inl e \<Rightarrow> Inl e
           | Inr ctrl \<Rightarrow>
               Inr (fold react (outputs ctrl)
                 (a\<lparr>strand := ts, trip_mgr := (trip_mgr a)\<lparr>ta_controller := ctrl\<lparr>outputs := []\<rparr>\<rparr>\<rparr>))))"

text \<open>
  \<open>AgRead\<close>: the client reads a command. \<open>AgPostTick\<close>, \<open>AgPostMessage\<close>: the timer and the
  subscriptions post a task. \<open>AgRun\<close>: the strand runs its first task. \<open>AgStream\<close>: the other
  steps of the stream. \<open>AgSetHandlers\<close>, \<open>AgSetStateCallback\<close>: \<open>startAutowareApp\<close> goes on.
\<close>

datatype agent_event =
    AgRead gateway_command
  | AgPostTick
  | AgPostMessage ctrl_event
  | AgRun time_point autoware_services "local_coord option"
  | AgStream stream_event
  | AgCluster cluster_msg
  | AgSetHandlers
  | AgSetStateCallback

fun wire_event :: "stream_event \<Rightarrow> bool" where
  "wire_event (SeEnqueue ev) \<longleftrightarrow> False"
| "wire_event (SeRead cmd) \<longleftrightarrow> False"
| "wire_event _ \<longleftrightarrow> True"

definition agent_stream :: "stream_event \<Rightarrow> agent \<Rightarrow> exn + agent" where
  "agent_stream e a =
     (if \<not> wire_event e then Inr a
      else case stream_step e (client a, trip_mgr a) of
             Inl x \<Rightarrow> Inl x
           | Inr (c, tm) \<Rightarrow> Inr (a\<lparr>client := c, trip_mgr := tm\<rparr>))"

fun agent_step :: "agent_event \<Rightarrow> agent \<Rightarrow> exn + agent" where
  "agent_step (AgRead cmd) a = Inr (if stream_phase (client a) = Reading then agent_read cmd a else a)"
| "agent_step AgPostTick a =
     Inr (post_task (AcTick \<lparr>mode_service_ready = False, engage_service_ready = False\<rparr> None) a)"
| "agent_step (AgPostMessage e) a = Inr (if is_message e then post_task (AcMessage e) a else a)"
| "agent_step (AgRun now svc tf) a = run_task now svc tf a"
| "agent_step (AgStream e) a = agent_stream e a"
| "agent_step (AgCluster m) a = Inr (a\<lparr>cluster := cluster_apply m (cluster a)\<rparr>)"
| "agent_step AgSetHandlers a = Inr (a\<lparr>client := set_handlers (client a)\<rparr>)"
| "agent_step AgSetStateCallback a =
     Inr (a\<lparr>trip_mgr := (trip_mgr a)\<lparr>ta_controller := setTripStateCallback True (ta_controller (trip_mgr a))\<rparr>\<rparr>)"

end
