(* ===== verification/AppInvariant.thy ===== *)
theory AppInvariant
  imports AutowareApp
begin

text \<open>
  The invariant of the agent and what its steps add. A task on the strand is a step of the trip
  controller followed by the callbacks that step calls; the callbacks only enqueue events, post
  tasks and record what was sent.
\<close>

section \<open>A task is a step of the trip controller\<close>

fun ctrl_event_of :: "ac_event \<Rightarrow> ctrl_event option" where
  "ctrl_event_of AcInitialize = None"
| "ctrl_event_of (AcQueryEta s g cb tf) = Some (EvQueryEta s g cb tf)"
| "ctrl_event_of (AcStartTrip cb) = Some EvStartTrip"
| "ctrl_event_of (AcMoveCommand cb) = Some EvMoveCommand"
| "ctrl_event_of (AcMove cb) = Some EvMove"
| "ctrl_event_of (AcGoToPickup cb) = Some EvGoToPickup"
| "ctrl_event_of AcCancel = Some EvCancel"
| "ctrl_event_of (AcGetStatus cb) = None"
| "ctrl_event_of (AcTick svc tf) = Some (EvTick svc tf)"
| "ctrl_event_of (AcMessage e) = (if is_message e then Some e else None)"

fun is_bool_callback :: "ac_output \<Rightarrow> bool" where
  "is_bool_callback (BoolCallback k ok) \<longleftrightarrow> True"
| "is_bool_callback _ \<longleftrightarrow> False"

definition relays :: "trip_controller \<Rightarrow> autoware_controller \<Rightarrow> autoware_controller \<Rightarrow> bool" where
  "relays c' a a' \<longleftrightarrow> trip_ctrl a' = Some (c'\<lparr>outbox := []\<rparr>) \<and>
     trip_state_callback a' = trip_state_callback a \<and> arrival_callback a' = arrival_callback a \<and>
     (\<exists>bs. outputs a' = outputs a @ concat (map (relay a) (outbox c')) @ bs \<and> (\<forall>b \<in> set bs. is_bool_callback b))"

lemma relays_absorb [simp]: "relays c' a (absorb c' a)"
  by (simp add: relays_def absorb_def)

lemma relays_reply [simp]: "relays c' a (reply_bool cb ok (absorb c' a))"
  by (auto simp: relays_def absorb_def reply_bool_def split: option.splits)

lemma ac_step_ctrl:
  assumes "trip_ctrl a = Some c" "ctrl_event_of t = Some x" "ac_step (now, t) a = Inr a'"
  shows "\<exists>c'. ctrl_step (now, x) c = Inr c' \<and> relays c' a a'"
  using assms
  by (cases t)
     (auto simp: ac_queryEta_def startTripImpl_def handleMoveCommandImpl_def moveImpl_def goToPickupImpl_def
       cancelTripImpl_def onTickTimer_def onTick_def ac_message_def Let_def split_beta
       split: sum.splits if_splits)

text \<open>The other two tasks, and every task before the controller exists.\<close>

lemma ac_step_other:
  assumes "ctrl_event_of t = None" "t \<noteq> AcInitialize" "ac_step (now, t) a = Inr a'"
  shows "trip_ctrl a' = trip_ctrl a \<and> trip_state_callback a' = trip_state_callback a \<and>
     (\<exists>os. outputs a' = outputs a @ os \<and> (\<forall>b \<in> set os. \<exists>k st. b = StatusCallback k st))"
  using assms
  by (cases t) (auto simp: getTripStatusImpl_def ac_message_def split: option.splits if_splits)

lemma ac_step_none:
  assumes "trip_ctrl a = None" "t \<noteq> AcInitialize" "ac_step (now, t) a = Inr a'"
  shows "trip_ctrl a' = None \<and> trip_state_callback a' = trip_state_callback a \<and>
     (\<exists>os. outputs a' = outputs a @ os \<and>
        (\<forall>b \<in> set os. is_bool_callback b \<or> (\<exists>k st. b = StatusCallback k st) \<or> (\<exists>k. b = EtaCallback k not_initialized)))"
  using assms
  by (cases t)
     (auto simp: ac_queryEta_def startTripImpl_def handleMoveCommandImpl_def moveImpl_def goToPickupImpl_def
       cancelTripImpl_def onTickTimer_def ac_message_def reply_bool_def getTripStatusImpl_def
       split: option.splits if_splits)

text \<open>What is relayed of an effect, seen from the callbacks.\<close>

lemma relay_cases:
  "b \<in> set (relay a e) \<Longrightarrow>
     (\<exists>p n st. e = StateChanged p n st \<and> b = TripStateCallback p n st) \<or> (\<exists>k. b = ArrivalCallback k) \<or>
     (\<exists>k r. e = QueryReply k r \<and> b = EtaCallback k r) \<or> (\<exists>e'. b = ToAutoware e')"
  by (cases e) (auto split: if_splits)

section \<open>The callbacks\<close>

text \<open>The events a callback enqueues, and the tasks it posts.\<close>

fun said :: "agent \<Rightarrow> ac_output \<Rightarrow> vehicle_event list" where
  "said a (TripStateCallback p n st) =
     (let v = vin (client a); i = active_trip_id (trip_mgr a); d = GetArriveData (at_status st (trip_mgr a));
          arrive = ArriveEvent v i (ar_latitude d) (ar_longitude d)
      in case n of
           WAITING_FOR_MOVE \<Rightarrow> [TripInitAck True ''accepted'', arrive, StatusEvent v i ''ARRIVED_AT_PICKUP'']
         | RUNNING \<Rightarrow> [StatusEvent v i ''IN_PROGRESS'']
         | COMPLETED \<Rightarrow> [arrive, StatusEvent v i ''COMPLETED'']
         | FAILED \<Rightarrow> [StatusEvent v i ''ERROR'']
         | _ \<Rightarrow> [])"
| "said a (StatusCallback k st) =
     (if k = cb_location
      then [LocationEvent (vin (client a)) (latitude (current_gps st)) (longitude (current_gps st))] else [])"
| "said a (EtaCallback k r) =
     (if k = cb_query \<and> q_success r
      then [EtaEvent (vin (client a)) (current_request_id (client a))
              (leg_eta_seconds (pickup_leg r) + leg_eta_seconds (trip_leg r))
              (calculate_fare (leg_distance_m (trip_leg r)) (leg_eta_seconds (trip_leg r))) ''COMPLETED'']
      else [])"
| "said a _ = []"

fun posted :: "ac_output \<Rightarrow> ac_event list" where
  "posted (EtaCallback k r) = (if k = cb_query \<and> q_success r then [AcStartTrip (Some cb_start)] else [])"
| "posted _ = []"

fun streamed :: "ac_output \<Rightarrow> bool list" where
  "streamed (TripStateCallback p n st) =
     (if n = WAITING_FOR_MOVE then [False] else if n = DRIVING_TO_PICKUP then [True] else [])"
| "streamed _ = []"

lemmas report_defs =
  ReportEta_def ReportStatus_def ReportArrive_def ReportTripInitAck_def ReportTripCancelAck_def
  ReportOrderUpdateLocationAck_def ReportLocation_def enqueue_def

lemma at_status_id [simp]: "active_trip_id (at_status st tm) = active_trip_id tm"
  by (simp add: at_status_def)

lemma react_eq:
  "react b a = a\<lparr>client := (client a)\<lparr>write_queue := write_queue (client a) @ said a b\<rparr>,
                 strand := strand a @ posted b, streaming_posts := streaming_posts a @ streamed b,
                 to_autoware := to_autoware (react b a)\<rparr>"
proof (cases b)
  case (TripStateCallback p n st)
  then show ?thesis
    by (cases n) (simp_all add: on_trip_state_def report_defs Let_def GetActiveTripId_def GetArriveData_def)
next
  case (EtaCallback k r)
  then show ?thesis
    by (simp add: on_eta_result_def report_defs Let_def post_task_def GetEta_def)
qed (simp_all add: report_defs)

lemma react_fields:
  "trip_mgr (react b a) = trip_mgr a" "cluster (react b a) = cluster a"
  "strand (react b a) = strand a @ posted b" "streaming_posts (react b a) = streaming_posts a @ streamed b"
  "client (react b a) = (client a)\<lparr>write_queue := write_queue (client a) @ said a b\<rparr>"
  by (subst react_eq; simp)+

lemma said_same:
  "trip_mgr a' = trip_mgr a \<Longrightarrow> vin (client a') = vin (client a) \<Longrightarrow>
     current_request_id (client a') = current_request_id (client a) \<Longrightarrow> said a' b = said a b"
  by (cases b) simp_all

lemma fold_react:
  "trip_mgr (fold react bs a) = trip_mgr a \<and> cluster (fold react bs a) = cluster a \<and>
   strand (fold react bs a) = strand a @ concat (map posted bs) \<and>
   streaming_posts (fold react bs a) = streaming_posts a @ concat (map streamed bs) \<and>
   client (fold react bs a) = (client a)\<lparr>write_queue := write_queue (client a) @ concat (map (said a) bs)\<rparr>"
proof (induction bs arbitrary: a)
  case (Cons b bs)
  have same: "said (react b a) = said a" by (rule ext, rule said_same) (simp_all add: react_fields)
  show ?case using Cons.IH [of "react b a"] by (simp add: react_fields same)
qed simp

lemma bool_callback_silent [simp]: "is_bool_callback b \<Longrightarrow> said a b = []" "is_bool_callback b \<Longrightarrow> posted b = []"
    "is_bool_callback b \<Longrightarrow> streamed b = []"
  by (cases b; simp)+

section \<open>The invariant\<close>

abbreviation agent_ctrl :: "agent \<Rightarrow> autoware_controller" where
  "agent_ctrl a \<equiv> ta_controller (trip_mgr a)"

definition agent_inv :: "agent \<Rightarrow> bool" where
  "agent_inv a \<longleftrightarrow> ac_inv (agent_ctrl a) \<and> outputs (agent_ctrl a) = [] \<and>
     (\<forall>c. trip_ctrl (agent_ctrl a) = Some c \<longrightarrow> on_state_change c) \<and> stream_inv (client a, trip_mgr a)"

definition agent_init :: "agent \<Rightarrow> bool" where
  "agent_init a \<longleftrightarrow> (\<exists>ctrl. ac_init ctrl \<and> a = start_app ctrl)"

abbreviation agent_reachable :: "agent \<Rightarrow> bool" where
  "agent_reachable \<equiv> reachable agent_step agent_init"

text \<open>The agent when a task has returned and before its callbacks are run.\<close>

definition task_done :: "ac_event list \<Rightarrow> autoware_controller \<Rightarrow> agent \<Rightarrow> agent" where
  "task_done ts ctrl a = a\<lparr>strand := ts, trip_mgr := (trip_mgr a)\<lparr>ta_controller := ctrl\<lparr>outputs := []\<rparr>\<rparr>\<rparr>"

lemma task_done_fields [simp]:
  "strand (task_done ts ctrl a) = ts" "client (task_done ts ctrl a) = client a"
  "streaming_posts (task_done ts ctrl a) = streaming_posts a" "cluster (task_done ts ctrl a) = cluster a"
  "agent_ctrl (task_done ts ctrl a) = ctrl\<lparr>outputs := []\<rparr>"
  "active_trip_id (trip_mgr (task_done ts ctrl a)) = active_trip_id (trip_mgr a)"
  by (simp_all add: task_done_def)

lemma run_task_ok:
  assumes "strand a = t # ts" "run_task now svc tf a = Inr a'"
  obtains ctrl where "ac_step (now, with_env svc tf t) (agent_ctrl a) = Inr ctrl"
    "a' = fold react (outputs ctrl) (task_done ts ctrl a)"
  using assms that by (auto simp: run_task_def task_done_def split: sum.splits)

text \<open>What the callbacks of a task leave behind.\<close>

lemma run_task_effect:
  assumes "strand a = t # ts" "run_task now svc tf a = Inr a'"
  obtains ctrl where "ac_step (now, with_env svc tf t) (agent_ctrl a) = Inr ctrl"
    "trip_mgr a' = trip_mgr (task_done ts ctrl a)" "strand a' = ts @ concat (map posted (outputs ctrl))"
    "streaming_posts a' = streaming_posts a @ concat (map streamed (outputs ctrl))"
    "client a' = (client a)\<lparr>write_queue := write_queue (client a) @ concat (map (said (task_done ts ctrl a)) (outputs ctrl))\<rparr>"
proof (rule run_task_ok [OF assms])
  fix ctrl
  assume "ac_step (now, with_env svc tf t) (agent_ctrl a) = Inr ctrl"
    "a' = fold react (outputs ctrl) (task_done ts ctrl a)"
  with that fold_react [of "outputs ctrl" "task_done ts ctrl a"] show thesis by simp
qed

lemma on_state_change_outbox [simp]: "on_state_change (c\<lparr>outbox := es\<rparr>) = on_state_change c"
  by simp

lemma ac_step_observed:
  assumes "\<forall>c. trip_ctrl a = Some c \<longrightarrow> on_state_change c" "ac_step (now, t) a = Inr a'" "trip_ctrl a' = Some c'"
  shows "on_state_change c'"
proof (cases "t = AcInitialize")
  case True
  with assms(2,3) show ?thesis
    by (auto simp: initialize_def absorb_def Let_def initializeInMap_def setArrivalCallbacks_def setStateChangeCallback_def
        split: option.splits)
next
  case False
  show ?thesis
  proof (cases "trip_ctrl a")
    case None
    with ac_step_none [OF None False assms(2)] assms(3) show ?thesis by simp
  next
    case (Some c)
    show ?thesis
    proof (cases "ctrl_event_of t")
      case None
      with ac_step_other [OF None False assms(2)] assms(1,3) show ?thesis by simp
    next
      case (Some x)
      with ac_step_ctrl [OF \<open>trip_ctrl a = Some c\<close> Some assms(2)] obtain c2 where
        "ctrl_step (now, x) c = Inr c2" "relays c2 a a'" by blast
      with on_state_change_step assms(1,3) \<open>trip_ctrl a = Some c\<close> show ?thesis by (auto simp: relays_def)
    qed
  qed
qed

lemma run_task_inv:
  assumes "agent_inv a"
  shows "\<exists>a'. run_task now svc tf a = Inr a' \<and> agent_inv a'"
proof (cases "strand a")
  case Nil
  with assms show ?thesis by (simp add: run_task_def)
next
  case (Cons t ts)
  have inv: "ac_inv (agent_ctrl a)" using assms by (simp add: agent_inv_def)
  obtain ctrl where ctrl: "ac_step (now, with_env svc tf t) (agent_ctrl a) = Inr ctrl" "ac_inv ctrl"
    using ac.step_inv [OF inv] by blast
  have obs: "\<forall>c. trip_ctrl ctrl = Some c \<longrightarrow> on_state_change c"
  proof (intro allI impI)
    show "on_state_change c" if "trip_ctrl ctrl = Some c" for c
      by (rule ac_step_observed [OF _ ctrl(1) that]) (use assms in \<open>simp add: agent_inv_def\<close>)
  qed
  obtain a' where a': "run_task now svc tf a = Inr a'" using Cons ctrl(1) by (simp add: run_task_def)
  obtain ctrl' where c': "ac_step (now, with_env svc tf t) (agent_ctrl a) = Inr ctrl'"
    and tm: "trip_mgr a' = trip_mgr (task_done ts ctrl' a)"
    and cl: "client a' = (client a)\<lparr>write_queue := write_queue (client a) @ concat (map (said (task_done ts ctrl' a)) (outputs ctrl'))\<rparr>"
    by (rule run_task_effect [OF Cons a'])
  have "ctrl' = ctrl" using trans [OF c' [symmetric] ctrl(1)] by (rule sum.inject(2) [THEN iffD1])
  then have "agent_ctrl a' = ctrl\<lparr>outputs := []\<rparr>" using tm by simp
  moreover have "stream_phase (client a') = stream_phase (client a)" "writing (client a') = writing (client a)"
    using cl by simp_all
  ultimately have "agent_inv a'" using assms ctrl(2) obs by (simp add: agent_inv_def stream_inv_def)
  with a' show ?thesis by blast
qed

lemma post_task_inv [simp]: "agent_inv (post_task t a) = agent_inv a"
  by (simp add: post_task_def agent_inv_def)

lemma agent_inv_queue [simp]:
  "agent_inv (a\<lparr>client := enqueue ev (client a)\<rparr>) = agent_inv a"
  by (simp add: agent_inv_def stream_inv_def enqueue_def)

lemma call_handler_inv [simp]: "agent_inv (call_handler h a) = agent_inv a"
proof (cases h)
  case (OnTripCancel r)
  then show ?thesis
    by (simp add: on_trip_cancel_def agent_inv_def stream_inv_def report_defs post_task_def Let_def)
qed (simp_all add: on_trip_init_def on_trip_move_def on_order_update_location_def Let_def
      ReportOrderUpdateLocationAck_def)

lemma agent_read_inv:
  assumes "agent_inv a"
  shows "agent_inv (agent_read cmd a)"
proof -
  obtain h c tm where r: "read_command cmd (client a, trip_mgr a) = (h, c, tm)" by (cases "read_command cmd (client a, trip_mgr a)") auto
  have "ta_controller tm = agent_ctrl a" "stream_phase c = stream_phase (client a)" "writing c = writing (client a)"
    using read_command_frame(9,1,2) [of cmd "(client a, trip_mgr a)"] by (simp_all add: r)
  then have "agent_inv (a\<lparr>client := c, trip_mgr := tm\<rparr>)" using assms by (simp add: agent_inv_def stream_inv_def)
  then show ?thesis by (simp add: agent_read_def r Let_def split: option.splits)
qed

lemma stream_step_ctrl: "stream_step e s = Inr s' \<Longrightarrow> ta_controller (snd s') = ta_controller (snd s)"
  by (cases s; cases e) (auto split: if_splits)

lemma agent_step_inv:
  assumes "agent_inv a"
  shows "\<exists>a'. agent_step e a = Inr a' \<and> agent_inv a'"
proof (cases e)
  case (AgRead cmd)
  with agent_read_inv [OF assms] assms show ?thesis by simp
next
  case (AgRun now svc tf)
  with run_task_inv [OF assms] show ?thesis by simp
next
  case (AgStream se)
  obtain c tm where s: "stream_step se (client a, trip_mgr a) = Inr (c, tm)"
    using stream_step_total by (metis surj_pair)
  have "agent_inv (a\<lparr>client := c, trip_mgr := tm\<rparr>)"
    using assms stream_step_ctrl [OF s] stream_step_inv [OF _ s] by (simp add: agent_inv_def stream_inv_def)
  with AgStream s assms show ?thesis by (simp add: agent_stream_def)
qed (use assms in \<open>simp_all add: agent_inv_def stream_inv_def set_handlers_def setTripStateCallback_def ac_inv_def
      post_task_def\<close>)

interpretation app: strand_machine agent_step agent_init agent_inv
proof unfold_locales
  show "agent_init a \<Longrightarrow> agent_inv a" for a
    using ac.init_inv
    by (auto simp: agent_init_def agent_inv_def start_app_def stream_inv_def new_stream_client_def ac_init_def
        new_AutowareController_def)
  show "agent_inv a \<Longrightarrow> \<exists>a'. agent_step e a = Inr a' \<and> agent_inv a'" for a e
    by (rule agent_step_inv)
qed

end
