(* ===== verification/AppReports.thy ===== *)
theory AppReports
  imports AppInvariant TripEffects
begin

text \<open>
  What the gateway hears: how the reports of a task follow from the effects of the trip
  controller's step, and how often an estimated arrival can be reported.
\<close>

section \<open>From effects to reports\<close>

definition status_report :: "trip_state \<Rightarrow> string option" where
  "status_report s =
     (case s of
        WAITING_FOR_MOVE \<Rightarrow> Some ''ARRIVED_AT_PICKUP''
      | RUNNING \<Rightarrow> Some ''IN_PROGRESS''
      | COMPLETED \<Rightarrow> Some ''COMPLETED''
      | FAILED \<Rightarrow> Some ''ERROR''
      | _ \<Rightarrow> None)"

text \<open>The status reports of a callback.\<close>

lemma said_status:
  "StatusEvent v i n \<in> set (said a b) \<Longrightarrow> \<exists>p s st. b = TripStateCallback p s st \<and> status_report s = Some n"
  by (cases b) (auto simp: status_report_def Let_def split: trip_state.splits if_splits)

lemma said_report:
  "status_report s = Some n \<Longrightarrow>
     StatusEvent (vin (client a)) (active_trip_id (trip_mgr a)) n \<in> set (said a (TripStateCallback p s st))"
  by (auto simp: status_report_def Let_def split: trip_state.splits)

lemma ac_inv_outbox: "agent_inv a \<Longrightarrow> trip_ctrl (agent_ctrl a) = Some c \<Longrightarrow> outbox c = [] \<and> ctrl_inv c \<and> on_state_change c"
  by (simp add: agent_inv_def ac_inv_def)

text \<open>A task on an existing controller, as a step of that controller.\<close>

lemma run_task_ctrl:
  assumes "agent_inv a" "trip_ctrl (agent_ctrl a) = Some c" "strand a = t # ts"
    "ctrl_event_of (with_env svc tf t) = Some x" "run_task now svc tf a = Inr a'"
  obtains c2 bs ctrl where "ctrl_step (now, x) c = Inr c2" "trip_ctrl (agent_ctrl a') = Some (c2\<lparr>outbox := []\<rparr>)"
    "outputs ctrl = concat (map (relay (agent_ctrl a)) (outbox c2)) @ bs" "\<forall>b \<in> set bs. is_bool_callback b"
    "write_queue (client a') = write_queue (client a) @ concat (map (said (task_done ts ctrl a)) (outputs ctrl))"
    "strand a' = ts @ concat (map posted (outputs ctrl))"
    "streaming_posts a' = streaming_posts a @ concat (map streamed (outputs ctrl))"
    "trip_mgr a' = trip_mgr (task_done ts ctrl a)"
    "client a' = (client a)\<lparr>write_queue := write_queue (client a')\<rparr>"
proof (rule run_task_effect [OF assms(3,5)])
  fix ctrl
  assume step: "ac_step (now, with_env svc tf t) (agent_ctrl a) = Inr ctrl"
    and tm: "trip_mgr a' = trip_mgr (task_done ts ctrl a)"
    and rest: "strand a' = ts @ concat (map posted (outputs ctrl))"
      "streaming_posts a' = streaming_posts a @ concat (map streamed (outputs ctrl))"
    and cl: "client a' = (client a)\<lparr>write_queue := write_queue (client a) @ concat (map (said (task_done ts ctrl a)) (outputs ctrl))\<rparr>"
  obtain c2 where c2: "ctrl_step (now, x) c = Inr c2" "relays c2 (agent_ctrl a) ctrl"
    using ac_step_ctrl [OF assms(2,4) step] by blast
  then obtain bs where "outputs ctrl = concat (map (relay (agent_ctrl a)) (outbox c2)) @ bs"
      "\<forall>b \<in> set bs. is_bool_callback b" "trip_ctrl ctrl = Some (c2\<lparr>outbox := []\<rparr>)"
    using assms(1) by (auto simp: relays_def agent_inv_def)
  with c2(1) tm rest cl show thesis by (intro that) simp_all
qed

lemma run_task_quiet:
  assumes "strand a = t # ts" "ctrl_event_of (with_env svc tf t) = None" "t \<noteq> AcInitialize"
    "agent_inv a" "run_task now svc tf a = Inr a'"
  obtains ctrl where "trip_ctrl (agent_ctrl a') = trip_ctrl (agent_ctrl a)"
    "\<forall>b \<in> set (outputs ctrl). \<exists>k st. b = StatusCallback k st"
    "write_queue (client a') = write_queue (client a) @ concat (map (said (task_done ts ctrl a)) (outputs ctrl))"
    "strand a' = ts @ concat (map posted (outputs ctrl))"
proof (rule run_task_effect [OF assms(1,5)])
  fix ctrl
  assume step: "ac_step (now, with_env svc tf t) (agent_ctrl a) = Inr ctrl"
    and tm: "trip_mgr a' = trip_mgr (task_done ts ctrl a)"
    and st: "strand a' = ts @ concat (map posted (outputs ctrl))"
    and cl: "client a' = (client a)\<lparr>write_queue := write_queue (client a) @ concat (map (said (task_done ts ctrl a)) (outputs ctrl))\<rparr>"
  have "with_env svc tf t \<noteq> AcInitialize" using assms(3) by (cases t) simp_all
  from ac_step_other [OF assms(2) this step] assms(4)
  have "trip_ctrl ctrl = trip_ctrl (agent_ctrl a)" "\<forall>b \<in> set (outputs ctrl). \<exists>k st. b = StatusCallback k st"
    by (auto simp: agent_inv_def)
  with tm st cl show thesis by (intro that) simp_all
qed

text \<open>The status reports of a task are the one for the state it ends in.\<close>

lemma task_reports:
  assumes "agent_inv a" "trip_ctrl (agent_ctrl a) = Some c" "trip_state_callback (agent_ctrl a)"
    "strand a = t # ts" "t \<noteq> AcInitialize" "run_task now svc tf a = Inr a'" "trip_ctrl (agent_ctrl a') = Some c'"
  obtains new where "write_queue (client a') = write_queue (client a) @ new"
    "\<And>n. state_of c' \<noteq> state_of c \<Longrightarrow> status_report (state_of c') = Some n \<Longrightarrow>
       StatusEvent (vin (client a)) (active_trip_id (trip_mgr a)) n \<in> set new"
    "\<And>v i n. StatusEvent v i n \<in> set new \<Longrightarrow> status_report (state_of c') = Some n"
proof (cases "ctrl_event_of (with_env svc tf t)")
  case None
  show thesis
  proof (rule run_task_quiet [OF assms(4) None assms(5,1,6)])
    fix ctrl
    assume q: "trip_ctrl (agent_ctrl a') = trip_ctrl (agent_ctrl a)" "\<forall>b \<in> set (outputs ctrl). \<exists>k st. b = StatusCallback k st"
      "write_queue (client a') = write_queue (client a) @ concat (map (said (task_done ts ctrl a)) (outputs ctrl))"
    have "c' = c" using q(1) assms(2,7) by simp
    moreover have False if "StatusEvent v i n \<in> set (concat (map (said (task_done ts ctrl a)) (outputs ctrl)))" for v i n
      using that q(2) said_status by fastforce
    ultimately show thesis using that [OF q(3)] by blast
  qed
next
  case (Some x)
  show thesis
  proof (rule run_task_ctrl [OF assms(1,2,4) Some assms(6)])
    fix c2 bs ctrl
    assume r: "ctrl_step (now, x) c = Inr c2" "trip_ctrl (agent_ctrl a') = Some (c2\<lparr>outbox := []\<rparr>)"
      "outputs ctrl = concat (map (relay (agent_ctrl a)) (outbox c2)) @ bs" "\<forall>b \<in> set bs. is_bool_callback b"
      "write_queue (client a') = write_queue (client a) @ concat (map (said (task_done ts ctrl a)) (outputs ctrl))"
    let ?A = "task_done ts ctrl a" and ?new = "concat (map (said (task_done ts ctrl a)) (outputs ctrl))"
    have c': "c' = c2\<lparr>outbox := []\<rparr>" using r(2) assms(7) by simp
    note inv = ac_inv_outbox [OF assms(1,2)]
    obtain es where es: "outbox c2 = es" "\<forall>e \<in> set es. justified (now, x) c c2 e"
      using step_effects [of c now x c2] inv r(1) by (auto simp: adds_def)
    show thesis
    proof (rule that [OF r(5)])
      fix n
      assume n: "state_of c' \<noteq> state_of c" "status_report (state_of c') = Some n"
      then have "state_of c2 \<noteq> IDLE" using c' by (auto simp: status_report_def)
      then have "reports (state_of c2) c c2"
        using told_step [OF r(1)] inv n(1) c' by (simp add: told_def)
      then obtain p st where sc: "StateChanged p (state_of c2) st \<in> set (outbox c2)"
        using inv by (auto simp: reports_def)
      then have "TripStateCallback p (state_of c2) st \<in> set (outputs ctrl)"
        using assms(3) r(3) by force
      moreover have "StatusEvent (vin (client a)) (active_trip_id (trip_mgr a)) n \<in> set (said ?A (TripStateCallback p (state_of c2) st))"
        using said_report [of "state_of c2" n ?A p st] n(2) c' by simp
      ultimately show "StatusEvent (vin (client a)) (active_trip_id (trip_mgr a)) n \<in> set ?new"
        by (auto simp del: said.simps)
    next
      fix v i n
      assume "StatusEvent v i n \<in> set ?new"
      then obtain b where b: "b \<in> set (outputs ctrl)" "StatusEvent v i n \<in> set (said ?A b)" by auto
      then obtain p s st where s: "b = TripStateCallback p s st" "status_report s = Some n"
        using said_status by blast
      with b(1) r(3,4) obtain e where "e \<in> set (outbox c2)" "b \<in> set (relay (agent_ctrl a) e)" by fastforce
      then have "StateChanged p s st \<in> set (outbox c2)" using relay_cases [of b "agent_ctrl a" e] s(1) by auto
      then have "s = state_of c2" using es by fastforce
      with s(2) c' show "status_report (state_of c') = Some n" by simp
    qed
  qed
qed

section \<open>Counting the reported arrivals\<close>

fun is_eta :: "vehicle_event \<Rightarrow> bool" where
  "is_eta (EtaEvent v i t f s) \<longleftrightarrow> True"
| "is_eta _ \<longleftrightarrow> False"

fun is_query :: "ac_event \<Rightarrow> bool" where
  "is_query (AcQueryEta s g cb tf) \<longleftrightarrow> cb = Some cb_query"
| "is_query _ \<longleftrightarrow> False"

definition etas :: "agent \<Rightarrow> nat" where
  "etas a = length (filter is_eta (held (client a)))"

definition queries :: "agent \<Rightarrow> nat" where
  "queries a = length (filter is_query (strand a))"

definition owing :: "autoware_controller \<Rightarrow> nat" where
  "owing ac = (case trip_ctrl ac of None \<Rightarrow> 0 | Some c \<Rightarrow> owed cb_query c)"

text \<open>The arrivals reported, and those that still can be.\<close>

definition claims :: "agent \<Rightarrow> nat" where
  "claims a = etas a + queries a + owing (agent_ctrl a)"

fun is_init :: "agent_event \<Rightarrow> bool" where
  "is_init (AgRead (TripInit r)) \<longleftrightarrow> True"
| "is_init _ \<longleftrightarrow> False"

definition inits :: "agent_event list \<Rightarrow> nat" where
  "inits es = length (filter is_init es)"

lemma posted_no_query [simp]: "filter is_query (posted b) = []"
  by (cases b) simp_all

lemma concat_posted_no_query: "filter is_query (concat (map posted bs)) = []"
  by (induction bs) simp_all

fun answers_query :: "ac_output \<Rightarrow> bool" where
  "answers_query (EtaCallback k r) \<longleftrightarrow> k = cb_query \<and> q_success r"
| "answers_query _ \<longleftrightarrow> False"

lemma said_eta: "length (filter is_eta (said a b)) = (if answers_query b then 1 else 0)"
  by (cases b) (auto simp: Let_def split: trip_state.splits)

lemma concat_said_eta: "length (filter is_eta (concat (map (said a) bs))) = length (filter answers_query bs)"
  by (induction bs) (simp_all add: said_eta)

lemma relay_answers: "length (filter answers_query (relay a e)) \<le> (if answers cb_query e then 1 else 0)"
  by (cases e) auto

lemma concat_relay_answers:
  "length (filter answers_query (concat (map (relay a) es))) \<le> length (filter (answers cb_query) es)"
proof (induction es)
  case (Cons e es)
  then show ?case using relay_answers [of a e] by (auto split: if_splits)
qed simp

lemma bool_no_answers: "\<forall>b \<in> set bs. is_bool_callback b \<Longrightarrow> filter answers_query bs = []"
  by (induction bs) (auto elim: is_bool_callback.elims)

text \<open>What a task adds: at most the query it brings in, less the answers it gives.\<close>

lemma ac_step_owing:
  assumes "ac_inv a" "outputs a = []" "t \<noteq> AcInitialize" "ac_step (now, t) a = Inr a'"
  shows "length (filter answers_query (outputs a')) + owing a' \<le> owing a + (if is_query t then 1 else 0)"
proof (cases "trip_ctrl a")
  case None
  from ac_step_none [OF None assms(3,4)] obtain os where os: "trip_ctrl a' = None" "outputs a' = os"
      "\<forall>b \<in> set os. is_bool_callback b \<or> (\<exists>k st. b = StatusCallback k st) \<or> (\<exists>k. b = EtaCallback k not_initialized)"
    using assms(2) by auto
  have "\<not> answers_query b" if "b \<in> set os" for b
    using bspec [OF os(3) that] by (cases b) (auto simp: not_initialized_def)
  then have "filter answers_query os = []" by (simp add: filter_empty_conv)
  with os(1,2) show ?thesis by (simp add: owing_def)
next
  case (Some c)
  show ?thesis
  proof (cases "ctrl_event_of t")
    case None
    from ac_step_other [OF None assms(3,4)] obtain os where os: "trip_ctrl a' = trip_ctrl a" "outputs a' = os"
        "\<forall>b \<in> set os. \<exists>k st. b = StatusCallback k st"
      using assms(2) by auto
    then have "filter answers_query os = []" by (auto simp: filter_empty_conv)
    with os(1,2) show ?thesis by (simp add: owing_def)
  next
    case (Some x)
    obtain c2 where c2: "ctrl_step (now, x) c = Inr c2" "relays c2 a a'"
      using ac_step_ctrl [OF \<open>trip_ctrl a = Some c\<close> Some assms(4)] by blast
    then obtain bs where bs: "outputs a' = concat (map (relay a) (outbox c2)) @ bs"
        "\<forall>b \<in> set bs. is_bool_callback b" "trip_ctrl a' = Some (c2\<lparr>outbox := []\<rparr>)"
      using assms(2) by (auto simp: relays_def)
    have "submits cb_query (now, x) = (if is_query t then 1 else 0)"
      using Some by (cases t; cases x) (auto split: if_splits)
    moreover have "ctrl_inv c" using assms(1) \<open>trip_ctrl a = Some c\<close> by (simp add: ac_inv_def)
    ultimately have "owed cb_query c2 \<le> owed cb_query c + (if is_query t then 1 else 0)"
      using owed_step_le [OF _ c2(1), of cb_query] by simp
    moreover have "length (filter answers_query (outputs a')) + owing a' \<le> owed cb_query c2"
      using concat_relay_answers [of a "outbox c2"] bool_no_answers [OF bs(2)]
      by (simp add: bs(1,3) owing_def owed_def replies_def)
    ultimately show ?thesis using \<open>trip_ctrl a = Some c\<close> by (simp add: owing_def)
  qed
qed

lemma initialize_owing: "owing (initialize now a) = 0" "filter answers_query (outputs (initialize now a)) = filter answers_query (outputs a)"
proof -
  have "outbox (initializeInMap now c) = outbox c \<or> (\<exists>p cov st. outbox (initializeInMap now c) = outbox c @ [InitialPose p cov] @ st \<and>
      (\<forall>e \<in> set st. \<exists>p n s. e = StateChanged p n s))" for c
    by (auto simp: initializeInMap_def Let_def transitionTo_outbox publish_defs split: option.splits)
  note ob = this
  let ?c = "setArrivalCallbacks True True (setStateChangeCallback True (new_TripController (lanelet_map_ptr a) default_timings))"
  have o: "outbox ?c = []" "query_cb ?c = None"
    by (simp_all add: setArrivalCallbacks_def setStateChangeCallback_def new_TripController_def)
  have "query_cb (initializeInMap now ?c) = None"
    using o(2) by (auto simp: initializeInMap_def Let_def publish_defs split: option.splits)
  then show "owing (initialize now a) = 0"
    by (simp add: initialize_def absorb_def owing_def owed_def replies_def Let_def)
  have "\<forall>e \<in> set (outbox (initializeInMap now ?c)). \<not> answers cb_query e"
    using ob [of ?c] o(1) by fastforce
  then have "length (filter answers_query (concat (map (relay a) (outbox (initializeInMap now ?c))))) = 0"
    using concat_relay_answers [of a "outbox (initializeInMap now ?c)"] by (simp add: filter_empty_conv)
  then show "filter answers_query (outputs (initialize now a)) = filter answers_query (outputs a)"
    by (simp add: initialize_def absorb_def Let_def)
qed

lemma etas_queue:
  "etas (a\<lparr>client := (client a)\<lparr>write_queue := write_queue (client a) @ evs\<rparr>\<rparr>) = etas a + length (filter is_eta evs)"
  by (simp add: etas_def held_def)

lemma run_task_claims:
  assumes "agent_inv a" "run_task now svc tf a = Inr a'"
  shows "claims a' \<le> claims a"
proof (cases "strand a")
  case Nil
  with assms(2) show ?thesis by (simp add: run_task_def)
next
  case (Cons t ts)
  show ?thesis
  proof (rule run_task_effect [OF Cons assms(2)])
    fix ctrl
    assume step: "ac_step (now, with_env svc tf t) (agent_ctrl a) = Inr ctrl"
      and tm: "trip_mgr a' = trip_mgr (task_done ts ctrl a)"
      and st: "strand a' = ts @ concat (map posted (outputs ctrl))"
      and cl: "client a' = (client a)\<lparr>write_queue := write_queue (client a) @ concat (map (said (task_done ts ctrl a)) (outputs ctrl))\<rparr>"
    have "etas a' = etas a + length (filter answers_query (outputs ctrl))"
      using etas_queue [of a] by (simp add: etas_def cl concat_said_eta)
    moreover have "queries a' + (if is_query t then 1 else 0) = queries a"
      by (simp add: queries_def st Cons concat_posted_no_query)
    moreover have "owing (agent_ctrl a') = owing ctrl" by (simp add: tm owing_def)
    moreover have "length (filter answers_query (outputs ctrl)) + owing ctrl \<le> owing (agent_ctrl a) + (if is_query t then 1 else 0)"
    proof (cases "t = AcInitialize")
      case True
      with step assms(1) initialize_owing [of now "agent_ctrl a"] show ?thesis by (auto simp: agent_inv_def)
    next
      case False
      then have "with_env svc tf t \<noteq> AcInitialize" "is_query (with_env svc tf t) = is_query t" by (cases t; simp)+
      with ac_step_owing [OF _ _ _ step] assms(1) show ?thesis by (simp add: agent_inv_def)
    qed
    ultimately show ?thesis by (simp add: claims_def)
  qed
qed

lemma call_handler_claims: "claims (call_handler h a) \<le> claims a + (case h of OnTripInit r \<Rightarrow> 1 | _ \<Rightarrow> 0)"
  by (cases h)
     (simp_all add: claims_def etas_def queries_def held_def on_trip_init_def on_trip_move_def
       on_order_update_location_def on_trip_cancel_def post_task_def report_defs Let_def)

lemma agent_read_claims:
  "claims (agent_read cmd a) \<le> claims a + (if is_init (AgRead cmd) then 1 else 0)"
proof -
  obtain h c tm where r: "read_command cmd (client a, trip_mgr a) = (h, c, tm)"
    by (cases "read_command cmd (client a, trip_mgr a)") auto
  have "held c = held (client a)" using held_read [of cmd "(client a, trip_mgr a)"] r by simp
  moreover have "ta_controller tm = agent_ctrl a"
    using read_command_frame(9) [of cmd "(client a, trip_mgr a)"] r by simp
  ultimately have same: "claims (a\<lparr>client := c, trip_mgr := tm\<rparr>) = claims a"
    by (simp add: claims_def etas_def queries_def)
  show ?thesis
  proof (cases h)
    case None
    with r same show ?thesis by (simp add: agent_read_def Let_def)
  next
    case (Some call)
    then have "handler_of cmd = Some call" using r by (auto simp: read_command_def Let_def split: if_splits)
    then have "(case call of OnTripInit x \<Rightarrow> 1 | _ \<Rightarrow> (0 :: nat)) = (if is_init (AgRead cmd) then 1 else 0)"
      by (cases cmd) auto
    with Some r same call_handler_claims [of call "a\<lparr>client := c, trip_mgr := tm\<rparr>"] show ?thesis
      by (simp add: agent_read_def Let_def)
  qed
qed

lemma agent_stream_claims:
  assumes "agent_stream e a = Inr a'"
  shows "claims a' = claims a"
proof (cases "wire_event e")
  case True
  with assms obtain c tm where s: "stream_step e (client a, trip_mgr a) = Inr (c, tm)"
    "a' = a\<lparr>client := c, trip_mgr := tm\<rparr>" by (auto simp: agent_stream_def split: sum.splits)
  have "held c = held (client a) @ enqueued [e]" using held_step [OF s(1)] by simp
  moreover have "enqueued [e] = []" using True by (cases e) simp_all
  moreover have "ta_controller tm = agent_ctrl a" using stream_step_ctrl [OF s(1)] by simp
  ultimately show ?thesis by (simp add: s(2) claims_def etas_def queries_def)
qed (use assms in \<open>simp add: agent_stream_def\<close>)

lemma agent_step_claims:
  assumes "agent_inv a" "agent_step e a = Inr a'"
  shows "claims a' \<le> claims a + (if is_init e then 1 else 0)"
proof (cases e)
  case (AgRead cmd)
  with assms(2) agent_read_claims [of cmd a] show ?thesis by (auto split: if_splits)
next
  case (AgRun now svc tf)
  with assms run_task_claims show ?thesis by simp
next
  case (AgStream se)
  with assms(2) agent_stream_claims [of se a a'] show ?thesis by simp
qed (use assms(2) in \<open>auto simp: claims_def etas_def queries_def owing_def held_def post_task_def set_handlers_def
      setTripStateCallback_def split: if_splits\<close>)

lemma agent_run_claims:
  "agent_inv a \<Longrightarrow> run agent_step es a = Inr a' \<Longrightarrow> claims a' \<le> claims a + inits es"
proof (induction es arbitrary: a)
  case (Cons e es)
  then obtain b where b: "agent_step e a = Inr b" "run agent_step es b = Inr a'" by (auto split: sum.splits)
  show ?case
    using Cons.IH [OF app.step_Inr [OF Cons.prems(1) b(1)] b(2)] agent_step_claims [OF Cons.prems(1) b(1)]
    by (auto simp: inits_def split: if_splits)
qed (simp add: inits_def)

end
