(* ===== verification/AppProperties.thy ===== *)
theory AppProperties
  imports AppReports TripJourney
begin

text \<open>
  Properties of the agent: what it does with the gateway's commands, and what the gateway is told.
  Each witness is an agent on the example map whose client is reading.
\<close>

section \<open>Helpers\<close>

lemma queryEta_busy:
  "state_of c \<noteq> IDLE \<Longrightarrow> \<exists>msg. queryEta now tf s g cb c = Inr (False, reply_now cb (rejected_query msg) c)"
  by (auto simp: queryEta_def)

lemma cancel_only_poses: "\<exists>es. outbox (cancel now c) = outbox c @ es \<and> (\<forall>e \<in> set es. \<exists>p cov. e = InitialPose p cov)"
  by (auto simp: cancel_def Let_def transitionTo_outbox doPublishInitialPose_def emit_def split: option.splits)

text \<open>The tick that ends the quote of the trip leg.\<close>

lemma finish_quote_tick:
  assumes "state_of c = QUERY_READING_ETA" "current_leg c = TRIP" "eta_received c" "query_cb c = Some k"
    "on_state_change c" "onTick svc tf now c = Inr c2"
  shows "state_of c2 = ROUTES_READY \<and>
    (\<exists>r p st. outbox c2 = outbox c @ [QueryReply k r, StateChanged p ROUTES_READY st] \<and> q_success r \<and>
       pickup_leg r = pickup_leg (query_result c) \<and> leg_distance_m (trip_leg r) = eta_distance_m c \<and>
       leg_eta_seconds (trip_leg r) = eta_seconds c)"
  using assms
  by (auto simp: onTick_def setCurrentGps_def tick_def tick_query_eta_def finishQueryLeg_def finish_trip_leg_def
      reply_query_def emit_def transitionTo_def current_leg_eta_def default_status_def Let_def
      split: option.splits)

definition demo_agent :: "trip_controller \<Rightarrow> ac_event list \<Rightarrow> agent" where
  "demo_agent c ts =
     \<lparr>trip_mgr =
        \<lparr>ta_controller =
           \<lparr>lanelet_map_ptr = demo_map, trip_ctrl = Some (c\<lparr>outbox := []\<rparr>), trip_state_callback = True,
            arrival_callback = False, outputs = []\<rparr>,
         active_trip_id = 7\<rparr>,
      client = (new_stream_client ''V1'' 7)\<lparr>stream_phase := Reading, handlers_set := True\<rparr>,
      cluster = new_frame_state, strand = ts, streaming_posts = [], to_autoware = []\<rparr>"

lemma demo_agent_fields [simp]:
  "trip_ctrl (agent_ctrl (demo_agent c ts)) = Some (c\<lparr>outbox := []\<rparr>)" "strand (demo_agent c ts) = ts"
  "trip_state_callback (agent_ctrl (demo_agent c ts))" "stream_phase (client (demo_agent c ts)) = Reading"
  "handlers_set (client (demo_agent c ts))" "vin (client (demo_agent c ts)) = ''V1''"
  "active_trip_id (trip_mgr (demo_agent c ts)) = 7" "write_queue (client (demo_agent c ts)) = []"
  by (simp_all add: demo_agent_def new_stream_client_def)

lemma demo_agent_inv: "ctrl_inv c \<Longrightarrow> on_state_change c \<Longrightarrow> agent_inv (demo_agent c ts)"
  using demo_wf by (simp add: agent_inv_def ac_inv_def demo_agent_def stream_inv_def new_stream_client_def demo_cache)

text \<open>The quote of the trip leg is about to end; the callback is the agent's.\<close>

lemma ctrl_inv_quoting:
  assumes "ctrl_inv c" "phase_of (state_of c) = Quoting"
  shows "ctrl_inv (c\<lparr>query_cb := cb, on_state_change := True\<rparr>)"
  using assms by (auto simp: ctrl_inv_def map_ok_def leg_inv_def leg_target_def)

lemma demo_reading_eta:
  obtains c where "ctrl_inv c" "state_of c = QUERY_READING_ETA" "current_leg c = TRIP" "eta_received c"
    "query_cb c = Some cb_query" "on_state_change c"
proof -
  let ?es = "map (\<lambda>e. (4000000000 :: time_point, e)) (quote_events services_up 12 3)"
  obtain c0 where c0: "ctrl_inv c0" "state_of c0 = QUERY_PUBLISHING_INITIAL_POSE" "current_leg c0 = PICKUP"
    "localised c0 = localised demo_idle" "cache_extends (tc_map demo_idle) (tc_map c0)"
    "query_goal_gps c0 = axis_gps 30" "goal_lanelet_id (status c0) = to_string 1"
    using queryEta_resolved [OF demo_idle_inv demo_idle_facts(1) demo_pose demo_resolves(1,2),
        of 4000000000 "axis_gps 30" "Some 7"] by metis
  have loc: "localised c0" using c0(4) demo_idle_facts(2) by simp
  obtain c1 where c1: "ctrl_inv c1" "localised c1" "state_of c1 = QUERY_PUBLISHING_INITIAL_POSE" "current_leg c1 = TRIP"
  proof (rule quote_pickup [OF map_snd_timed c0(1,2) loc c0(3)])
    show "connected_id (tc_map c0) (query_goal_gps c0) i True \<noteq> None"
      if "goal_lanelet_id (status c0) = to_string i" for i
      using that c0(5-7) demo_resolves(3) by (simp add: connected_id_extends)
  qed
  obtain c2 where c2: "state_of c2 = QUERY_READING_ETA" "eta_received c2" "core c2 = core c1"
    using quote_leg [OF c1(3,2)] by blast
  have "ctrl_inv c2" using core_eq_inv [OF c2(3)] c1(1,3) c2(1) by simp
  then have "ctrl_inv (c2\<lparr>query_cb := Some cb_query, on_state_change := True\<rparr>)"
    by (rule ctrl_inv_quoting) (simp add: c2(1))
  with that [OF this] c2 c1(4) show thesis by (simp add: core_def)
qed

section \<open>Robustness\<close>



section \<open>Commands\<close>

fun tasks_of :: "gateway_command \<Rightarrow> ac_event list" where
  "tasks_of (TripInit r) =
     [AcQueryEta \<lparr>latitude = tir_start_lat r, longitude = tir_start_long r\<rparr>
        \<lparr>latitude = tir_end_lat r, longitude = tir_end_long r\<rparr> (Some cb_query) None]"
| "tasks_of (TripMove r) = [AcMoveCommand (Some cb_move)]"
| "tasks_of (OrderUpdateLocation v) = [AcGetStatus (Some cb_location)]"
| "tasks_of (TripCancel r) = [AcCancel]"
| "tasks_of _ = []"

fun acks_of :: "agent \<Rightarrow> gateway_command \<Rightarrow> vehicle_event list" where
  "acks_of a (OrderUpdateLocation v) = [OrderUpdateLocationAck True []]"
| "acks_of a (TripCancel r) =
     [TripCancelAck True [], StatusEvent (vin (client a)) (active_trip_id (trip_mgr a)) ''CANCELLED'']"
| "acks_of a _ = []"

text \<open>The identifiers after a command of this vehicle: the request's, and the active trip's.\<close>

fun ids_after :: "gateway_command \<Rightarrow> i64 \<times> i64 \<Rightarrow> i64 \<times> i64" where
  "ids_after (TripInit r) ids = (tir_request_id r, tir_request_id r)"
| "ids_after (TripMove r) ids = (fst ids, tmr_trip_id r)"
| "ids_after _ ids = ids"

text \<open>
  C19. What reading a command does: only one that carries this vehicle's number has an effect
  beyond being noted as read; it then overwrites the identifiers, and if the handlers are
  installed it posts exactly the task of its kind and enqueues exactly its acknowledgements, a
  cancellation being acknowledged before the controller hears of it. The controller itself is
  not touched.
\<close>

theorem commands_dispatched:
  "let own = (command_vin cmd = vin (client a)); act = (own \<and> handlers_set (client a)); a' = agent_read cmd a
   in strand a' = strand a @ (if act then tasks_of cmd else []) \<and>
      write_queue (client a') = write_queue (client a) @ (if act then acks_of a cmd else []) \<and>
      (current_request_id (client a'), active_trip_id (trip_mgr a')) =
        (if own then ids_after cmd (current_request_id (client a), active_trip_id (trip_mgr a))
         else (current_request_id (client a), active_trip_id (trip_mgr a))) \<and>
      agent_ctrl a' = agent_ctrl a \<and> streaming_posts a' = streaming_posts a \<and> read_received (client a')"
proof (cases "command_vin cmd = vin (client a)")
  case False
  then show ?thesis by (simp add: agent_read_def read_command_def Let_def)
next
  case own: True
  show ?thesis
  proof (cases "handlers_set (client a)")
    case True
    with own show ?thesis
      by (cases cmd)
         (simp_all add: agent_read_def read_command_def on_trip_init_def on_trip_move_def on_order_update_location_def
           on_trip_cancel_def post_task_def report_defs SetActiveTripId_def GetActiveTripId_def Let_def)
  next
    case False
    with own show ?thesis
      by (cases cmd) (simp_all add: agent_read_def read_command_def SetActiveTripId_def Let_def)
  qed
qed

text \<open>
  C38. A trip request that arrives while a trip is under way is dropped without a word: after
  its task has run the controller is as it was and the gateway has been sent nothing, but the
  request's identifier has replaced the running trip's.
\<close>

theorem busy_init_is_silent:
  assumes "agent_inv a" "stream_phase (client a) = Reading" "handlers_set (client a)" "strand a = []"
    "trip_ctrl (agent_ctrl a) = Some c" "state_of c \<noteq> IDLE" "tir_vin r = vin (client a)"
    "run agent_step [AgRead (TripInit r), AgRun now svc tf] a = Inr a'"
  shows "trip_ctrl (agent_ctrl a') = Some c \<and> write_queue (client a') = write_queue (client a) \<and> strand a' = [] \<and>
    active_trip_id (trip_mgr a') = tir_request_id r \<and> current_request_id (client a') = tir_request_id r"
proof -
  let ?t = "AcQueryEta \<lparr>latitude = tir_start_lat r, longitude = tir_start_long r\<rparr>
      \<lparr>latitude = tir_end_lat r, longitude = tir_end_long r\<rparr> (Some cb_query) None"
  let ?a = "agent_read (TripInit r) a"
  have a: "?a = a\<lparr>client := (client a)\<lparr>read_received := True, current_request_id := tir_request_id r\<rparr>,
      trip_mgr := (trip_mgr a)\<lparr>active_trip_id := tir_request_id r\<rparr>, strand := [?t]\<rparr>"
    using assms(3,4,7)
    by (simp add: agent_read_def read_command_def on_trip_init_def post_task_def SetActiveTripId_def Let_def)
  have run: "run_task now svc tf ?a = Inr a'" using assms(2,8) by (simp split: sum.splits)
  have inv: "agent_inv ?a" by (rule agent_read_inv [OF assms(1)])
  have ctrl: "trip_ctrl (agent_ctrl ?a) = Some c" "strand ?a = ?t # []" using assms(5) by (simp_all add: a)
  have x: "ctrl_event_of (with_env svc tf ?t) = Some (EvQueryEta \<lparr>latitude = tir_start_lat r, longitude = tir_start_long r\<rparr>
      \<lparr>latitude = tir_end_lat r, longitude = tir_end_long r\<rparr> (Some cb_query) tf)" by simp
  note ob = ac_inv_outbox [OF inv ctrl(1)]
  show ?thesis
  proof (rule run_task_ctrl [OF inv ctrl x run])
    fix c2 bs ac
    assume r: "ctrl_step (now, EvQueryEta \<lparr>latitude = tir_start_lat r, longitude = tir_start_long r\<rparr>
          \<lparr>latitude = tir_end_lat r, longitude = tir_end_long r\<rparr> (Some cb_query) tf) c = Inr c2"
      "trip_ctrl (agent_ctrl a') = Some (c2\<lparr>outbox := []\<rparr>)"
      "outputs ac = concat (map (relay (agent_ctrl ?a)) (outbox c2)) @ bs" "\<forall>b \<in> set bs. is_bool_callback b"
      "write_queue (client a') = write_queue (client ?a) @ concat (map (said (task_done [] ac ?a)) (outputs ac))"
      "strand a' = [] @ concat (map posted (outputs ac))" "trip_mgr a' = trip_mgr (task_done [] ac ?a)"
      "client a' = (client ?a)\<lparr>write_queue := write_queue (client a')\<rparr>"
    obtain msg where "c2 = reply_now (Some cb_query) (rejected_query msg) c"
      using queryEta_busy [OF assms(6), of now tf "\<lparr>latitude = tir_start_lat r, longitude = tir_start_long r\<rparr>"
          "\<lparr>latitude = tir_end_lat r, longitude = tir_end_long r\<rparr>" "Some cb_query"] r(1)
      by (auto dest!: map_snd_InrD)
    then have c2: "c2 = c\<lparr>outbox := [QueryReply cb_query (rejected_query msg)]\<rparr>"
      using ob by (simp add: reply_now_def emit_def)
    have "concat (map (said A) bs) = []" "concat (map posted bs) = []" for A using r(4) by auto
    with r(3) c2 have "concat (map (said A) (outputs ac)) = []" "concat (map posted (outputs ac)) = []" for A
      by (simp_all add: rejected_query_def)
    moreover have "c2\<lparr>outbox := []\<rparr> = c" using c2 ob by simp
    moreover have "client a' = (client ?a)\<lparr>write_queue := write_queue (client a)\<rparr>"
      using r(5,8) calculation(1) by (simp add: a)
    ultimately show ?thesis using r(2,5,6,7) by (simp add: a)
  qed
qed

theorem busy_init_is_silent_witness:
  "\<exists>c a' r. ctrl_reachable c \<and> state_of c = WAITING_FOR_MOVE \<and>
     run agent_step [AgRead (TripInit r), AgRun 5 services_up None] (demo_agent c []) = Inr a' \<and>
     write_queue (client a') = [] \<and> active_trip_id (trip_mgr a') = 9"
proof -
  obtain c where c: "ctrl_reachable c" "ctrl_inv c" "state_of c = WAITING_FOR_MOVE" by (rule demo_waiting)
  let ?r = "\<lparr>tir_vin = ''V1'', tir_request_id = 9, tir_start_long = 0, tir_start_lat = 0, tir_end_long = 0, tir_end_lat = 0\<rparr>"
  have inv: "agent_inv (demo_agent c [])" by (rule demo_agent_inv [OF c(2) reachable_observed [OF c(1)]])
  then obtain a' where a': "run agent_step [AgRead (TripInit ?r), AgRun 5 services_up None] (demo_agent c []) = Inr a'"
    using app.run_total by blast
  from busy_init_is_silent [OF inv _ _ _ _ _ _ a'] c(3)
  have "write_queue (client a') = []" "active_trip_id (trip_mgr a') = 9" by simp_all
  with a' c show ?thesis by blast
qed

text \<open>
  C26. A cancellation is always acknowledged: whatever the controller's state, the gateway is
  sent a positive acknowledgement and the status CANCELLED for the active trip; when the task
  has run the controller, if there is one, is idle, and nothing more was reported and no change
  of the location streaming was posted.
\<close>

theorem cancel_acknowledged:
  assumes "agent_inv a" "stream_phase (client a) = Reading" "handlers_set (client a)" "strand a = []"
    "tcr_vin r = vin (client a)" "run agent_step [AgRead (TripCancel r), AgRun now svc tf] a = Inr a'"
  shows "write_queue (client a') = write_queue (client a) @
      [TripCancelAck True [], StatusEvent (vin (client a)) (active_trip_id (trip_mgr a)) ''CANCELLED''] \<and>
    streaming_posts a' = streaming_posts a \<and> strand a' = [] \<and>
    (\<forall>c. trip_ctrl (agent_ctrl a) = Some c \<longrightarrow> (\<exists>c'. trip_ctrl (agent_ctrl a') = Some c' \<and> state_of c' = IDLE \<and> idle_inv c'))"
proof -
  let ?evs = "[TripCancelAck True [], StatusEvent (vin (client a)) (active_trip_id (trip_mgr a)) ''CANCELLED'']"
  let ?a = "agent_read (TripCancel r) a"
  have a: "?a = a\<lparr>client := (client a)\<lparr>read_received := True, write_queue := write_queue (client a) @ ?evs\<rparr>,
      strand := [AcCancel]\<rparr>"
    using assms(3,4,5)
    by (simp add: agent_read_def read_command_def on_trip_cancel_def post_task_def report_defs GetActiveTripId_def Let_def)
  have run: "run_task now svc tf ?a = Inr a'" using assms(2,6) by (simp split: sum.splits)
  have inv: "agent_inv ?a" by (rule agent_read_inv [OF assms(1)])
  have st: "strand ?a = AcCancel # []" by (simp add: a)
  show ?thesis
  proof (cases "trip_ctrl (agent_ctrl a)")
    case None
    then have "a' = task_done [] (agent_ctrl ?a) ?a"
      using run inv by (simp add: a run_task_def cancelTripImpl_def task_done_def agent_inv_def)
    with None show ?thesis by (simp add: a task_done_def)
  next
    case (Some c)
    then have ctrl: "trip_ctrl (agent_ctrl ?a) = Some c" by (simp add: a)
    show ?thesis
    proof (rule run_task_ctrl [OF inv ctrl st _ run])
      show "ctrl_event_of (with_env svc tf AcCancel) = Some EvCancel" by simp
      fix c2 bs ac
      assume r: "ctrl_step (now, EvCancel) c = Inr c2" "trip_ctrl (agent_ctrl a') = Some (c2\<lparr>outbox := []\<rparr>)"
        "outputs ac = concat (map (relay (agent_ctrl ?a)) (outbox c2)) @ bs" "\<forall>b \<in> set bs. is_bool_callback b"
        "write_queue (client a') = write_queue (client ?a) @ concat (map (said (task_done [] ac ?a)) (outputs ac))"
        "strand a' = [] @ concat (map posted (outputs ac))"
        "streaming_posts a' = streaming_posts ?a @ concat (map streamed (outputs ac))"
      have c2: "c2 = cancel now c" using r(1) by simp
      have poses: "\<exists>p cov. e = InitialPose p cov" if "e \<in> set (outbox c2)" for e
        using cancel_only_poses [of now c] ac_inv_outbox [OF inv ctrl] that c2 by auto
      have silent: "said A b = [] \<and> posted b = [] \<and> streamed b = []" if "b \<in> set (outputs ac)" for A b
        using that r(3,4) poses by fastforce
      then have "concat (map (said A) (outputs ac)) = []" "concat (map posted (outputs ac)) = []"
        "concat (map streamed (outputs ac)) = []" for A by auto
      moreover have "state_of c2 = IDLE" "idle_inv (c2\<lparr>outbox := []\<rparr>)"
        using c2 cancel_idle [of now c] by (simp_all add: idle_inv_def)
      ultimately show ?thesis using r(2,5,6,7) Some by (simp add: a)
    qed
  qed
qed

theorem cancel_acknowledged_witness:
  "\<exists>c a'. ctrl_reachable c \<and> state_of c = WAITING_FOR_MOVE \<and>
     run agent_step [AgRead (TripCancel \<lparr>tcr_vin = ''V1'', tcr_request_id = 8\<rparr>), AgRun 5 services_up None]
       (demo_agent c []) = Inr a' \<and>
     write_queue (client a') = [TripCancelAck True [], StatusEvent ''V1'' 7 ''CANCELLED'']"
proof -
  obtain c where c: "ctrl_reachable c" "ctrl_inv c" "state_of c = WAITING_FOR_MOVE" by (rule demo_waiting)
  let ?r = "\<lparr>tcr_vin = ''V1'', tcr_request_id = 8\<rparr>"
  have inv: "agent_inv (demo_agent c [])" by (rule demo_agent_inv [OF c(2) reachable_observed [OF c(1)]])
  then obtain a' where a': "run agent_step [AgRead (TripCancel ?r), AgRun 5 services_up None] (demo_agent c []) = Inr a'"
    using app.run_total by blast
  from cancel_acknowledged [OF inv _ _ _ _ a']
  have "write_queue (client a') = [TripCancelAck True [], StatusEvent ''V1'' 7 ''CANCELLED'']" by simp
  with a' c show ?thesis by blast
qed

section \<open>Reports\<close>

text \<open>
  C7. The gateway is told where the trip is: a task that takes the controller into a state
  that has a status report enqueues that report, with the active trip's identifier, and no task
  enqueues a status report for another state than the one the controller is in afterwards.
\<close>

theorem gateway_told:
  assumes "agent_inv a" "trip_ctrl (agent_ctrl a) = Some c" "trip_state_callback (agent_ctrl a)"
    "strand a = t # ts" "t \<noteq> AcInitialize" "run_task now svc tf a = Inr a'" "trip_ctrl (agent_ctrl a') = Some c'"
  shows "\<exists>new. write_queue (client a') = write_queue (client a) @ new \<and>
    (\<forall>n. state_of c' \<noteq> state_of c \<and> status_report (state_of c') = Some n \<longrightarrow>
       StatusEvent (vin (client a)) (active_trip_id (trip_mgr a)) n \<in> set new) \<and>
    (\<forall>v i n. StatusEvent v i n \<in> set new \<longrightarrow> status_report (state_of c') = Some n)"
  using task_reports [OF assms] by metis

theorem gateway_told_witness:
  "\<exists>c a' c'. ctrl_inv c \<and> state_of c = ENGAGING \<and> \<not> engaging_for_pickup c \<and>
     run_task 5 services_up None (demo_agent c [AcMessage (EvEngageResponse 1)]) = Inr a' \<and>
     trip_ctrl (agent_ctrl a') = Some c' \<and> state_of c' = RUNNING \<and>
     StatusEvent ''V1'' 7 ''IN_PROGRESS'' \<in> set (write_queue (client a'))"
proof -
  obtain c0 where c0: "ctrl_reachable c0" "ctrl_inv c0" "state_of c0 = WAITING_FOR_MOVE" by (rule demo_waiting)
  obtain c where c: "move 3 c0 = Inr (True, c)" "ctrl_inv c" "state_of c = ENGAGING" "\<not> engaging_for_pickup c"
    using move_accepted [OF c0(2,3), of 3] by metis
  have obs: "on_state_change c"
    using on_state_change_step [of 3 EvMove c0 c] c(1) reachable_observed [OF c0(1)] by simp
  let ?a = "demo_agent c [AcMessage (EvEngageResponse 1)]"
  have inv: "agent_inv ?a" by (rule demo_agent_inv [OF c(2) obs])
  obtain a' where a': "run_task 5 services_up None ?a = Inr a'" using run_task_inv [OF inv] by blast
  have ctrl: "trip_ctrl (agent_ctrl ?a) = Some (c\<lparr>outbox := []\<rparr>)" "strand ?a = AcMessage (EvEngageResponse 1) # []"
    by simp_all
  obtain c' where c': "trip_ctrl (agent_ctrl a') = Some c'" "state_of c' = RUNNING"
  proof (rule run_task_ctrl [OF inv ctrl _ a'])
    show "ctrl_event_of (with_env services_up None (AcMessage (EvEngageResponse 1))) = Some (EvEngageResponse 1)" by simp
    fix c2
    assume "ctrl_step (5, EvEngageResponse 1) (c\<lparr>outbox := []\<rparr>) = Inr c2" "trip_ctrl (agent_ctrl a') = Some (c2\<lparr>outbox := []\<rparr>)"
    with c(3,4) that show thesis by (auto simp: onEngageResponse_def)
  qed
  from gateway_told [OF inv ctrl(1) _ ctrl(2) _ a' c'(1)] c'(2) c(3)
  have "StatusEvent ''V1'' 7 ''IN_PROGRESS'' \<in> set (write_queue (client a'))"
    by (auto simp: status_report_def)
  with c a' c' show ?thesis by blast
qed



text \<open>
  C21. Estimated arrivals are only sent in answer to trip requests: whatever happens from the
  start of the agent, the client has been given at most as many as trip requests were read.
\<close>

theorem arrivals_answer_requests:
  assumes "ac_init ctrl" "run agent_step es (start_app ctrl) = Inr a'"
  shows "length (filter is_eta (held (client a'))) \<le> inits es"
proof -
  have init: "agent_init (start_app ctrl)" using assms(1) by (auto simp: agent_init_def)
  have "claims (start_app ctrl) = 0"
    using assms(1) by (auto simp: claims_def etas_def queries_def owing_def start_app_def held_def
        new_stream_client_def ac_init_def new_AutowareController_def)
  with agent_run_claims [OF app.init_inv [OF init] assms(2)] show ?thesis by (simp add: claims_def etas_def)
qed

theorem arrivals_answer_requests_witness:
  "\<exists>a'. run agent_step [AgSetHandlers, AgRun 5 services_up None] (start_app (new_AutowareController demo_map)) = Inr a' \<and>
     filter is_eta (held (client a')) = []"
proof -
  have i: "ac_init (new_AutowareController demo_map)" using demo_wf by (auto simp: ac_init_def demo_cache)
  then have "agent_inv (start_app (new_AutowareController demo_map))"
    by (intro app.init_inv) (auto simp: agent_init_def)
  then obtain a' where a': "run agent_step [AgSetHandlers, AgRun 5 services_up None] (start_app (new_AutowareController demo_map)) = Inr a'"
    using app.run_total by blast
  from arrivals_answer_requests [OF i a'] have "filter is_eta (held (client a')) = []" by (simp add: inits_def)
  with a' show ?thesis by blast
qed

end
