(* ===== verification/AppJourney.thy ===== *)
theory AppJourney
  imports AppReports TripSignals
begin

text \<open>
  A whole trip as the gateway hears it. A handler of the trip controller runs as a task on the
  strand, and the callbacks it calls turn its effects into events for the gateway, tasks and
  posts to the location bridge; so a run of the controller is a run of the agent, and what the
  gateway is told is a function of the effects.
\<close>

section \<open>What becomes of an effect\<close>

text \<open>For the gateway: the events under the vehicle, the request and the trip given.\<close>

fun voice :: "string \<Rightarrow> i64 \<Rightarrow> i64 \<Rightarrow> effect \<Rightarrow> vehicle_event list" where
  "voice v rq i (StateChanged p n st) =
     (let arrive = ArriveEvent v i (latitude (current_gps st)) (longitude (current_gps st))
      in case n of
           WAITING_FOR_MOVE \<Rightarrow> [TripInitAck True ''accepted'', arrive, StatusEvent v i ''ARRIVED_AT_PICKUP'']
         | RUNNING \<Rightarrow> [StatusEvent v i ''IN_PROGRESS'']
         | COMPLETED \<Rightarrow> [arrive, StatusEvent v i ''COMPLETED'']
         | FAILED \<Rightarrow> [StatusEvent v i ''ERROR'']
         | _ \<Rightarrow> [])"
| "voice v rq i (QueryReply k r) =
     (if k = cb_query \<and> q_success r
      then [EtaEvent v rq (leg_eta_seconds (pickup_leg r) + leg_eta_seconds (trip_leg r))
              (calculate_fare (leg_distance_m (trip_leg r)) (leg_eta_seconds (trip_leg r))) ''COMPLETED'']
      else [])"
| "voice v rq i e = []"

text \<open>For the strand, and for the location bridge.\<close>

fun follow_up :: "effect \<Rightarrow> ac_event list" where
  "follow_up (QueryReply k r) = (if k = cb_query \<and> q_success r then [AcStartTrip (Some cb_start)] else [])"
| "follow_up e = []"

fun light :: "effect \<Rightarrow> bool list" where
  "light (StateChanged p n st) =
     (if n = WAITING_FOR_MOVE then [False] else if n = DRIVING_TO_PICKUP then [True] else [])"
| "light e = []"

text \<open>A listener pays no attention to the effects that are not audible.\<close>

locale listener =
  fixes hear :: "effect \<Rightarrow> 'a list"
  assumes deaf: "\<not> audible e \<Longrightarrow> hear e = []"
begin

lemma hear_audible: "concat (map hear (filter audible es)) = concat (map hear es)"
  by (induction es) (simp_all add: deaf)

lemma hear_loud: "concat (map hear (outbox c)) = concat (map hear (loud c))"
  by (simp add: loud_def hear_audible)

end

interpretation gateway: listener "voice v rq i" for v rq i
proof
  show "\<not> audible e \<Longrightarrow> voice v rq i e = []" for e
    by (cases e) (auto simp: Let_def split: trip_state.split)
qed

interpretation strand_task: listener follow_up
proof
  show "\<not> audible e \<Longrightarrow> follow_up e = []" for e by (cases e) simp_all
qed

interpretation stream_switch: listener light
proof
  show "\<not> audible e \<Longrightarrow> light e = []" for e by (cases e) auto
qed

section \<open>One task\<close>

text \<open>The agent carries the trip controller \<open>c\<close> and reports its states.\<close>

definition carrying :: "agent \<Rightarrow> trip_controller \<Rightarrow> bool" where
  "carrying a c \<longleftrightarrow> agent_inv a \<and> trip_ctrl (agent_ctrl a) = Some c \<and> trip_state_callback (agent_ctrl a)"

lemma carryingD:
  assumes "carrying a c"
  shows "agent_inv a" "trip_ctrl (agent_ctrl a) = Some c" "trip_state_callback (agent_ctrl a)" "outbox c = []"
    "ctrl_inv c" "on_state_change c" "loud c = []"
  using assms ac_inv_outbox [of a c] by (simp_all add: carrying_def loud_def)

text \<open>From \<open>a\<close> to \<open>a'\<close> the effects \<open>es\<close> were heard, with the tasks \<open>ts\<close> left on the strand.\<close>

definition tells :: "agent \<Rightarrow> ac_event list \<Rightarrow> effect list \<Rightarrow> agent \<Rightarrow> bool" where
  "tells a ts es a' \<longleftrightarrow>
     strand a' = ts @ concat (map follow_up es) \<and>
     streaming_posts a' = streaming_posts a @ concat (map light es) \<and>
     client a' = (client a)\<lparr>write_queue := write_queue (client a) @
       concat (map (voice (vin (client a)) (current_request_id (client a)) (active_trip_id (trip_mgr a))) es)\<rparr> \<and>
     active_trip_id (trip_mgr a') = active_trip_id (trip_mgr a)"

lemma said_relay:
  assumes "trip_state_callback ac" "trip_ctrl (agent_ctrl a) \<noteq> None"
  shows "concat (map (said a) (relay ac e)) =
     voice (vin (client a)) (current_request_id (client a)) (active_trip_id (trip_mgr a)) e"
  using assms
  by (cases e) (auto simp: Let_def GetArriveData_def at_status_def getTripStatusSync_def split: trip_state.split)

lemma posted_relay: "concat (map posted (relay ac e)) = follow_up e"
  by (cases e) auto

lemma streamed_relay: "trip_state_callback ac \<Longrightarrow> concat (map streamed (relay ac e)) = light e"
  by (cases e) auto

lemma concat_relay:
  assumes "trip_state_callback ac" "trip_ctrl (agent_ctrl a) \<noteq> None"
  shows "concat (map (said a) (concat (map (relay ac) es))) =
      concat (map (voice (vin (client a)) (current_request_id (client a)) (active_trip_id (trip_mgr a))) es)"
    "concat (map posted (concat (map (relay ac) es))) = concat (map follow_up es)"
    "concat (map streamed (concat (map (relay ac) es))) = concat (map light es)"
  using assms by (induction es) (simp_all add: said_relay posted_relay streamed_relay)

lemma bool_callbacks_silent:
  "\<forall>b \<in> set bs. is_bool_callback b \<Longrightarrow>
     concat (map (said a) bs) = [] \<and> concat (map posted bs) = [] \<and> concat (map streamed bs) = []"
  by (induction bs) simp_all

lemma run_task_heard:
  assumes "carrying a c" "strand a = t # ts" "ctrl_event_of (with_env svc tf t) = Some x" "ctrl_step (now, x) c = Inr c'"
  obtains a' where "run_task now svc tf a = Inr a'" "carrying a' (c'\<lparr>outbox := []\<rparr>)" "tells a ts (loud c') a'"
proof -
  note cr = carryingD [OF assms(1)]
  obtain a' where a': "run_task now svc tf a = Inr a'" "agent_inv a'" using run_task_inv [OF cr(1)] by blast
  show thesis
  proof (rule run_task_effect [OF assms(2) a'(1)])
    fix ctrl
    assume step: "ac_step (now, with_env svc tf t) (agent_ctrl a) = Inr ctrl"
      and tm: "trip_mgr a' = trip_mgr (task_done ts ctrl a)"
      and left: "strand a' = ts @ concat (map posted (outputs ctrl))"
        "streaming_posts a' = streaming_posts a @ concat (map streamed (outputs ctrl))"
      and cl: "client a' = (client a)\<lparr>write_queue := write_queue (client a) @ concat (map (said (task_done ts ctrl a)) (outputs ctrl))\<rparr>"
    obtain bs where out: "outputs ctrl = concat (map (relay (agent_ctrl a)) (outbox c')) @ bs"
        "\<forall>b \<in> set bs. is_bool_callback b"
      and ctrl: "trip_ctrl ctrl = Some (c'\<lparr>outbox := []\<rparr>)" "trip_state_callback ctrl"
      using ac_step_ctrl [OF cr(2) assms(3) step] assms(4) cr(1,3) by (auto simp: relays_def agent_inv_def)
    have "trip_ctrl (agent_ctrl (task_done ts ctrl a)) \<noteq> None" using ctrl(1) by simp
    note out' = concat_relay [OF cr(3) this, of "outbox c'"] bool_callbacks_silent [OF out(2)]
    have "carrying a' (c'\<lparr>outbox := []\<rparr>)" using a'(2) tm ctrl by (simp add: carrying_def)
    moreover have "tells a ts (loud c') a'"
      using left cl tm out' by (simp add: tells_def out(1) gateway.hear_loud strand_task.hear_loud stream_switch.hear_loud)
    ultimately show thesis using that a'(1) by blast
  qed
qed

section \<open>Scripts on the strand\<close>

text \<open>The timer or a subscription posts the handler, and the strand runs it.\<close>

fun posting :: "ctrl_event \<Rightarrow> agent_event" where
  "posting (EvTick svc tf) = AgPostTick"
| "posting e = AgPostMessage e"

fun from_autoware :: "ctrl_event \<Rightarrow> bool" where
  "from_autoware (EvTick svc tf) \<longleftrightarrow> True"
| "from_autoware e \<longleftrightarrow> is_message e"

definition running :: "moment \<Rightarrow> agent_event" where
  "running m = (case m of (now, svc, tf) \<Rightarrow> AgRun now svc tf)"

definition scheduled :: "moment \<Rightarrow> ctrl_event \<Rightarrow> agent_event list" where
  "scheduled m e = [posting e, running m]"

lemma posting_task:
  assumes "from_autoware e"
  obtains t where "agent_step (posting e) a = Inr (post_task t a)"
    "ctrl_event_of (with_env svc tf t) = Some (snd (timed (now, svc, tf) e))" "fst (timed (now, svc, tf) e) = now"
proof (cases "is_message e")
  case True
  show thesis by (rule that [of "AcMessage e"]) (use True in \<open>cases e; simp\<close>)+
next
  case False
  then show thesis using assms that by (cases e) simp_all
qed

lemma scheduled_heard:
  assumes "carrying a c" "strand a = []" "from_autoware e" "ctrl_step (timed m e) c = Inr c'"
  obtains a' where "run agent_step (scheduled m e) a = Inr a'" "carrying a' (c'\<lparr>outbox := []\<rparr>)"
    "tells a [] (loud c') a'"
proof -
  obtain now svc tf where m: "m = (now, svc, tf)" by (cases m)
  obtain t where t: "agent_step (posting e) a = Inr (post_task t a)"
    "ctrl_event_of (with_env svc tf t) = Some (snd (timed m e))" "fst (timed m e) = now"
    unfolding m by (rule posting_task [OF assms(3)])
  have posted: "carrying (post_task t a) c" "strand (post_task t a) = t # []"
    using assms(1,2) by (simp_all add: carrying_def) (simp_all add: post_task_def)
  have "ctrl_step (now, snd (timed m e)) c = Inr c'" using assms(4) t(3) by (metis prod.collapse)
  from run_task_heard [OF posted t(2) this] obtain a' where
    a': "run_task now svc tf (post_task t a) = Inr a'" "carrying a' (c'\<lparr>outbox := []\<rparr>)"
      "tells (post_task t a) [] (loud c') a'" .
  have "run agent_step (scheduled m e) a = Inr a'"
    using a'(1) t(1) by (simp add: scheduled_def running_def m)
  moreover have "tells a [] (loud c') a'" using a'(3) by (simp add: tells_def post_task_def)
  ultimately show thesis using that a'(2) by blast
qed

lemma tells_trans:
  assumes "tells a [] es b" "tells b ts fs a'" "concat (map follow_up es) = []"
  shows "tells a ts (es @ fs) a'"
  using assms by (simp add: tells_def)

text \<open>A script none of whose effects posts a task.\<close>

lemma script_heard:
  assumes "carrying a c" "strand a = []" "\<forall>e \<in> set es. from_autoware e" "length ms = length es"
    "run ctrl_step (map2 timed ms es) c = Inr c'" "concat (map follow_up (loud c')) = []"
  obtains a' where "run agent_step (concat (map2 scheduled ms es)) a = Inr a'" "carrying a' (c'\<lparr>outbox := []\<rparr>)"
    "tells a [] (loud c') a'"
  using assms
proof (induction es arbitrary: ms a c c' thesis)
  case Nil
  have "c' = c" using Nil.prems(6) by simp
  then have "c'\<lparr>outbox := []\<rparr> = c" "loud c' = []" using carryingD(4,7) [OF Nil.prems(2)] by simp_all
  with Nil.prems(2,3) show ?case by (intro Nil.prems(1) [of a]) (simp_all add: tells_def)
next
  case (Cons e es)
  note given = Cons.prems(2-7) and goal = Cons.prems(1)
  obtain m ns where ms: "ms = m # ns" "length ns = length es" using given(4) by (cases ms) auto
  have auto_e: "from_autoware e" and auto_es: "\<forall>e \<in> set es. from_autoware e" using given(3) by simp_all
  obtain c1 where c1: "ctrl_step (timed m e) c = Inr c1" "run ctrl_step (map2 timed ns es) c1 = Inr c'"
    using given(5) by (cases "ctrl_step (timed m e) c") (simp_all add: ms(1))
  obtain c2 where c2: "run ctrl_step (map2 timed ns es) (c1\<lparr>outbox := []\<rparr>) = Inr c2" "outbox c' = outbox c1 @ outbox c2"
    "c2\<lparr>outbox := []\<rparr> = c'\<lparr>outbox := []\<rparr>"
    by (rule run_after_clear [OF c1(2)])
  have loud: "loud c' = loud c1 @ loud c2" using c2(2) by (simp add: loud_def)
  then have quiet: "concat (map follow_up (loud c1)) = []" "concat (map follow_up (loud c2)) = []"
    using given(6) by simp_all
  obtain b where b: "run agent_step (scheduled m e) a = Inr b" "carrying b (c1\<lparr>outbox := []\<rparr>)" "tells a [] (loud c1) b"
    by (rule scheduled_heard [OF given(1,2) auto_e c1(1)])
  have empty: "strand b = []" using b(3) quiet(1) by (simp add: tells_def)
  show ?case
  proof (rule Cons.IH [OF _ b(2) empty auto_es ms(2) c2(1) quiet(2)])
    fix a'
    assume a': "run agent_step (concat (map2 scheduled ns es)) b = Inr a'" "carrying a' (c2\<lparr>outbox := []\<rparr>)"
      "tells b [] (loud c2) a'"
    have "run agent_step (concat (map2 scheduled ms (e # es))) a = Inr a'"
      by (simp only: ms(1) zip_Cons_Cons list.map prod.case concat.simps run_append b(1) sum.case a'(1))
    moreover have "tells a [] (loud c') a'" unfolding loud by (rule tells_trans [OF b(3) a'(3) quiet(1)])
    ultimately show ?case using goal a'(2) c2(3) by metis
  qed
qed


section \<open>Reading the commands of a trip\<close>

definition online :: "agent \<Rightarrow> bool" where
  "online a \<longleftrightarrow> stream_phase (client a) = Reading \<and> handlers_set (client a)"

text \<open>From \<open>a\<close> to \<open>a'\<close> the gateway was sent \<open>vs\<close> and the location bridge \<open>bs\<close>.\<close>

definition reported :: "agent \<Rightarrow> vehicle_event list \<Rightarrow> bool list \<Rightarrow> agent \<Rightarrow> bool" where
  "reported a vs bs a' \<longleftrightarrow> write_queue (client a') = write_queue (client a) @ vs \<and>
     streaming_posts a' = streaming_posts a @ bs \<and> online a' = online a \<and> vin (client a') = vin (client a)"

lemma reported_trans: "reported a vs bs b \<Longrightarrow> reported b ws cs a' \<Longrightarrow> reported a (vs @ ws) (bs @ cs) a'"
  by (simp add: reported_def)

lemma tells_reported:
  assumes "tells a ts es a'"
  shows "reported a (concat (map (voice (vin (client a)) (current_request_id (client a)) (active_trip_id (trip_mgr a))) es))
      (concat (map light es)) a'"
    "strand a' = ts @ concat (map follow_up es)" "current_request_id (client a') = current_request_id (client a)"
    "active_trip_id (trip_mgr a') = active_trip_id (trip_mgr a)" "vin (client a') = vin (client a)"
  using assms by (simp_all add: tells_def reported_def online_def)

lemma read_trip_init:
  assumes "carrying a c" "online a" "tir_vin r = vin (client a)"
  obtains a' where "agent_step (AgRead (TripInit r)) a = Inr a'" "carrying a' c" "reported a [] [] a'"
    "current_request_id (client a') = tir_request_id r" "vin (client a') = vin (client a)"
    "strand a' = strand a @ [AcQueryEta \<lparr>latitude = tir_start_lat r, longitude = tir_start_long r\<rparr>
       \<lparr>latitude = tir_end_lat r, longitude = tir_end_long r\<rparr> (Some cb_query) None]"
proof
  let ?a' = "agent_read (TripInit r) a"
  show "agent_step (AgRead (TripInit r)) a = Inr ?a'" using assms(2) by (simp add: online_def)
  show "carrying ?a' c"
    using assms agent_read_inv [of a "TripInit r"]
    by (simp add: carrying_def agent_read_def read_command_def on_trip_init_def post_task_def online_def SetActiveTripId_def)
qed (use assms in \<open>simp_all add: agent_read_def read_command_def on_trip_init_def post_task_def online_def reported_def
      SetActiveTripId_def\<close>)

lemma read_trip_move:
  assumes "carrying a c" "online a" "tmr_vin r = vin (client a)"
  obtains a' where "agent_step (AgRead (TripMove r)) a = Inr a'" "carrying a' c" "reported a [] [] a'"
    "active_trip_id (trip_mgr a') = tmr_trip_id r" "vin (client a') = vin (client a)"
    "strand a' = strand a @ [AcMoveCommand (Some cb_move)]"
proof
  let ?a' = "agent_read (TripMove r) a"
  show "agent_step (AgRead (TripMove r)) a = Inr ?a'" using assms(2) by (simp add: online_def)
  show "carrying ?a' c"
    using assms agent_read_inv [of a "TripMove r"]
    by (simp add: carrying_def agent_read_def read_command_def on_trip_move_def post_task_def online_def SetActiveTripId_def)
qed (use assms in \<open>simp_all add: agent_read_def read_command_def on_trip_move_def post_task_def online_def reported_def
      SetActiveTripId_def\<close>)

text \<open>The task at the head of the strand, run in the moment \<open>m\<close>.\<close>

lemma running_heard:
  assumes "carrying a c" "strand a = t # ts"
    "ctrl_event_of (with_env (fst (snd m)) (moment_tf m) t) = Some x" "ctrl_step (fst m, x) c = Inr c'"
  obtains a' where "agent_step (running m) a = Inr a'" "carrying a' (c'\<lparr>outbox := []\<rparr>)" "tells a ts (loud c') a'"
proof -
  obtain a' where "run_task (fst m) (fst (snd m)) (moment_tf m) a = Inr a'" "carrying a' (c'\<lparr>outbox := []\<rparr>)"
    "tells a ts (loud c') a'"
    by (rule run_task_heard [OF assms])
  with that show thesis by (simp add: running_def split_beta)
qed


lemma script_then:
  assumes "carrying a c" "strand a = []" "\<forall>e \<in> set es. from_autoware e" "length ms = length es"
    "run ctrl_step (map2 timed ms es) c = Inr c1" "loud c1 = []" "from_autoware e" "ctrl_step (timed m e) c1 = Inr c'"
  obtains a' where "run agent_step (concat (map2 scheduled ms es) @ scheduled m e) a = Inr a'"
    "carrying a' (c'\<lparr>outbox := []\<rparr>)" "tells a [] (loud c') a'"
proof -
  have quiet: "concat (map follow_up (loud c1)) = []" by (simp add: assms(6))
  obtain b where b: "run agent_step (concat (map2 scheduled ms es)) a = Inr b" "carrying b (c1\<lparr>outbox := []\<rparr>)"
    "tells a [] (loud c1) b"
    by (rule script_heard [OF assms(1-5) quiet])
  have "run ctrl_step [timed m e] c1 = Inr c'" using assms(8) by simp
  then obtain c2 where c2: "run ctrl_step [timed m e] (c1\<lparr>outbox := []\<rparr>) = Inr c2" "outbox c' = outbox c1 @ outbox c2"
    "c2\<lparr>outbox := []\<rparr> = c'\<lparr>outbox := []\<rparr>"
    by (rule run_after_clear)
  have step: "ctrl_step (timed m e) (c1\<lparr>outbox := []\<rparr>) = Inr c2"
    using c2(1) by (cases "ctrl_step (timed m e) (c1\<lparr>outbox := []\<rparr>)") simp_all
  have "strand b = []" using b(3) quiet by (simp add: tells_def)
  from scheduled_heard [OF b(2) this assms(7) step] obtain a' where
    a': "run agent_step (scheduled m e) b = Inr a'" "carrying a' (c2\<lparr>outbox := []\<rparr>)" "tells b [] (loud c2) a'" .
  have "tells a [] (loud c1 @ loud c2) a'" by (rule tells_trans [OF b(3) a'(3) quiet])
  moreover have "loud c' = loud c1 @ loud c2" using c2(2) by (simp add: loud_def)
  moreover have "run agent_step (concat (map2 scheduled ms es) @ scheduled m e) a = Inr a'"
    by (simp only: run_append b(1) sum.case a'(1))
  ultimately show thesis using that [of a'] a'(2) c2(3) by simp
qed

lemma scripts_from_autoware [simp]:
  "\<forall>e \<in> set (quote_script d t). from_autoware e" "\<forall>e \<in> set approach_script. from_autoware e"
  "\<forall>e \<in> set ride_script. from_autoware e" "from_autoware some_tick"
  by (simp_all add: quote_script_def approach_script_def ride_script_def some_tick_def)

lemma script_lengths [simp]:
  "length (quote_script d t) = 6" "length approach_script = 7" "length ride_script = 5"
  by (simp_all add: quote_script_def approach_script_def ride_script_def)

lemma outbox_clear [simp]:
  "localised (c\<lparr>outbox := []\<rparr>) = localised c"
  by (simp add: localised_def)

section \<open>The quotes\<close>

definition pickup_of :: "trip_init_request \<Rightarrow> gps_coord" where
  "pickup_of r = \<lparr>latitude = tir_start_lat r, longitude = tir_start_long r\<rparr>"

definition destination_of :: "trip_init_request \<Rightarrow> gps_coord" where
  "destination_of r = \<lparr>latitude = tir_end_lat r, longitude = tir_end_long r\<rparr>"

text \<open>One quote: Autoware's part in the moments \<open>ms\<close>, and the tick that ends it.\<close>

definition quote_of :: "moment list \<Rightarrow> moment \<Rightarrow> real \<Rightarrow> real \<Rightarrow> agent_event list" where
  "quote_of ms m d t = concat (map2 scheduled ms (quote_script d t)) @ scheduled m some_tick"

definition the_quote :: "string \<Rightarrow> i64 \<Rightarrow> real \<Rightarrow> real \<Rightarrow> real \<Rightarrow> vehicle_event" where
  "the_quote v rq t1 d2 t2 = EtaEvent v rq (t1 + t2) (calculate_fare d2 t2) ''COMPLETED''"

lemma journey_pickup_quote:
  assumes "carrying a c" "online a" "strand a = []" "state_of c = IDLE" "localised c" "tir_vin r = vin (client a)"
    "length ms = 6" "getCurrentVehiclePose (moment_tf m0) c = Some pose" "nearest_id (tc_map c) pose = Some p"
    "connected_id (tc_map c) (pickup_of r) p True = Some q"
    "connected_id (tc_map c) (destination_of r) q True \<noteq> None"
  obtains a' c' where "run agent_step ([AgRead (TripInit r), running m0] @ quote_of ms m d t) a = Inr a'" "carrying a' c'"
    "strand a' = []" "reported a [] [] a'" "current_request_id (client a') = tir_request_id r" "site c' = site c"
    "state_of c' = QUERY_PUBLISHING_INITIAL_POSE" "current_leg c' = TRIP" "query_cb c' = Some cb_query"
    "leg_eta_seconds (pickup_leg (query_result c')) = t"
proof -
  obtain a1 where a1: "agent_step (AgRead (TripInit r)) a = Inr a1" "carrying a1 c" "reported a [] [] a1"
    "current_request_id (client a1) = tir_request_id r"
    "strand a1 = AcQueryEta (pickup_of r) (destination_of r) (Some cb_query) None # []"
    using read_trip_init [OF assms(1,2,6)] assms(3) unfolding pickup_of_def destination_of_def by (metis append_Nil)
  obtain c1 where c1: "queryEta (fst m0) (moment_tf m0) (pickup_of r) (destination_of r) (Some cb_query) c = Inr (True, c1)"
    "ctrl_inv c1" "state_of c1 = QUERY_PUBLISHING_INITIAL_POSE" "current_leg c1 = PICKUP" "localised c1 = localised c"
    "cache_extends (tc_map c) (tc_map c1)" "query_goal_gps c1 = destination_of r" "goal_lanelet_id (status c1) = to_string q"
    by (rule queryEta_resolved [OF carryingD(5) [OF assms(1)] assms(4,8-10)])
  note h1 = queryEta_heard [OF c1(1,3)]
  have silent1: "loud c1 = []" using h1 carryingD(7) [OF assms(1)] by simp
  have step1: "ctrl_step (fst m0, EvQueryEta (pickup_of r) (destination_of r) (Some cb_query) (moment_tf m0)) c = Inr c1"
    using c1(1) by simp
  obtain a2 where a2: "agent_step (running m0) a1 = Inr a2" "carrying a2 (c1\<lparr>outbox := []\<rparr>)" "tells a1 [] (loud c1) a2"
    by (rule running_heard [OF a1(2,5) _ step1]) simp_all
  note t2 = tells_reported [OF a2(3)[unfolded silent1], simplified]
  let ?c1 = "c1\<lparr>outbox := []\<rparr>"
  obtain c2 c3 where c3: "run ctrl_step (map2 timed ms (quote_script d t)) ?c1 = Inr c2" "loud c2 = loud ?c1"
    "ctrl_step (timed m some_tick) c2 = Inr c3" "ctrl_inv c3" "site c3 = site ?c1"
    "state_of c3 = QUERY_PUBLISHING_INITIAL_POSE" "current_leg c3 = TRIP" "loud c3 = loud ?c1"
    "query_cb c3 = query_cb ?c1" "leg_eta_seconds (pickup_leg (query_result c3)) = t"
  proof (rule quote_pickup_heard [OF assms(7), of ?c1 d t m])
    show "connected_id (tc_map ?c1) (query_goal_gps ?c1) i True \<noteq> None"
      if "goal_lanelet_id (status ?c1) = to_string i" for i
      using that c1(6-8) assms(11) by (simp add: connected_id_extends)
  qed (use c1(2-5) assms(5) in simp_all)
  obtain a3 where a3: "run agent_step (quote_of ms m d t) a2 = Inr a3" "carrying a3 (c3\<lparr>outbox := []\<rparr>)" "tells a2 [] (loud c3) a3"
    unfolding quote_of_def
    by (rule script_then [OF a2(2) t2(2) scripts_from_autoware(1) _ c3(1) _ scripts_from_autoware(4) c3(3)])
      (use assms(7) c3(2) in simp_all)
  have silent3: "loud c3 = []" using c3(8) by simp
  note t3 = tells_reported [OF a3(3)[unfolded silent3], simplified]
  show thesis
  proof (rule that [of a3 "c3\<lparr>outbox := []\<rparr>"])
    show "run agent_step ([AgRead (TripInit r), running m0] @ quote_of ms m d t) a = Inr a3"
      using a1(1) a2(1) a3(1) by simp
    show "reported a [] [] a3" using reported_trans [OF reported_trans [OF a1(3) t2(1)] t3(1)] by simp
  qed (use a1(4) a3(2) t2 t3 c3 h1 in simp_all)
qed


lemma journey_trip_quote:
  assumes "carrying a c" "strand a = []" "state_of c = QUERY_PUBLISHING_INITIAL_POSE" "localised c"
    "current_leg c = TRIP" "query_cb c = Some cb_query" "length ms = 6"
  obtains a' c' where "run agent_step (quote_of ms m d t) a = Inr a'" "carrying a' c'" "site c' = site c"
    "state_of c' = ROUTES_READY" "strand a' = [AcStartTrip (Some cb_start)]"
    "reported a [the_quote (vin (client a)) (current_request_id (client a))
       (leg_eta_seconds (pickup_leg (query_result c))) d t] [] a'"
proof -
  obtain c1 c2 q where c2: "run ctrl_step (map2 timed ms (quote_script d t)) c = Inr c1" "loud c1 = loud c"
    "ctrl_step (timed m some_tick) c1 = Inr c2" "ctrl_inv c2" "site c2 = site c"
    "state_of c2 = ROUTES_READY" "loud c2 = loud c @ [QueryReply cb_query q]" "q_success q"
    "pickup_leg q = pickup_leg (query_result c)" "leg_distance_m (trip_leg q) = d" "leg_eta_seconds (trip_leg q) = t"
    by (rule quote_trip_heard [OF assms(7) carryingD(5) [OF assms(1)] assms(3-6)])
  note silent = carryingD(7) [OF assms(1)]
  obtain a' where a': "run agent_step (quote_of ms m d t) a = Inr a'" "carrying a' (c2\<lparr>outbox := []\<rparr>)" "tells a [] (loud c2) a'"
    unfolding quote_of_def
    by (rule script_then [OF assms(1,2) scripts_from_autoware(1) _ c2(1) _ scripts_from_autoware(4) c2(3)])
      (use assms(7) c2(2) silent in simp_all)
  show thesis
    by (rule that [OF a'(1,2)]) (use tells_reported(1,2) [OF a'(3)] c2(5-11) silent in \<open>simp_all add: the_quote_def\<close>)
qed

section \<open>The drives\<close>

text \<open>From the end of the quotes to the pickup: the trip starts by itself, the vehicle by command.\<close>

lemma journey_approach:
  assumes "carrying a c" "online a" "strand a = [AcStartTrip (Some cb_start)]" "state_of c = ROUTES_READY" "localised c"
    "tmr_vin r = vin (client a)" "length ms = 7" "getCurrentVehiclePose (moment_tf (last ms)) c = Some g"
  obtains a' c' where
    "run agent_step ([running m1, AgRead (TripMove r), running m2] @ concat (map2 scheduled ms approach_script)) a = Inr a'"
    "carrying a' c'" "site c' = site c" "state_of c' = WAITING_FOR_MOVE" "strand a' = []"
    "reported a [TripInitAck True ''accepted'', ArriveEvent (vin (client a)) (tmr_trip_id r) (latitude g) (longitude g),
       StatusEvent (vin (client a)) (tmr_trip_id r) ''ARRIVED_AT_PICKUP''] [True, False] a'"
proof -
  obtain c1 where c1: "startTrip (fst m1) c = Inr (True, c1)" "ctrl_inv c1" "state_of c1 = WAITING_FOR_PICKUP_START"
    "localised c1 = localised c" "engaging_for_pickup c1"
    by (rule startTrip_ready [OF carryingD(5) [OF assms(1)] assms(4)])
  have h1: "loud c1 = []" "site c1 = site c" using startTrip_heard [OF c1(1)] carryingD(7) [OF assms(1)] by simp_all
  have step1: "ctrl_step (fst m1, EvStartTrip) c = Inr c1" using c1(1) by simp
  obtain a1 where a1: "agent_step (running m1) a = Inr a1" "carrying a1 (c1\<lparr>outbox := []\<rparr>)" "tells a [] (loud c1) a1"
    by (rule running_heard [OF assms(1,3) _ step1]) simp_all
  note t1 = tells_reported [OF a1(3)[unfolded h1], simplified]
  have on1: "online a1" "tmr_vin r = vin (client a1)" using t1(1) assms(2,6) by (simp_all add: reported_def)
  obtain a2 where a2: "agent_step (AgRead (TripMove r)) a1 = Inr a2" "carrying a2 (c1\<lparr>outbox := []\<rparr>)" "reported a1 [] [] a2"
    "active_trip_id (trip_mgr a2) = tmr_trip_id r" "vin (client a2) = vin (client a1)" "strand a2 = strand a1 @ [AcMoveCommand (Some cb_move)]"
    by (rule read_trip_move [OF a1(2) on1])
  let ?c2 = "transitionTo (fst m2) PUBLISHING_INITIAL_POSE (c1\<lparr>outbox := [], current_route_state := None, route_received := False\<rparr>)"
  have step2: "ctrl_step (fst m2, EvMoveCommand) (c1\<lparr>outbox := []\<rparr>) = Inr ?c2"
    using c1(3) by (simp add: handleMoveCommand_def goToPickup_def)
  have h2: "loud ?c2 = []" by (simp add: loud_transitionTo)
  have s2: "strand a2 = AcMoveCommand (Some cb_move) # []" using a2(6) t1(2) by simp
  obtain a3 where a3: "agent_step (running m2) a2 = Inr a3" "carrying a3 (?c2\<lparr>outbox := []\<rparr>)" "tells a2 [] (loud ?c2) a3"
    by (rule running_heard [OF a2(2) s2 _ step2]) simp_all
  note t3 = tells_reported [OF a3(3)[unfolded h2], simplified]
  let ?c3 = "?c2\<lparr>outbox := []\<rparr>"
  have s3: "site ?c3 = site c" using h1(2) by simp
  obtain c4 st1 st2 where c4: "run ctrl_step (map2 timed ms approach_script) ?c3 = Inr c4" "ctrl_inv c4" "site c4 = site ?c3"
    "state_of c4 = WAITING_FOR_MOVE" "current_gps st2 = g"
    "loud c4 = loud ?c3 @ [StateChanged ENGAGING DRIVING_TO_PICKUP st1, StateChanged DRIVING_TO_PICKUP WAITING_FOR_MOVE st2]"
  proof (rule approach_heard [OF assms(7), of ?c3])
    show "getCurrentVehiclePose (moment_tf (last ms)) ?c3 = Some g" using assms(8) pose_site [OF s3] by simp
    show "on_state_change ?c3" "ctrl_inv ?c3" by (rule carryingD(5,6) [OF a3(2)])+
    show "localised ?c3" using assms(5) site_localised [OF s3] by simp
  qed (use c1(5) in simp_all)
  obtain a4 where a4: "run agent_step (concat (map2 scheduled ms approach_script)) a3 = Inr a4" "carrying a4 (c4\<lparr>outbox := []\<rparr>)"
    "tells a3 [] (loud c4) a4"
    by (rule script_heard [OF a3(2) t3(2) scripts_from_autoware(2) _ c4(1)]) (use assms(7) c4(6) in simp_all)
  note t4 = tells_reported(1,2) [OF a4(3)[unfolded c4(6)], simplified]
  show thesis
  proof (rule that [of a4 "c4\<lparr>outbox := []\<rparr>"])
    show "run agent_step ([running m1, AgRead (TripMove r), running m2] @ concat (map2 scheduled ms approach_script)) a = Inr a4"
      using a1(1) a2(1) a3(1) a4(1) by simp
    show "reported a [TripInitAck True ''accepted'', ArriveEvent (vin (client a)) (tmr_trip_id r) (latitude g) (longitude g),
        StatusEvent (vin (client a)) (tmr_trip_id r) ''ARRIVED_AT_PICKUP''] [True, False] a4"
      using reported_trans [OF reported_trans [OF reported_trans [OF t1(1) a2(3)] t3(1)] t4(1)] t3(4,5) a2(4,5) t1(5) c4(5)
      by simp
  qed (use a4(2) t4(2) c4(3,4) s3 in simp_all)
qed

text \<open>From the pickup to the destination, on the second command.\<close>

lemma journey_ride:
  assumes "carrying a c" "online a" "strand a = []" "state_of c = WAITING_FOR_MOVE" "tmr_vin r = vin (client a)"
    "length ms = 5" "getCurrentVehiclePose (moment_tf (last ms)) c = Some g"
  obtains a' c' where "run agent_step ([AgRead (TripMove r), running m1] @ concat (map2 scheduled ms ride_script)) a = Inr a'"
    "carrying a' c'" "state_of c' = COMPLETED" "strand a' = []"
    "reported a [StatusEvent (vin (client a)) (tmr_trip_id r) ''IN_PROGRESS'',
       ArriveEvent (vin (client a)) (tmr_trip_id r) (latitude g) (longitude g),
       StatusEvent (vin (client a)) (tmr_trip_id r) ''COMPLETED''] [] a'"
proof -
  obtain a1 where a1: "agent_step (AgRead (TripMove r)) a = Inr a1" "carrying a1 c" "reported a [] [] a1"
    "active_trip_id (trip_mgr a1) = tmr_trip_id r" "vin (client a1) = vin (client a)"
    "strand a1 = AcMoveCommand (Some cb_move) # []"
    using read_trip_move [OF assms(1,2,5)] assms(3) by (metis append_Nil)
  obtain c1 where c1: "move (fst m1) c = Inr (True, c1)" "ctrl_inv c1" "state_of c1 = ENGAGING" "\<not> engaging_for_pickup c1"
    using move_accepted [OF carryingD(5) [OF assms(1)] assms(4), of "fst m1"] by metis
  have h1: "loud c1 = []" "site c1 = site c" using move_heard [OF c1(1)] carryingD(7) [OF assms(1)] by simp_all
  have step1: "ctrl_step (fst m1, EvMoveCommand) c = Inr c1" using c1(1) assms(4) by (simp add: handleMoveCommand_def)
  obtain a2 where a2: "agent_step (running m1) a1 = Inr a2" "carrying a2 (c1\<lparr>outbox := []\<rparr>)" "tells a1 [] (loud c1) a2"
    by (rule running_heard [OF a1(2,6) _ step1]) simp_all
  note t2 = tells_reported [OF a2(3)[unfolded h1], simplified]
  let ?c2 = "c1\<lparr>outbox := []\<rparr>"
  have s2: "site ?c2 = site c" using h1(2) by simp
  have pose: "getCurrentVehiclePose (moment_tf (last ms)) ?c2 = Some g" using assms(7) pose_site [OF s2] by simp
  have eng: "state_of ?c2 = ENGAGING" "\<not> engaging_for_pickup ?c2" using c1(3,4) by simp_all
  note ride = engaged_heard [OF assms(6) eng(1) carryingD(6,5) [OF a2(2)] pose, unfolded if_not_P [OF eng(2)]]
  obtain c3 st1 st2 where c3: "run ctrl_step (map2 timed ms ride_script) ?c2 = Inr c3" "ctrl_inv c3" "site c3 = site ?c2"
    "state_of c3 = COMPLETED" "current_gps st2 = g"
    "loud c3 = loud ?c2 @ [StateChanged ENGAGING RUNNING st1, StateChanged RUNNING COMPLETED st2]"
    by (rule ride)
  obtain a3 where a3: "run agent_step (concat (map2 scheduled ms ride_script)) a2 = Inr a3" "carrying a3 (c3\<lparr>outbox := []\<rparr>)"
    "tells a2 [] (loud c3) a3"
    by (rule script_heard [OF a2(2) t2(2) scripts_from_autoware(3) _ c3(1)]) (use assms(6) c3(6) in simp_all)
  note t3 = tells_reported(1,2) [OF a3(3)[unfolded c3(6)], simplified]
  show thesis
  proof (rule that [of a3 "c3\<lparr>outbox := []\<rparr>"])
    show "run agent_step ([AgRead (TripMove r), running m1] @ concat (map2 scheduled ms ride_script)) a = Inr a3"
      using a1(1) a2(1) a3(1) by simp
    show "reported a [StatusEvent (vin (client a)) (tmr_trip_id r) ''IN_PROGRESS'',
        ArriveEvent (vin (client a)) (tmr_trip_id r) (latitude g) (longitude g),
        StatusEvent (vin (client a)) (tmr_trip_id r) ''COMPLETED''] [] a3"
      using reported_trans [OF reported_trans [OF a1(3) t2(1)] t3(1)] t2(4,5) a1(4,5) c3(5) by simp
  qed (use a3(2) t3(2) c3(4) in simp_all)
qed

end
