(* ===== verification/JourneyProperties.thy ===== *)
theory JourneyProperties
  imports AppJourney AppProperties
begin

text \<open>
  The property of a whole trip, as the gateway sees it.
\<close>

section \<open>The trip\<close>

text \<open>
  When the handlers run and what they read then: the query, the two quotes with the tick that
  ends each, the start, the command to go to the pickup, the approach, the second command and
  the ride.
\<close>

record trip_moments =
  query_at :: moment
  pickup_quote_at :: "moment list"
  pickup_quoted_at :: moment
  trip_quote_at :: "moment list"
  trip_quoted_at :: moment
  start_at :: moment
  go_at :: moment
  approach_at :: "moment list"
  ride_command_at :: moment
  ride_at :: "moment list"

definition trip_events ::
  "trip_init_request \<Rightarrow> trip_move_request \<Rightarrow> trip_move_request \<Rightarrow> trip_moments \<Rightarrow> real \<Rightarrow> real \<Rightarrow> real \<Rightarrow> real
     \<Rightarrow> agent_event list" where
  "trip_events r mv1 mv2 w d1 t1 d2 t2 =
     ([AgRead (TripInit r), running (query_at w)] @ quote_of (pickup_quote_at w) (pickup_quoted_at w) d1 t1) @
     quote_of (trip_quote_at w) (trip_quoted_at w) d2 t2 @
     ([running (start_at w), AgRead (TripMove mv1), running (go_at w)] @
        concat (map2 scheduled (approach_at w) approach_script)) @
     ([AgRead (TripMove mv2), running (ride_command_at w)] @ concat (map2 scheduled (ride_at w) ride_script))"

lemma run_after: "run step es s = Inr t \<Longrightarrow> run step (es @ fs) s = run step fs t"
  by (simp add: run_append)

text \<open>The first half of a trip, from the request to the vehicle waiting at the pickup place.\<close>

lemma journey_to_pickup:
  assumes "carrying a c" "online a" "strand a = []" "state_of c = IDLE" "localised c"
    "tir_vin r = vin (client a)" "tmr_vin mv = vin (client a)" "length ms1 = 6" "length ms2 = 6" "length ms3 = 7"
    "getCurrentVehiclePose (moment_tf m0) c = Some pose" "nearest_id (tc_map c) pose = Some p"
    "connected_id (tc_map c) (pickup_of r) p True = Some q" "connected_id (tc_map c) (destination_of r) q True \<noteq> None"
    "getCurrentVehiclePose (moment_tf (last ms3)) c = Some g"
  obtains a' c' where
    "run agent_step (([AgRead (TripInit r), running m0] @ quote_of ms1 q1 d1 t1) @ quote_of ms2 q2 d2 t2 @
       [running m1, AgRead (TripMove mv), running m2] @ concat (map2 scheduled ms3 approach_script)) a = Inr a'"
    "carrying a' c'" "site c' = site c" "state_of c' = WAITING_FOR_MOVE" "strand a' = []"
    "reported a [the_quote (vin (client a)) (tir_request_id r) t1 d2 t2, TripInitAck True ''accepted'',
       ArriveEvent (vin (client a)) (tmr_trip_id mv) (latitude g) (longitude g),
       StatusEvent (vin (client a)) (tmr_trip_id mv) ''ARRIVED_AT_PICKUP''] [True, False] a'"
proof -
  obtain a1 c1 where s1: "run agent_step ([AgRead (TripInit r), running m0] @ quote_of ms1 q1 d1 t1) a = Inr a1" "carrying a1 c1"
    "strand a1 = []" "reported a [] [] a1" "current_request_id (client a1) = tir_request_id r" "site c1 = site c"
    "state_of c1 = QUERY_PUBLISHING_INITIAL_POSE" "current_leg c1 = TRIP" "query_cb c1 = Some cb_query"
    "leg_eta_seconds (pickup_leg (query_result c1)) = t1"
    by (rule journey_pickup_quote [OF assms(1-6,8,11-14)])
  have l1: "localised c1" using assms(5) site_localised [OF s1(6)] by simp
  obtain a2 c2 where s2: "run agent_step (quote_of ms2 q2 d2 t2) a1 = Inr a2" "carrying a2 c2"
    "site c2 = site c1" "state_of c2 = ROUTES_READY" "strand a2 = [AcStartTrip (Some cb_start)]"
    "reported a1 [the_quote (vin (client a1)) (current_request_id (client a1))
       (leg_eta_seconds (pickup_leg (query_result c1))) d2 t2] [] a2"
    by (rule journey_trip_quote [OF s1(2,3,7) l1 s1(8,9) assms(9)])
  note r2 = reported_trans [OF s1(4) s2(6)]
  have k2: "online a2" "tmr_vin mv = vin (client a2)" "site c2 = site c" "localised c2"
    using r2 assms(2,5,7) s1(6) s2(3) site_localised [of c2 c] by (simp_all add: reported_def)
  have g2: "getCurrentVehiclePose (moment_tf (last ms3)) c2 = Some g" using assms(15) pose_site [OF k2(3)] by simp
  obtain a3 c3 where s3: "run agent_step ([running m1, AgRead (TripMove mv), running m2] @
        concat (map2 scheduled ms3 approach_script)) a2 = Inr a3"
    "carrying a3 c3" "site c3 = site c2" "state_of c3 = WAITING_FOR_MOVE" "strand a3 = []"
    "reported a2 [TripInitAck True ''accepted'', ArriveEvent (vin (client a2)) (tmr_trip_id mv) (latitude g) (longitude g),
       StatusEvent (vin (client a2)) (tmr_trip_id mv) ''ARRIVED_AT_PICKUP''] [True, False] a3"
    by (rule journey_approach [OF s2(2) k2(1) s2(5,4) k2(4,2) assms(10) g2])
  have "vin (client a1) = vin (client a)" "vin (client a2) = vin (client a)" using s1(4) r2 by (simp_all add: reported_def)
  then have "reported a [the_quote (vin (client a)) (tir_request_id r) t1 d2 t2, TripInitAck True ''accepted'',
       ArriveEvent (vin (client a)) (tmr_trip_id mv) (latitude g) (longitude g),
       StatusEvent (vin (client a)) (tmr_trip_id mv) ''ARRIVED_AT_PICKUP''] [True, False] a3"
    using reported_trans [OF r2 s3(6)] s1(5,10) by simp
  moreover note run_all = trans [OF run_after [OF s1(1)] trans [OF run_after [OF s2(1)] s3(1)]]
  ultimately show thesis using that [OF run_all s3(2) _ s3(4,5)] s3(3) k2(3) by simp
qed


definition demo_moment :: moment where
  "demo_moment = (4000000000, services_up, Some (pt 5 0))"

definition demo_moments :: trip_moments where
  "demo_moments =
     \<lparr>query_at = demo_moment, pickup_quote_at = replicate 6 demo_moment, pickup_quoted_at = demo_moment,
      trip_quote_at = replicate 6 demo_moment, trip_quoted_at = demo_moment, start_at = demo_moment, go_at = demo_moment,
      approach_at = replicate 7 demo_moment, ride_command_at = demo_moment, ride_at = replicate 5 demo_moment\<rparr>"

definition demo_request :: trip_init_request where
  "demo_request =
     \<lparr>tir_vin = ''V1'', tir_request_id = 11, tir_start_long = longitude (axis_gps 15), tir_start_lat = latitude (axis_gps 15),
      tir_end_long = longitude (axis_gps 30), tir_end_lat = latitude (axis_gps 30)\<rparr>"


end
