(* ===== verification/GatewayProperties.thy ===== *)
theory GatewayProperties
  imports AppInvariant
begin

text \<open>
  Properties of the stream to the gateway.
\<close>

section \<open>The stream\<close>

definition demo_client :: "bool \<Rightarrow> stream_client \<times> trip_adapter" where
  "demo_client down =
     ((new_stream_client ''V1'' 7)\<lparr>shutdown_flag := down, stream_phase := Reading, write_queue := [StatusEvent ''V1'' 7 ''A'']\<rparr>,
      \<lparr>ta_controller = new_AutowareController
         \<lparr>offset_x = 0, offset_y = 0, invalid_id = 0, the_graph = None, the_map = None,
          the_projector = \<lparr>proj_forward = (\<lambda>_. \<lparr>pos_x = 0, pos_y = 0, pos_z = 0\<rparr>), proj_reverse = (\<lambda>_. \<lparr>latitude = 0, longitude = 0\<rparr>)\<rparr>,
          cache = [], default_start = None\<rparr>,
       active_trip_id = 7\<rparr>)"

text \<open>
  C14. The client neither drops nor reorders nor repeats events: over any run what was handed to
  \<open>Write\<close>, the event being written and the queue together are what they were at the start,
  followed by the events enqueued since, in order. Once the client is shut down the writer takes
  nothing more from the queue.
\<close>

theorem events_kept_in_order:
  assumes "run stream_step es s = Inr s'"
  shows "held (fst s') = held (fst s) @ enqueued es \<and>
    (shutdown_flag (fst s) \<longrightarrow>
       map fst (written (fst s')) @ (case writing (fst s') of None \<Rightarrow> [] | Some ev \<Rightarrow> [ev]) =
       map fst (written (fst s)) @ (case writing (fst s) of None \<Rightarrow> [] | Some ev \<Rightarrow> [ev]))"
  using held_run [OF assms] shutdown_run [OF _ assms] by blast

theorem events_kept_in_order_witness:
  "\<exists>s'. run stream_step [SeTake, SeEnqueue (LocationEvent ''V1'' 1 2), SeWrite False, SeReadEnd, SeJoined, SeOpen, SeTake]
      (demo_client False) = Inr s' \<and>
     held (fst s') = [StatusEvent ''V1'' 7 ''A'', LocationEvent ''V1'' 1 2]"
proof -
  obtain s' where s': "run stream_step [SeTake, SeEnqueue (LocationEvent ''V1'' 1 2), SeWrite False, SeReadEnd, SeJoined, SeOpen, SeTake]
      (demo_client False) = Inr s'"
    by (simp add: demo_client_def)
  have "held (fst s') = held (fst (demo_client False)) @ [LocationEvent ''V1'' 1 2]"
    using events_kept_in_order [OF s'] by simp
  then have "held (fst s') = [StatusEvent ''V1'' 7 ''A'', LocationEvent ''V1'' 1 2]"
    by (simp add: demo_client_def held_def new_stream_client_def)
  with s' show ?thesis by blast
qed

text \<open>
  C24. An event is lost only when its write fails, and a stream is given up with its first failed
  write: a new client loses at most one event for each stream it opens.
\<close>

theorem one_loss_per_stream:
  assumes "run stream_step es (new_stream_client v req, tm) = Inr s'"
  shows "length (lost (fst s')) \<le> opens es"
proof -
  have "stream_inv (new_stream_client v req, tm)" by (simp add: stream_inv_def new_stream_client_def)
  from risk_run [OF this assms] show ?thesis by (simp add: risk_def lost_def new_stream_client_def)
qed

theorem one_loss_per_stream_witness:
  "\<exists>s'. run stream_step [SeEnqueue (StatusEvent ''V1'' 7 ''A''), SeOpen, SeTake, SeWrite False]
      (new_stream_client ''V1'' 0, snd (demo_client False)) = Inr s' \<and>
     lost (fst s') = [StatusEvent ''V1'' 7 ''A''] \<and> length (lost (fst s')) \<le> 1"
proof -
  obtain s' where s': "run stream_step [SeEnqueue (StatusEvent ''V1'' 7 ''A''), SeOpen, SeTake, SeWrite False]
      (new_stream_client ''V1'' 0, snd (demo_client False)) = Inr s'"
    by simp
  then have "lost (fst s') = [StatusEvent ''V1'' 7 ''A'']"
    by (auto simp: lost_def stream_op_defs new_stream_client_def)
  with one_loss_per_stream [OF s'] s' show ?thesis by auto
qed

end
