(* ===== verification/PlanningBridge.thy ===== *)
theory PlanningBridge
  imports SensorMessages FrameLoop
begin

text \<open>
  \<open>PlanningBridge.cc\<close>: trajectories, route, planning factors and estimated arrival. Ten
  subscriptions overwrite \<open>PlanningFrameState\<close>; each tick copies it into a \<open>PlanningFrame\<close>.
\<close>

section \<open>Messages\<close>

record trajectory_msg_point =
  tp_position :: local_coord
  tp_velocity :: real

datatype velocity_factor_status_value =
    VF_APPROACHING
  | VF_STOPPED
  | VF_OTHER u8

datatype steering_direction_value =
    SD_LEFT
  | SD_RIGHT
  | SD_STRAIGHT
  | SD_OTHER u8

datatype steering_status_value =
    SS_APPROACHING
  | SS_TURNING
  | SS_OTHER u8

record velocity_factor_msg =
  vfm_behavior :: string
  vfm_position :: local_coord
  vfm_status :: velocity_factor_status_value

text \<open>A steering factor has an array of two poses.\<close>

record steering_factor_msg =
  sfm_behavior :: string
  sfm_positions :: "local_coord \<times> local_coord"
  sfm_status :: steering_status_value
  sfm_direction :: steering_direction_value

datatype planning_msg =
    TrajectoryPoints "trajectory_msg_point list"
  | FullRouteMsg lanelet_route
  | TrajectoryLane "trajectory_msg_point list"
  | VelocityFactors "velocity_factor_msg list"
  | SteeringFactors "steering_factor_msg list"
  | PlanningTargetVelocity real
  | PlanningVelocityLimit real
  | PlanningEta real real
  | RouteStateMsg route_state_value
  | ScenarioMsg string "string list"

section \<open>State and frame\<close>

datatype velocity_factor_status =
    VELOCITY_UNKNOWN
  | VELOCITY_APPROACHING
  | VELOCITY_STOPPED

datatype steering_direction =
    STEERING_UNKNOWN
  | STEERING_LEFT
  | STEERING_RIGHT
  | STEERING_STRAIGHT

datatype steering_status =
    STEERING_STATUS_UNKNOWN
  | STEERING_STATUS_APPROACHING
  | STEERING_STATUS_TURNING

datatype frame_route_state =
    ROUTE_UNKNOWN
  | ROUTE_UNSET
  | ROUTE_SET
  | ROUTE_ARRIVED
  | ROUTE_CHANGING

record trajectory_point =
  tp_x :: real
  tp_y :: real
  tp_z :: real
  tp_longitudinal_velocity_mps :: real

record velocity_factor =
  vfac_reason :: string
  vfac_pose :: local_coord
  vfac_status :: velocity_factor_status

record steering_factor =
  sfac_direction :: steering_direction
  sfac_status :: steering_status
  sfac_reason :: string
  sfac_pose :: local_coord

record full_route =
  fr_start_pose :: local_coord
  fr_goal_pose :: local_coord
  fr_segments :: "((i64 \<times> string) \<times> (i64 \<times> string) list) list"

record planning_state =
  trajectory_points :: "trajectory_point list"
  lane_trajectory :: "trajectory_point list"
  full_route :: full_route
  velocity_factors :: "velocity_factor list"
  steering_factors :: "steering_factor list"
  ps_target_speed_mps :: real
  ps_max_speed_mps :: real
  ps_eta :: "real \<times> real"
  routing_state :: frame_route_state
  scenario_state :: "string \<times> string list"

definition zero_point :: local_coord where
  "zero_point = \<lparr>pos_x = 0, pos_y = 0, pos_z = 0\<rparr>"

definition new_planning_state :: planning_state where
  "new_planning_state =
     \<lparr>trajectory_points = [], lane_trajectory = [],
      full_route = \<lparr>fr_start_pose = zero_point, fr_goal_pose = zero_point, fr_segments = []\<rparr>,
      velocity_factors = [], steering_factors = [], ps_target_speed_mps = 0, ps_max_speed_mps = 0,
      ps_eta = (0, 0), routing_state = ROUTE_UNKNOWN, scenario_state = ([], [])\<rparr>"

record planning_frame =
  pf_stamp_ns :: i64
  pf_seq :: u64
  pf_state :: planning_state

text \<open>The frame's other fields are copies of those of the state, one by one.\<close>

definition planning_buildFrame :: "u64 \<Rightarrow> i64 \<Rightarrow> planning_state \<Rightarrow> planning_frame" where
  "planning_buildFrame sq stamp s =
     \<lparr>pf_stamp_ns = stamp, pf_seq = sq,
      pf_state =
        \<lparr>trajectory_points = trajectory_points s, lane_trajectory = lane_trajectory s,
         full_route = full_route s, velocity_factors = velocity_factors s,
         steering_factors = steering_factors s, ps_target_speed_mps = ps_target_speed_mps s,
         ps_max_speed_mps = ps_max_speed_mps s, ps_eta = ps_eta s, routing_state = routing_state s,
         scenario_state = scenario_state s\<rparr>\<rparr>"

section \<open>Conversions\<close>

fun toVelocityFactorStatus :: "velocity_factor_status_value \<Rightarrow> velocity_factor_status" where
  "toVelocityFactorStatus VF_APPROACHING = VELOCITY_APPROACHING"
| "toVelocityFactorStatus VF_STOPPED = VELOCITY_STOPPED"
| "toVelocityFactorStatus (VF_OTHER v) = VELOCITY_UNKNOWN"

fun toSteeringDirection :: "steering_direction_value \<Rightarrow> steering_direction" where
  "toSteeringDirection SD_LEFT = STEERING_LEFT"
| "toSteeringDirection SD_RIGHT = STEERING_RIGHT"
| "toSteeringDirection SD_STRAIGHT = STEERING_STRAIGHT"
| "toSteeringDirection (SD_OTHER v) = STEERING_UNKNOWN"

fun toSteeringStatus :: "steering_status_value \<Rightarrow> steering_status" where
  "toSteeringStatus SS_APPROACHING = STEERING_STATUS_APPROACHING"
| "toSteeringStatus SS_TURNING = STEERING_STATUS_TURNING"
| "toSteeringStatus (SS_OTHER v) = STEERING_STATUS_UNKNOWN"

fun toRouteState :: "route_state_value \<Rightarrow> frame_route_state" where
  "toRouteState RS_UNSET = ROUTE_UNSET"
| "toRouteState RS_SET = ROUTE_SET"
| "toRouteState RS_ARRIVED = ROUTE_ARRIVED"
| "toRouteState RS_CHANGING = ROUTE_CHANGING"
| "toRouteState (RS_OTHER v) = ROUTE_UNKNOWN"

section \<open>Handlers\<close>

definition frame_point :: "trajectory_msg_point \<Rightarrow> trajectory_point" where
  "frame_point p =
     \<lparr>tp_x = pos_x (tp_position p), tp_y = pos_y (tp_position p), tp_z = pos_z (tp_position p),
      tp_longitudinal_velocity_mps = tp_velocity p\<rparr>"

definition onTrajectoryPointImpl :: "trajectory_msg_point list \<Rightarrow> planning_state \<Rightarrow> planning_state" where
  "onTrajectoryPointImpl ps s =
     fold (\<lambda>p s. s\<lparr>trajectory_points := trajectory_points s @ [frame_point p]\<rparr>) ps (s\<lparr>trajectory_points := []\<rparr>)"

definition onTrajectoryLaneImpl :: "trajectory_msg_point list \<Rightarrow> planning_state \<Rightarrow> planning_state" where
  "onTrajectoryLaneImpl ps s =
     fold (\<lambda>p s. s\<lparr>lane_trajectory := lane_trajectory s @ [frame_point p]\<rparr>) ps (s\<lparr>lane_trajectory := []\<rparr>)"

definition add_segment :: "lanelet_segment \<Rightarrow> full_route \<Rightarrow> full_route" where
  "add_segment sg fr =
     fr\<lparr>fr_segments := fr_segments fr @
        [((prim_id (preferred_primitive sg), primitive_type (preferred_primitive sg)),
          map (\<lambda>p. (prim_id p, primitive_type p)) (primitives sg))]\<rparr>"

definition onFullRouteImpl :: "lanelet_route \<Rightarrow> planning_state \<Rightarrow> planning_state" where
  "onFullRouteImpl r s =
     s\<lparr>full_route := fold add_segment (route_segments r)
         \<lparr>fr_start_pose = route_start r, fr_goal_pose = route_goal r, fr_segments = []\<rparr>\<rparr>"

definition frame_velocity_factor :: "velocity_factor_msg \<Rightarrow> velocity_factor" where
  "frame_velocity_factor f =
     \<lparr>vfac_reason = vfm_behavior f, vfac_pose = vfm_position f,
      vfac_status = toVelocityFactorStatus (vfm_status f)\<rparr>"

definition onVelocityFactorImpl :: "velocity_factor_msg list \<Rightarrow> planning_state \<Rightarrow> planning_state" where
  "onVelocityFactorImpl fs s =
     fold (\<lambda>f s. s\<lparr>velocity_factors := velocity_factors s @ [frame_velocity_factor f]\<rparr>) fs
       (s\<lparr>velocity_factors := []\<rparr>)"

definition frame_steering_factor :: "steering_factor_msg \<Rightarrow> steering_factor" where
  "frame_steering_factor f =
     \<lparr>sfac_direction = toSteeringDirection (sfm_direction f), sfac_status = toSteeringStatus (sfm_status f),
      sfac_reason = sfm_behavior f, sfac_pose = fst (sfm_positions f)\<rparr>"

definition onSteeringFactorImpl :: "steering_factor_msg list \<Rightarrow> planning_state \<Rightarrow> planning_state" where
  "onSteeringFactorImpl fs s =
     fold (\<lambda>f s. s\<lparr>steering_factors := steering_factors s @ [frame_steering_factor f]\<rparr>) fs
       (s\<lparr>steering_factors := []\<rparr>)"

definition onScenarioStateImpl :: "string \<Rightarrow> string list \<Rightarrow> planning_state \<Rightarrow> planning_state" where
  "onScenarioStateImpl current active s =
     fold (\<lambda>a s. s\<lparr>scenario_state := (fst (scenario_state s), snd (scenario_state s) @ [a])\<rparr>) active
       (s\<lparr>scenario_state := (current, [])\<rparr>)"

definition onTargetVelocityImpl :: "real \<Rightarrow> planning_state \<Rightarrow> planning_state" where
  "onTargetVelocityImpl v s = s\<lparr>ps_target_speed_mps := v\<rparr>"

definition onVelocityLimitImpl :: "real \<Rightarrow> planning_state \<Rightarrow> planning_state" where
  "onVelocityLimitImpl v s = s\<lparr>ps_max_speed_mps := v\<rparr>"

definition onEtaImpl :: "real \<Rightarrow> real \<Rightarrow> planning_state \<Rightarrow> planning_state" where
  "onEtaImpl d t s = s\<lparr>ps_eta := (d, t)\<rparr>"

definition onRouteStateImpl :: "route_state_value \<Rightarrow> planning_state \<Rightarrow> planning_state" where
  "onRouteStateImpl v s = s\<lparr>routing_state := toRouteState v\<rparr>"

fun planning_apply :: "planning_msg \<Rightarrow> planning_state \<Rightarrow> planning_state" where
  "planning_apply (TrajectoryPoints ps) s = onTrajectoryPointImpl ps s"
| "planning_apply (FullRouteMsg r) s = onFullRouteImpl r s"
| "planning_apply (TrajectoryLane ps) s = onTrajectoryLaneImpl ps s"
| "planning_apply (VelocityFactors fs) s = onVelocityFactorImpl fs s"
| "planning_apply (SteeringFactors fs) s = onSteeringFactorImpl fs s"
| "planning_apply (PlanningTargetVelocity v) s = onTargetVelocityImpl v s"
| "planning_apply (PlanningVelocityLimit v) s = onVelocityLimitImpl v s"
| "planning_apply (PlanningEta d t) s = onEtaImpl d t s"
| "planning_apply (RouteStateMsg v) s = onRouteStateImpl v s"
| "planning_apply (ScenarioMsg c as) s = onScenarioStateImpl c as s"

text \<open>The subscription each message comes from.\<close>

fun planning_topic :: "planning_msg \<Rightarrow> string" where
  "planning_topic (TrajectoryPoints ps) = ''/planning/scenario_planning/trajectory''"
| "planning_topic (FullRouteMsg r) = ''/planning/mission_planning/route''"
| "planning_topic (TrajectoryLane ps) = ''/planning/scenario_planning/lane_driving/trajectory''"
| "planning_topic (VelocityFactors fs) = ''/api/planning/velocity_factors''"
| "planning_topic (SteeringFactors fs) = ''/api/planning/steering_factors''"
| "planning_topic (PlanningTargetVelocity v) = ''/planning/scenario_planning/velocity_smoother/closest_velocity''"
| "planning_topic (PlanningVelocityLimit v) = ''/planning/scenario_planning/current_max_velocity''"
| "planning_topic (PlanningEta d t) = ''/planning/mission_remaining_distance_time''"
| "planning_topic (RouteStateMsg v) = ''/api/routing/state''"
| "planning_topic (ScenarioMsg c as) = ''/planning/scenario_planning/scenario''"

section \<open>The loops\<close>

lemma trajectory_loop:
  "fold (\<lambda>p s. s\<lparr>trajectory_points := trajectory_points s @ [f p]\<rparr>) ps s =
     s\<lparr>trajectory_points := trajectory_points s @ map f ps\<rparr>"
  by (induction ps arbitrary: s) simp_all

lemma lane_loop:
  "fold (\<lambda>p s. s\<lparr>lane_trajectory := lane_trajectory s @ [f p]\<rparr>) ps s =
     s\<lparr>lane_trajectory := lane_trajectory s @ map f ps\<rparr>"
  by (induction ps arbitrary: s) simp_all

lemma velocity_loop:
  "fold (\<lambda>p s. s\<lparr>velocity_factors := velocity_factors s @ [f p]\<rparr>) ps s =
     s\<lparr>velocity_factors := velocity_factors s @ map f ps\<rparr>"
  by (induction ps arbitrary: s) simp_all

lemma steering_loop:
  "fold (\<lambda>p s. s\<lparr>steering_factors := steering_factors s @ [f p]\<rparr>) ps s =
     s\<lparr>steering_factors := steering_factors s @ map f ps\<rparr>"
  by (induction ps arbitrary: s) simp_all

lemma scenario_loop:
  "fold (\<lambda>a s. s\<lparr>scenario_state := (fst (scenario_state s), snd (scenario_state s) @ [a])\<rparr>) as s =
     s\<lparr>scenario_state := (fst (scenario_state s), snd (scenario_state s) @ as)\<rparr>"
  by (induction "as" arbitrary: s) simp_all

lemma segment_loop:
  "fold add_segment sgs fr =
     fr\<lparr>fr_segments := fr_segments fr @
        map (\<lambda>sg. ((prim_id (preferred_primitive sg), primitive_type (preferred_primitive sg)),
                   map (\<lambda>p. (prim_id p, primitive_type p)) (primitives sg))) sgs\<rparr>"
  by (induction sgs arbitrary: fr) (simp_all add: add_segment_def)

lemmas planning_handlers =
  onTrajectoryPointImpl_def onTrajectoryLaneImpl_def onFullRouteImpl_def onVelocityFactorImpl_def
  onSteeringFactorImpl_def onScenarioStateImpl_def trajectory_loop lane_loop velocity_loop
  steering_loop scenario_loop segment_loop onTargetVelocityImpl_def onVelocityLimitImpl_def
  onEtaImpl_def onRouteStateImpl_def

section \<open>The bridge\<close>

type_synonym planning_bridge = "(planning_state, planning_frame) bridge"

definition planning_onTick :: "i64 \<Rightarrow> planning_bridge \<Rightarrow> planning_bridge" where
  "planning_onTick = onTick_with (\<lambda>_ s. s) (\<lambda>_. True) planning_buildFrame"

definition planning_step :: "(planning_msg, i64) loop_event \<Rightarrow> planning_bridge \<Rightarrow> exn + planning_bridge" where
  "planning_step = loop_step planning_apply planning_onTick"

interpretation planning: topic_store planning_apply planning_topic
proof unfold_locales
  show "planning_topic m = planning_topic m' \<Longrightarrow> planning_apply m' (planning_apply m s) = planning_apply m' s" for m m' s
    by (cases m; cases m') (simp_all add: planning_handlers)
  show "planning_topic m \<noteq> planning_topic m' \<Longrightarrow>
      planning_apply m' (planning_apply m s) = planning_apply m (planning_apply m' s)" for m m' s
    by (cases m; cases m') (simp_all add: planning_handlers)
qed

end
