(* ===== verification/PerceptionBridge.thy ===== *)
theory PerceptionBridge
  imports SensorMessages FrameLoop
begin

text \<open>
  \<open>PerceptionBridge.cc\<close>: surrounding objects, point cloud, occupancy grid and traffic lights.
  The conversion of a point cloud message and its voxel grid are library calls; together they
  are the parameter \<open>downsample\<close>, which gives the points in order, a coordinate being \<open>None\<close>
  when it is not finite.
\<close>

section \<open>Messages\<close>

type_synonym cloud_point = "real option \<times> real option \<times> real option"

record occupancy_msg =
  og_resolution :: real
  og_width :: u32
  og_height :: u32
  og_origin :: local_coord
  og_data :: "u8 list"

datatype 'c perception_msg =
    SurroundingObjects "predicted_object list"
  | PointCloud 'c
  | OccupancyMsg occupancy_msg
  | TrafficSignal "light_group list"

section \<open>State and frame\<close>

datatype object_class =
    CLASS_UNKNOWN
  | CLASS_CAR
  | CLASS_TRUCK
  | CLASS_BUS
  | CLASS_TRAILER
  | CLASS_MOTORCYCLE
  | CLASS_BICYCLE
  | CLASS_PEDESTRIAN
  | CLASS_ANIMAL

datatype frame_light_color =
    TRAFFIC_LIGHT_UNKNOWN
  | TRAFFIC_LIGHT_RED
  | TRAFFIC_LIGHT_AMBER
  | TRAFFIC_LIGHT_GREEN

datatype cell_state =
    CELL_UNKNOWN
  | CELL_FREE
  | CELL_OCCUPIED

record surrounding_object =
  sob_id :: u32
  sob_class :: object_class
  sob_length :: real
  sob_height :: real
  sob_width :: real
  sob_velocity :: "real \<times> real"
  sob_heading :: real
  sob_pose :: local_coord

record occupancy_grid =
  grid_resolution :: real
  grid_width :: u32
  grid_height :: u32
  grid_origin_x :: real
  grid_origin_y :: real
  grid_data :: "cell_state list"

record traffic_light =
  tl_id :: i64
  tl_confidence :: real
  tl_color :: frame_light_color

record perception_state =
  surrounding_objects :: "surrounding_object list"
  points_cloud :: "local_coord list"
  occupancy_grid :: occupancy_grid
  traffic_lights :: "traffic_light list"

definition new_perception_state :: perception_state where
  "new_perception_state =
     \<lparr>surrounding_objects = [], points_cloud = [],
      occupancy_grid = \<lparr>grid_resolution = 0, grid_width = 0, grid_height = 0, grid_origin_x = 0,
                        grid_origin_y = 0, grid_data = []\<rparr>,
      traffic_lights = []\<rparr>"

record perception_frame =
  pcf_stamp_ns :: i64
  pcf_seq :: u64
  pcf_surrounding_objects :: "surrounding_object list"
  pcf_points_cloud :: "local_coord list"
  pcf_occupancy_grid :: occupancy_grid
  pcf_traffic_lights :: "traffic_light list"

definition perception_buildFrame :: "u64 \<Rightarrow> i64 \<Rightarrow> perception_state \<Rightarrow> perception_frame" where
  "perception_buildFrame sq stamp s =
     \<lparr>pcf_stamp_ns = stamp, pcf_seq = sq, pcf_surrounding_objects = surrounding_objects s,
      pcf_points_cloud = points_cloud s, pcf_occupancy_grid = occupancy_grid s,
      pcf_traffic_lights = traffic_lights s\<rparr>"

section \<open>Conversions\<close>

fun toObjectClass :: "object_label \<Rightarrow> object_class" where
  "toObjectClass OC_CAR = CLASS_CAR"
| "toObjectClass OC_TRUCK = CLASS_TRUCK"
| "toObjectClass OC_BUS = CLASS_BUS"
| "toObjectClass OC_TRAILER = CLASS_TRAILER"
| "toObjectClass OC_MOTORCYCLE = CLASS_MOTORCYCLE"
| "toObjectClass OC_BICYCLE = CLASS_BICYCLE"
| "toObjectClass OC_PEDESTRIAN = CLASS_PEDESTRIAN"
| "toObjectClass OC_ANIMAL = CLASS_ANIMAL"
| "toObjectClass (OC_OTHER v) = CLASS_UNKNOWN"

fun toTrafficLightColor :: "light_color \<Rightarrow> frame_light_color" where
  "toTrafficLightColor TLE_RED = TRAFFIC_LIGHT_RED"
| "toTrafficLightColor TLE_AMBER = TRAFFIC_LIGHT_AMBER"
| "toTrafficLightColor TLE_GREEN = TRAFFIC_LIGHT_GREEN"
| "toTrafficLightColor (TLE_OTHER v) = TRAFFIC_LIGHT_UNKNOWN"

text \<open>The yaw of a quaternion (x, y, z, w).\<close>

definition heading :: "real \<times> real \<times> real \<times> real \<Rightarrow> real" where
  "heading h = (case h of (x, y, z, w) \<Rightarrow> atan2 (2 * (w * z + x * y)) (1 - 2 * (y * y + z * z)))"

section \<open>Handlers\<close>

definition convert_object :: "u32 \<Rightarrow> predicted_object \<Rightarrow> object_label \<Rightarrow> surrounding_object" where
  "convert_object i ob label =
     \<lparr>sob_id = i, sob_class = toObjectClass label, sob_length = pos_x (dimensions ob),
      sob_height = pos_z (dimensions ob), sob_width = pos_y (dimensions ob),
      sob_velocity = object_twist ob, sob_heading = heading (object_orientation ob),
      sob_pose = object_position ob\<rparr>"

definition add_object :: "predicted_object \<Rightarrow> surrounding_object list \<Rightarrow> surrounding_object list" where
  "add_object ob acc =
     (case classification ob of
        [] \<Rightarrow> acc
      | label # _ \<Rightarrow>
          if existence_probability ob < 1 / 2 then acc
          else acc @ [convert_object (of_nat (length acc)) ob label])"

definition onSurroundingObjectImpl :: "predicted_object list \<Rightarrow> perception_state \<Rightarrow> perception_state" where
  "onSurroundingObjectImpl objects s = s\<lparr>surrounding_objects := fold add_object objects []\<rparr>"

definition add_point :: "cloud_point \<Rightarrow> local_coord list \<Rightarrow> local_coord list" where
  "add_point p acc =
     (case p of
        (Some x, Some y, Some z) \<Rightarrow> acc @ [\<lparr>pos_x = x, pos_y = y, pos_z = z\<rparr>]
      | _ \<Rightarrow> acc)"

definition onPointCloudImpl :: "('c \<Rightarrow> cloud_point list) \<Rightarrow> 'c \<Rightarrow> perception_state \<Rightarrow> perception_state" where
  "onPointCloudImpl downsample msg s = s\<lparr>points_cloud := fold add_point (downsample msg) []\<rparr>"

definition cell_of :: "u8 \<Rightarrow> cell_state" where
  "cell_of cell = (if sint cell = - 1 then CELL_UNKNOWN else if sint cell < 50 then CELL_FREE else CELL_OCCUPIED)"

definition onOccupancyGridImpl :: "occupancy_msg \<Rightarrow> perception_state \<Rightarrow> perception_state" where
  "onOccupancyGridImpl msg s =
     s\<lparr>occupancy_grid :=
        \<lparr>grid_resolution = og_resolution msg, grid_width = og_width msg, grid_height = og_height msg,
         grid_origin_x = pos_x (og_origin msg), grid_origin_y = pos_y (og_origin msg),
         grid_data = map cell_of (og_data msg)\<rparr>\<rparr>"

text \<open>\<open>std::ranges::max_element\<close> on a list that is not empty.\<close>

definition max_element :: "light_element \<Rightarrow> light_element list \<Rightarrow> light_element" where
  "max_element e es = fold (\<lambda>x best. if el_confidence best < el_confidence x then x else best) es e"

definition add_light :: "light_group \<Rightarrow> traffic_light list \<Rightarrow> traffic_light list" where
  "add_light g acc =
     (case elements g of
        [] \<Rightarrow> acc
      | e # es \<Rightarrow>
          let m = max_element e es
          in acc @ [\<lparr>tl_id = traffic_light_group_id g, tl_confidence = el_confidence m,
                     tl_color = toTrafficLightColor (el_color m)\<rparr>])"

definition onTrafficSignalImpl :: "light_group list \<Rightarrow> perception_state \<Rightarrow> perception_state" where
  "onTrafficSignalImpl groups s = s\<lparr>traffic_lights := fold add_light groups []\<rparr>"

fun perception_apply :: "('c \<Rightarrow> cloud_point list) \<Rightarrow> 'c perception_msg \<Rightarrow> perception_state \<Rightarrow> perception_state" where
  "perception_apply downsample (SurroundingObjects obs) s = onSurroundingObjectImpl obs s"
| "perception_apply downsample (PointCloud msg) s = onPointCloudImpl downsample msg s"
| "perception_apply downsample (OccupancyMsg msg) s = onOccupancyGridImpl msg s"
| "perception_apply downsample (TrafficSignal gs) s = onTrafficSignalImpl gs s"

text \<open>The subscription each message comes from.\<close>

fun perception_topic :: "'c perception_msg \<Rightarrow> string" where
  "perception_topic (SurroundingObjects obs) = ''/perception/object_recognition/objects''"
| "perception_topic (PointCloud msg) = ''/perception/obstacle_segmentation/pointcloud''"
| "perception_topic (OccupancyMsg msg) = ''/perception/occupancy_grid_map/map''"
| "perception_topic (TrafficSignal gs) = ''/perception/traffic_light_recognition/traffic_signals''"

section \<open>The bridge\<close>

type_synonym perception_bridge = "(perception_state, perception_frame) bridge"

definition perception_onTick :: "i64 \<Rightarrow> perception_bridge \<Rightarrow> perception_bridge" where
  "perception_onTick = onTick_with (\<lambda>_ s. s) (\<lambda>_. True) perception_buildFrame"

definition perception_step ::
  "('c \<Rightarrow> cloud_point list) \<Rightarrow> ('c perception_msg, i64) loop_event \<Rightarrow> perception_bridge \<Rightarrow> exn + perception_bridge" where
  "perception_step downsample = loop_step (perception_apply downsample) perception_onTick"

interpretation perception: topic_store "perception_apply downsample" perception_topic for downsample
proof unfold_locales
  show "perception_topic m = perception_topic m' \<Longrightarrow>
      perception_apply downsample m' (perception_apply downsample m s) = perception_apply downsample m' s" for m m' s
    by (cases m; cases m')
       (simp_all add: onSurroundingObjectImpl_def onPointCloudImpl_def onOccupancyGridImpl_def onTrafficSignalImpl_def)
  show "perception_topic m \<noteq> perception_topic m' \<Longrightarrow>
      perception_apply downsample m' (perception_apply downsample m s) =
      perception_apply downsample m (perception_apply downsample m' s)" for m m' s
    by (cases m; cases m')
       (simp_all add: onSurroundingObjectImpl_def onPointCloudImpl_def onOccupancyGridImpl_def onTrafficSignalImpl_def)
qed

section \<open>The loops\<close>

definition kept :: "predicted_object \<Rightarrow> bool" where
  "kept ob \<longleftrightarrow> classification ob \<noteq> [] \<and> 1 / 2 \<le> existence_probability ob"

text \<open>The object loop converts the kept objects in order and numbers them from 0.\<close>

lemma add_object_loop:
  "fold add_object obs acc =
     acc @ map (\<lambda>(i, ob). convert_object (of_nat i) ob (hd (classification ob)))
             (zip [length acc..<length acc + length (filter kept obs)] (filter kept obs))"
proof (induction obs arbitrary: acc)
  case (Cons ob obs)
  show ?case
  proof (cases "kept ob")
    case True
    then obtain l ls where "classification ob = l # ls" "\<not> existence_probability ob < 1 / 2"
      by (auto simp: kept_def neq_Nil_conv)
    moreover have "[length acc..<length acc + Suc (length (filter kept obs))] =
        length acc # [Suc (length acc)..<Suc (length acc) + length (filter kept obs)]"
      by (simp add: upt_conv_Cons del: upt_Suc)
    ultimately show ?thesis
      using True Cons.IH [of "acc @ [convert_object (of_nat (length acc)) ob l]"]
      by (simp add: add_object_def del: upt_Suc)
  next
    case False
    then have "add_object ob acc = acc" by (auto simp: kept_def add_object_def split: list.splits)
    with False Cons.IH show ?thesis by simp
  qed
qed simp

lemma add_point_loop:
  "fold add_point ps acc =
     acc @ map (\<lambda>(x, y, z). \<lparr>pos_x = the x, pos_y = the y, pos_z = the z\<rparr>)
             (filter (\<lambda>(x, y, z). x \<noteq> None \<and> y \<noteq> None \<and> z \<noteq> None) ps)"
  by (induction ps arbitrary: acc) (auto simp: add_point_def split: option.splits prod.splits)

text \<open>\<open>max_element\<close> finds the first of the elements with the greatest confidence.\<close>

lemma max_element_first:
  "\<exists>us vs. e # es = us @ max_element e es # vs \<and>
     (\<forall>x \<in> set us. el_confidence x < el_confidence (max_element e es)) \<and>
     (\<forall>x \<in> set vs. el_confidence x \<le> el_confidence (max_element e es))"
proof (induction es rule: rev_induct)
  case Nil
  show ?case by (rule exI [of _ "[]"]) (simp add: max_element_def)
next
  case (snoc x es)
  let ?m = "max_element e es"
  obtain us vs where uv: "e # es = us @ ?m # vs" "\<forall>x \<in> set us. el_confidence x < el_confidence ?m"
    "\<forall>x \<in> set vs. el_confidence x \<le> el_confidence ?m"
    using snoc by blast
  have eq: "max_element e (es @ [x]) = (if el_confidence ?m < el_confidence x then x else ?m)"
    by (simp add: max_element_def)
  show ?case
  proof (cases "el_confidence ?m < el_confidence x")
    case True
    have "el_confidence y < el_confidence x" if "y \<in> set (e # es)" for y
      using uv that True unfolding uv(1) by fastforce
    with True eq show ?thesis by (intro exI [of _ "e # es"] exI [of _ "[]"]) simp
  next
    case False
    with eq uv show ?thesis by (intro exI [of _ us] exI [of _ "vs @ [x]"]) auto
  qed
qed

lemma add_light_loop:
  "fold add_light gs acc =
     acc @ map (\<lambda>g. let m = max_element (hd (elements g)) (tl (elements g))
                     in \<lparr>tl_id = traffic_light_group_id g, tl_confidence = el_confidence m,
                         tl_color = toTrafficLightColor (el_color m)\<rparr>)
             (filter (\<lambda>g. elements g \<noteq> []) gs)"
  by (induction gs arbitrary: acc) (auto simp: add_light_def Let_def split: list.splits)

end
