(* ===== verification/TripBridge.thy ===== *)
theory TripBridge
  imports SensorMessages FrameLoop TripTypes
begin

text \<open>
  \<open>TripBridge.cc\<close>: the trip as the display sees it. Five subscriptions; each tick first checks
  the heartbeat's age and copies the trip controller's status, read through
  \<open>getTripStatusSync\<close>, into \<open>TripFrameState\<close>.
\<close>

section \<open>Messages\<close>

record diag_msg =
  hardware_id :: string
  diag_level :: u8
  diag_message :: string

text \<open>\<open>HeartbeatMsg\<close> carries the clock reading of its handler, in nanoseconds.\<close>

datatype trip_msg =
    LocalizationStateMsg loc_init_state
  | OperationModeMsg operation_mode_value
  | TripMrmState mrm_state_value mrm_behavior_value
  | HeartbeatMsg time_point
  | DiagStateMsg "diag_msg list"

section \<open>State and frame\<close>

datatype localization_state =
    LOCALIZATION_STATE_UNKNOWN
  | LOCALIZATION_STATE_UNINITIALIZED
  | LOCALIZATION_STATE_INITIALIZING
  | LOCALIZATION_STATE_INITIALIZED

datatype operation_mode =
    OPERATION_MODE_UNKNOWN
  | OPERATION_MODE_STOP
  | OPERATION_MODE_AUTONOMOUS
  | OPERATION_MODE_LOCAL
  | OPERATION_MODE_REMOTE

datatype diag_level_value =
    DIAG_OK
  | DIAG_WARN
  | DIAG_ERROR
  | DIAG_STALE

datatype frame_trip_state =
    TRIP_IDLE
  | TRIP_PUBLISHING_INITIAL_POSE
  | TRIP_WAITING_LOCALISATION
  | TRIP_PUBLISHING_GOAL
  | TRIP_WAITING_ROUTE
  | TRIP_ENGAGING
  | TRIP_RUNNING
  | TRIP_COMPLETED
  | TRIP_FAILED

record component_health =
  ch_name :: string
  ch_level :: diag_level_value
  ch_message :: string

text \<open>\<open>last_heartbeat_time\<close> is a member of the bridge beside its \<open>TripFrameState\<close>.\<close>

record trip_frame_state =
  localization_state :: localization_state
  operation_mode :: operation_mode
  mrm_state :: "bool \<times> mrm_behavior \<times> string"
  system_alive :: bool
  components :: "component_health list"
  ts_trip_state :: frame_trip_state
  ts_start_lanelet_id :: string
  ts_start :: local_coord
  ts_goal_lanelet_id :: string
  ts_goal :: local_coord
  ts_goal_distance_m :: real
  last_heartbeat_time :: time_point

definition new_trip_frame_state :: "time_point \<Rightarrow> trip_frame_state" where
  "new_trip_frame_state now =
     \<lparr>localization_state = LOCALIZATION_STATE_UNKNOWN, operation_mode = OPERATION_MODE_UNKNOWN,
      mrm_state = (False, MRM_NONE, []), system_alive = False, components = [], ts_trip_state = TRIP_IDLE,
      ts_start_lanelet_id = [], ts_start = \<lparr>pos_x = 0, pos_y = 0, pos_z = 0\<rparr>, ts_goal_lanelet_id = [],
      ts_goal = \<lparr>pos_x = 0, pos_y = 0, pos_z = 0\<rparr>, ts_goal_distance_m = 0, last_heartbeat_time = now\<rparr>"

record trip_frame =
  tf_stamp_ns :: i64
  tf_seq :: u64
  tf_localization_state :: localization_state
  tf_operation_mode :: operation_mode
  tf_mrm_state :: "bool \<times> mrm_behavior \<times> string"
  tf_system_alive :: bool
  tf_component_health :: "component_health list"
  tf_trip_state :: frame_trip_state
  tf_start_lanelet_id :: string
  tf_start :: local_coord
  tf_goal_lanelet_id :: string
  tf_goal :: local_coord
  tf_goal_distance_m :: real

text \<open>What a tick reads: the ROS clock, the controller's status, and the frame's time stamp.\<close>

record trip_tick_input =
  ros_now :: time_point
  trip_status_now :: trip_status
  stamp_now :: i64

definition trip_buildFrame :: "u64 \<Rightarrow> trip_tick_input \<Rightarrow> trip_frame_state \<Rightarrow> trip_frame" where
  "trip_buildFrame sq i s =
     \<lparr>tf_stamp_ns = stamp_now i, tf_seq = sq, tf_localization_state = localization_state s,
      tf_operation_mode = operation_mode s, tf_mrm_state = mrm_state s, tf_system_alive = system_alive s,
      tf_component_health = components s, tf_trip_state = ts_trip_state s,
      tf_start_lanelet_id = ts_start_lanelet_id s, tf_start = ts_start s,
      tf_goal_lanelet_id = ts_goal_lanelet_id s, tf_goal = ts_goal s,
      tf_goal_distance_m = ts_goal_distance_m s\<rparr>"

section \<open>Conversions\<close>

fun toLocalizationState :: "loc_init_state \<Rightarrow> localization_state" where
  "toLocalizationState LS_UNINITIALIZED = LOCALIZATION_STATE_UNINITIALIZED"
| "toLocalizationState LS_INITIALIZING = LOCALIZATION_STATE_INITIALIZING"
| "toLocalizationState LS_INITIALIZED = LOCALIZATION_STATE_INITIALIZED"
| "toLocalizationState (LS_OTHER v) = LOCALIZATION_STATE_UNKNOWN"

fun toOperationMode :: "operation_mode_value \<Rightarrow> operation_mode" where
  "toOperationMode OM_STOP = OPERATION_MODE_STOP"
| "toOperationMode OM_AUTONOMOUS = OPERATION_MODE_AUTONOMOUS"
| "toOperationMode OM_LOCAL = OPERATION_MODE_LOCAL"
| "toOperationMode OM_REMOTE = OPERATION_MODE_REMOTE"
| "toOperationMode (OM_OTHER v) = OPERATION_MODE_UNKNOWN"

definition toDiagLevel :: "u8 \<Rightarrow> diag_level_value" where
  "toDiagLevel v = (if v = 0 then DIAG_OK else if v = 1 then DIAG_WARN else if v = 2 then DIAG_ERROR else DIAG_STALE)"

fun toMrmBehavior :: "mrm_behavior_value \<Rightarrow> mrm_behavior" where
  "toMrmBehavior MRM_BEHAVIOR_EMERGENCY_STOP = MRM_EMERGENCY_STOP"
| "toMrmBehavior MRM_BEHAVIOR_PULL_OVER = MRM_PULL_OVER"
| "toMrmBehavior (MRM_BEHAVIOR_OTHER v) = MRM_NONE"

fun toTripState :: "trip_state \<Rightarrow> frame_trip_state" where
  "toTripState IDLE = TRIP_IDLE"
| "toTripState PUBLISHING_INITIAL_POSE = TRIP_PUBLISHING_INITIAL_POSE"
| "toTripState WAITING_LOCALISATION = TRIP_WAITING_LOCALISATION"
| "toTripState QUERY_PUBLISHING_GOAL = TRIP_PUBLISHING_GOAL"
| "toTripState QUERY_WAITING_ROUTE = TRIP_WAITING_ROUTE"
| "toTripState ENGAGING = TRIP_ENGAGING"
| "toTripState RUNNING = TRIP_RUNNING"
| "toTripState COMPLETED = TRIP_COMPLETED"
| "toTripState FAILED = TRIP_FAILED"
| "toTripState _ = TRIP_IDLE"

section \<open>Handlers\<close>

definition onLocalizationStateImpl :: "loc_init_state \<Rightarrow> trip_frame_state \<Rightarrow> trip_frame_state" where
  "onLocalizationStateImpl v s = s\<lparr>localization_state := toLocalizationState v\<rparr>"

definition onOperationModeImpl :: "operation_mode_value \<Rightarrow> trip_frame_state \<Rightarrow> trip_frame_state" where
  "onOperationModeImpl v s = s\<lparr>operation_mode := toOperationMode v\<rparr>"

definition onMrmStateImpl :: "mrm_state_value \<Rightarrow> mrm_behavior_value \<Rightarrow> trip_frame_state \<Rightarrow> trip_frame_state" where
  "onMrmStateImpl state behavior s =
     s\<lparr>mrm_state := (mrm_active state, toMrmBehavior behavior, mrm_description state)\<rparr>"

definition onHeartbeatImpl :: "time_point \<Rightarrow> trip_frame_state \<Rightarrow> trip_frame_state" where
  "onHeartbeatImpl now s = s\<lparr>last_heartbeat_time := now, system_alive := True\<rparr>"

fun add_health :: "diag_msg list \<Rightarrow> component_health list \<Rightarrow> component_health list" where
  "add_health [] acc = acc"
| "add_health (d # ds) acc =
     (if hardware_id d = [] then add_health ds acc
      else add_health ds
             (acc @ [\<lparr>ch_name = hardware_id d, ch_level = toDiagLevel (diag_level d), ch_message = diag_message d\<rparr>]))"

definition onDiagStateImpl :: "diag_msg list \<Rightarrow> trip_frame_state \<Rightarrow> trip_frame_state" where
  "onDiagStateImpl diags s = s\<lparr>components := add_health diags []\<rparr>"

fun trip_apply :: "trip_msg \<Rightarrow> trip_frame_state \<Rightarrow> trip_frame_state" where
  "trip_apply (LocalizationStateMsg v) s = onLocalizationStateImpl v s"
| "trip_apply (OperationModeMsg v) s = onOperationModeImpl v s"
| "trip_apply (TripMrmState st b) s = onMrmStateImpl st b s"
| "trip_apply (HeartbeatMsg now) s = onHeartbeatImpl now s"
| "trip_apply (DiagStateMsg ds) s = onDiagStateImpl ds s"

text \<open>The subscription each message comes from.\<close>

fun trip_topic :: "trip_msg \<Rightarrow> string" where
  "trip_topic (LocalizationStateMsg v) = ''/api/localization/initialization_state''"
| "trip_topic (OperationModeMsg v) = ''/api/operation_mode/state''"
| "trip_topic (TripMrmState st b) = ''/api/fail_safe/mrm_state''"
| "trip_topic (HeartbeatMsg now) = ''/api/system/heartbeat''"
| "trip_topic (DiagStateMsg ds) = ''/diagnostics_graph/status''"

section \<open>The bridge\<close>

text \<open>What \<open>onTick\<close> refreshes before it builds the frame.\<close>

definition trip_refresh :: "trip_tick_input \<Rightarrow> trip_frame_state \<Rightarrow> trip_frame_state" where
  "trip_refresh i s =
     (let dur = ros_now i - last_heartbeat_time s; st = trip_status_now i
      in s\<lparr>system_alive := dur < 1000000000,
           ts_trip_state := toTripState (st_state st),
           ts_start_lanelet_id := start_lanelet_id st,
           ts_start := \<lparr>pos_x = start_x st, pos_y = start_y st, pos_z = start_z st\<rparr>,
           ts_goal_lanelet_id := goal_lanelet_id st,
           ts_goal := \<lparr>pos_x = goal_x st, pos_y = goal_y st, pos_z = goal_z st\<rparr>,
           ts_goal_distance_m := goal_distance_m st\<rparr>)"

type_synonym trip_bridge = "(trip_frame_state, trip_frame) bridge"

definition trip_onTick :: "trip_tick_input \<Rightarrow> trip_bridge \<Rightarrow> trip_bridge" where
  "trip_onTick = onTick_with trip_refresh (\<lambda>_. True) trip_buildFrame"

definition trip_step :: "(trip_msg, trip_tick_input) loop_event \<Rightarrow> trip_bridge \<Rightarrow> exn + trip_bridge" where
  "trip_step = loop_step trip_apply trip_onTick"

lemmas trip_handlers =
  onLocalizationStateImpl_def onOperationModeImpl_def onMrmStateImpl_def onHeartbeatImpl_def onDiagStateImpl_def

interpretation trip: topic_store trip_apply trip_topic
proof unfold_locales
  show "trip_topic m = trip_topic m' \<Longrightarrow> trip_apply m' (trip_apply m s) = trip_apply m' s" for m m' s
    by (cases m; cases m') (simp_all add: trip_handlers)
  show "trip_topic m \<noteq> trip_topic m' \<Longrightarrow> trip_apply m' (trip_apply m s) = trip_apply m (trip_apply m' s)" for m m' s
    by (cases m; cases m') (simp_all add: trip_handlers)
qed

section \<open>Lemmas\<close>

lemma add_health_eq:
  "add_health ds acc =
     acc @ map (\<lambda>d. \<lparr>ch_name = hardware_id d, ch_level = toDiagLevel (diag_level d), ch_message = diag_message d\<rparr>)
             (filter (\<lambda>d. hardware_id d \<noteq> []) ds)"
  by (induction ds acc rule: add_health.induct) auto

end
