(* ===== verification/LocationBridge.thy ===== *)
theory LocationBridge
  imports SensorMessages FrameLoop
begin

text \<open>
  \<open>LocationBridge.cc\<close>: the vehicle's position, once a second, while streaming is switched on.
  \<open>onTick\<close> asks a provider for the position and publishes a JSON object; the \<open>LocationFrame\<close> it
  builds only advances the counter.
\<close>

record location_state =
  current_lat :: real
  current_lon :: real
  streaming_enabled :: bool

definition new_location_state :: location_state where
  "new_location_state = \<lparr>current_lat = 0, current_lon = 0, streaming_enabled = False\<rparr>"

text \<open>The providers' answers when a tick runs; each provider may be absent.\<close>

record location_input =
  gps_provider :: "(real \<times> real) option option"
  trip_id_provider :: "i64 option"

record location_json =
  js_latitude :: real
  js_longitude :: real
  js_trip_id :: i64

definition location_refresh :: "location_input \<Rightarrow> location_state \<Rightarrow> location_state" where
  "location_refresh i s =
     (case gps_provider i of
        None \<Rightarrow> s
      | Some gps \<Rightarrow>
          (case gps of None \<Rightarrow> s | Some (lat, lon) \<Rightarrow> s\<lparr>current_lat := lat, current_lon := lon\<rparr>))"

definition location_broadcast :: "u64 \<Rightarrow> location_input \<Rightarrow> location_state \<Rightarrow> location_json" where
  "location_broadcast sq i s =
     \<lparr>js_latitude = current_lat s, js_longitude = current_lon s,
      js_trip_id = (case trip_id_provider i of None \<Rightarrow> 0 | Some t \<Rightarrow> t)\<rparr>"

text \<open>The only message is the posted \<open>setStreamingEnabled\<close>.\<close>

definition setStreamingEnabled :: "bool \<Rightarrow> location_state \<Rightarrow> location_state" where
  "setStreamingEnabled enabled s = s\<lparr>streaming_enabled := enabled\<rparr>"

type_synonym location_bridge = "(location_state, location_json) bridge"

definition location_onTick :: "location_input \<Rightarrow> location_bridge \<Rightarrow> location_bridge" where
  "location_onTick = onTick_with location_refresh streaming_enabled location_broadcast"

definition location_step :: "(bool, location_input) loop_event \<Rightarrow> location_bridge \<Rightarrow> exn + location_bridge" where
  "location_step = loop_step setStreamingEnabled location_onTick"

text \<open>The two providers \<open>AutowareApp.cpp\<close> installs, over the controller's position and the active trip.\<close>

definition app_gps_provider :: "gps_coord \<Rightarrow> (real \<times> real) option" where
  "app_gps_provider g = (if latitude g = 0 \<and> longitude g = 0 then None else Some (latitude g, longitude g))"

interpretation location: topic_store setStreamingEnabled "\<lambda>_. ()"
  by unfold_locales (simp_all add: setStreamingEnabled_def)

end
