(* ===== verification/BridgeProperties.thy ===== *)
theory BridgeProperties
  imports ClusterBridge PlanningBridge PerceptionBridge TripBridge LocationBridge
begin

text \<open>
  Properties of the publishing bridges. The laws of topics come from the interpretations of the
  locale of \<open>FrameLoop\<close>; what a frame says of its message comes from the loops of each bridge.
\<close>

section \<open>Runs of a bridge\<close>

text \<open>The messages among the events of a run.\<close>

fun messages :: "('m, 'i) loop_event list \<Rightarrow> 'm list" where
  "messages [] = []"
| "messages (LMessage m # es) = m # messages es"
| "messages (_ # es) = messages es"

text \<open>What a run leaves in a part of the state that no tick touches.\<close>

lemma part_run:
  assumes "\<And>m s. h (apply_msg m s) = upd m (h s)" "\<And>i b. h (bridge_state (tick i b)) = h (bridge_state b)"
    "run (loop_step apply_msg tick) es b = Inr b'"
  shows "h (bridge_state b') = fold upd (messages es) (h (bridge_state b))"
  using assms(3)
proof (induction es arbitrary: b)
  case (Cons e es)
  then obtain t where t: "loop_step apply_msg tick e b = Inr t" "run (loop_step apply_msg tick) es t = Inr b'"
    by (auto split: sum.splits)
  have "h (bridge_state t) = fold upd (messages [e]) (h (bridge_state b))"
    using t(1) assms(1,2) by (cases e) (auto simp: scheduleNextTick_def loop_cancel_def split: if_splits)
  with Cons.IH [OF t(2)] show ?case by (cases e) simp_all
qed simp

lemma cluster_run_state:
  "run cluster_step es b = Inr b' \<Longrightarrow> bridge_state b' = fold cluster_apply (messages es) (bridge_state b)"
  unfolding cluster_step_def
  by (rule part_run [where h = "\<lambda>s. s"]) (simp_all add: cluster_onTick_def)

lemma location_run_streaming:
  "run location_step es b = Inr b' \<Longrightarrow>
     streaming_enabled (bridge_state b') = last (streaming_enabled (bridge_state b) # messages es)"
proof -
  assume "run location_step es b = Inr b'"
  then have "streaming_enabled (bridge_state b') = fold (\<lambda>m _. m) (messages es) (streaming_enabled (bridge_state b))"
    unfolding location_step_def
    by (intro part_run [where h = streaming_enabled])
       (simp_all add: setStreamingEnabled_def location_onTick_def location_refresh_def split: option.splits)
  moreover have "fold (\<lambda>m _. m) ms x = last (x # ms)" for ms :: "bool list" and x
    by (induction ms arbitrary: x) auto
  ultimately show ?thesis by simp
qed

text \<open>The clock readings of the heartbeats, and the diagnostics, among the trip bridge's messages.\<close>

definition beats :: "trip_msg list \<Rightarrow> time_point list" where
  "beats ms = concat (map (\<lambda>m. case m of HeartbeatMsg t \<Rightarrow> [t] | _ \<Rightarrow> []) ms)"

definition diag_reports :: "trip_msg list \<Rightarrow> diag_msg list list" where
  "diag_reports ms = concat (map (\<lambda>m. case m of DiagStateMsg ds \<Rightarrow> [ds] | _ \<Rightarrow> []) ms)"

lemma trip_run_heartbeat:
  assumes "run trip_step es b = Inr b'"
  shows "last_heartbeat_time (bridge_state b') = last (last_heartbeat_time (bridge_state b) # beats (messages es))"
proof -
  have "last_heartbeat_time (bridge_state b') =
      fold (\<lambda>m t. last (t # beats [m])) (messages es) (last_heartbeat_time (bridge_state b))"
  proof (rule part_run [OF _ _ assms [unfolded trip_step_def]])
    show "last_heartbeat_time (trip_apply m s) = last (last_heartbeat_time s # beats [m])" for m s
      by (cases m) (simp_all add: beats_def trip_handlers)
    show "last_heartbeat_time (bridge_state (trip_onTick i c)) = last_heartbeat_time (bridge_state c)" for i c
      by (simp add: trip_onTick_def trip_refresh_def Let_def)
  qed
  moreover have "fold (\<lambda>m t. last (t # beats [m])) ms t = last (t # beats ms)" for ms t
    by (induction ms arbitrary: t) (simp_all add: beats_def split: trip_msg.splits)
  ultimately show ?thesis by simp
qed

lemma trip_run_components:
  assumes "run trip_step es b = Inr b'"
  shows "components (bridge_state b') =
    last (components (bridge_state b) # map (\<lambda>ds. add_health ds []) (diag_reports (messages es)))"
proof -
  have "components (bridge_state b') =
      fold (\<lambda>m cs. last (cs # map (\<lambda>ds. add_health ds []) (diag_reports [m]))) (messages es) (components (bridge_state b))"
  proof (rule part_run [OF _ _ assms [unfolded trip_step_def]])
    show "components (trip_apply m s) = last (components s # map (\<lambda>ds. add_health ds []) (diag_reports [m]))" for m s
      by (cases m) (simp_all add: diag_reports_def trip_handlers)
    show "components (bridge_state (trip_onTick i c)) = components (bridge_state c)" for i c
      by (simp add: trip_onTick_def trip_refresh_def Let_def)
  qed
  moreover have "fold (\<lambda>m cs. last (cs # map (\<lambda>ds. add_health ds []) (diag_reports [m]))) ms cs =
      last (cs # map (\<lambda>ds. add_health ds []) (diag_reports ms))" for ms cs
    by (induction ms arbitrary: cs) (simp_all add: diag_reports_def split: trip_msg.splits)
  ultimately show ?thesis by simp
qed

section \<open>Frames\<close>

text \<open>
  C25. The instrument frames of a run are numbered from 0 in the order they are published, modulo
  \<open>2 ^ 64\<close>, and a tick publishes what the latest message of each topic says: after two runs from
  the same bridge in which every topic has the same latest message, the next frames differ at
  most in their numbers and time stamps.
\<close>

theorem cluster_frames:
  assumes "run cluster_step es (new_bridge new_frame_state) = Inr b1"
    "run cluster_step fs (new_bridge new_frame_state) = Inr b2"
    "\<And>topic. latest_of cluster_topic topic (messages es) = latest_of cluster_topic topic (messages fs)"
  shows "(\<forall>i < length (frames b1). vf_seq (frames b1 ! i) = of_nat i) \<and>
    vf_seq (last (frames (cluster_onTick stamp b1))) = of_nat (length (frames b1)) \<and>
    last (frames (cluster_onTick stamp b1)) =
      (last (frames (cluster_onTick stamp b2)))\<lparr>vf_seq := of_nat (length (frames b1))\<rparr>"
proof -
  have seq: "vf_seq (cluster_buildFrame q i s) = q" for q i s by (simp add: cluster_buildFrame_def)
  have num: "numbered vf_seq b1"
    by (rule numbered_run [of vf_seq cluster_buildFrame, OF seq numbered_new assms(1) [unfolded cluster_step_def cluster_onTick_def]])
  have "bridge_state b1 = bridge_state b2"
    using cluster_run_state [OF assms(1)] cluster_run_state [OF assms(2)] cluster.latest_determines [OF assms(3)]
    by (simp add: new_bridge_def)
  with num show ?thesis
    by (simp add: numbered_def cluster_onTick_def onTick_with_frames cluster_buildFrame_def)
qed

theorem cluster_frames_witness:
  "\<exists>b1 b2. run cluster_step [LStart, LMessage (Gear GR_PARK), LExpire, LHandler 1, LMessage (Gear GR_DRIVE), LMessage (Velocity 5)]
       (new_bridge new_frame_state) = Inr b1 \<and>
     run cluster_step [LMessage (Velocity 5), LMessage (Gear GR_DRIVE)] (new_bridge new_frame_state) = Inr b2 \<and>
     vf_seq (last (frames (cluster_onTick 3 b1))) = 1 \<and>
     last (frames (cluster_onTick 3 b1)) = (last (frames (cluster_onTick 3 b2)))\<lparr>vf_seq := 1\<rparr>"
proof -
  let ?es = "[LStart, LMessage (Gear GR_PARK), LExpire, LHandler 1, LMessage (Gear GR_DRIVE), LMessage (Velocity 5)]"
  let ?fs = "[LMessage (Velocity 5), LMessage (Gear GR_DRIVE)]"
  obtain b1 b2 where b: "run cluster_step ?es (new_bridge new_frame_state) = Inr b1"
      "run cluster_step ?fs (new_bridge new_frame_state) = Inr b2"
    by (simp add: cluster_step_def)
  have l: "length (frames b1) = 1"
    using b(1) by (auto simp: cluster_step_def new_bridge_def scheduleNextTick_def cluster_onTick_def onTick_with_def
        Let_def)
  have "latest_of cluster_topic t (messages ?es) = latest_of cluster_topic t (messages ?fs)" for t
    by (auto simp: latest_of_def)
  from cluster_frames [OF b this, of 3] l b show ?thesis by auto
qed

text \<open>
  What a frame says of an object message: the pedestrians and vehicles among the classified
  objects are counted modulo \<open>2 ^ 32\<close>, whatever their probability, the surrounding objects are
  the classified ones of probability at least one half, in order, and the obstacle count, kept in
  the state, is never put into the frame.
\<close>

theorem cluster_objects:
  "let s = cluster_apply (Objects obs) before; f = cluster_buildFrame q stamp s;
       known = filter classified obs
   in adas_pedestrian_count (vf_adas f) = of_nat (length (filter (\<lambda>ob. hd (classification ob) = OC_PEDESTRIAN) known)) \<and>
      adas_vehicle_count (vf_adas f) = of_nat (length (filter (\<lambda>ob. is_vehicle (hd (classification ob))) known)) \<and>
      obstacle_count s = of_nat (length known) \<and> adas_obstacle_count (vf_adas f) = 0 \<and>
      vf_surround_objects f =
        map (\<lambda>ob. surround ob (hd (classification ob))) (filter (\<lambda>ob. 1 / 2 \<le> existence_probability ob) known)"
  by (simp add: cluster_handler_defs fold_count_object surround_loop_eq cluster_buildFrame_def filter_filter conj_commute
      Let_def)

text \<open>
  C37. What a perception frame says of its messages: the objects that are classified and at least
  as likely as not, in order, numbered from 0; and for each traffic light group that has elements
  one light of the group's identifier with the confidence and colour of an element of the group
  no other element is more confident than.
\<close>

theorem perception_frame_content:
  "let s = perception_apply down (TrafficSignal gs) (perception_apply down (SurroundingObjects obs) before);
       f = perception_buildFrame q stamp s; objs = filter PerceptionBridge.kept obs; lit = filter (\<lambda>g. elements g \<noteq> []) gs
   in length (pcf_surrounding_objects f) = length objs \<and>
      (\<forall>i < length objs. pcf_surrounding_objects f ! i =
         convert_object (of_nat i) (objs ! i) (hd (classification (objs ! i)))) \<and>
      length (pcf_traffic_lights f) = length lit \<and>
      (\<forall>i < length lit. tl_id (pcf_traffic_lights f ! i) = traffic_light_group_id (lit ! i) \<and>
         (\<exists>e \<in> set (elements (lit ! i)). tl_confidence (pcf_traffic_lights f ! i) = el_confidence e \<and>
            tl_color (pcf_traffic_lights f ! i) = toTrafficLightColor (el_color e) \<and>
            (\<forall>x \<in> set (elements (lit ! i)). el_confidence x \<le> el_confidence e)))"
proof -
  have top: "max_element (hd es) (tl es) \<in> set es \<and>
      (\<forall>x \<in> set es. el_confidence x \<le> el_confidence (max_element (hd es) (tl es)))" if ne: "es \<noteq> []" for es
  proof -
    obtain us vs where "es = us @ max_element (hd es) (tl es) # vs"
      "\<forall>x \<in> set us. el_confidence x < el_confidence (max_element (hd es) (tl es))"
      "\<forall>x \<in> set vs. el_confidence x \<le> el_confidence (max_element (hd es) (tl es))"
      using max_element_first [of "hd es" "tl es"] ne by auto
    then show ?thesis by (metis Un_iff in_set_conv_decomp less_imp_le list.set_intros(1) order_refl set_append set_ConsD)
  qed
  define light where "light = (\<lambda>g :: light_group. let m = max_element (hd (elements g)) (tl (elements g))
      in \<lparr>tl_id = traffic_light_group_id g, tl_confidence = el_confidence m, tl_color = toTrafficLightColor (el_color m)\<rparr>)"
  have light: "tl_id (light g) = traffic_light_group_id g \<and>
      (\<exists>e \<in> set (elements g). tl_confidence (light g) = el_confidence e \<and>
         tl_color (light g) = toTrafficLightColor (el_color e) \<and> (\<forall>x \<in> set (elements g). el_confidence x \<le> el_confidence e))"
    if "elements g \<noteq> []" for g
    using top [OF that] by (auto simp: light_def Let_def)
  define objs where "objs = filter PerceptionBridge.kept obs"
  define lit where "lit = filter (\<lambda>g. elements g \<noteq> []) gs"
  define f where "f = perception_buildFrame q stamp
      (perception_apply down (TrafficSignal gs) (perception_apply down (SurroundingObjects obs) before))"
  have lights: "pcf_traffic_lights f = map light lit"
    by (simp add: f_def perception_buildFrame_def onTrafficSignalImpl_def add_light_loop light_def lit_def)
  have objects: "pcf_surrounding_objects f =
      map (\<lambda>(i, ob). convert_object (of_nat i) ob (hd (classification ob))) (zip [0..<length objs] objs)"
    by (simp add: f_def perception_buildFrame_def onTrafficSignalImpl_def onSurroundingObjectImpl_def add_object_loop objs_def)
  have ne: "elements (lit ! i) \<noteq> []" if "i < length lit" for i
    using nth_mem [OF that] by (simp add: lit_def)
  have "tl_id (pcf_traffic_lights f ! i) = traffic_light_group_id (lit ! i) \<and>
      (\<exists>e \<in> set (elements (lit ! i)). tl_confidence (pcf_traffic_lights f ! i) = el_confidence e \<and>
         tl_color (pcf_traffic_lights f ! i) = toTrafficLightColor (el_color e) \<and>
         (\<forall>x \<in> set (elements (lit ! i)). el_confidence x \<le> el_confidence e))" if "i < length lit" for i
    unfolding lights nth_map [OF that] by (rule light [OF ne [OF that]])
  moreover have "length (pcf_traffic_lights f) = length lit" by (simp add: lights)
  moreover have "length (pcf_surrounding_objects f) = length objs" by (simp add: objects)
  moreover have "\<forall>i < length objs. pcf_surrounding_objects f ! i = convert_object (of_nat i) (objs ! i) (hd (classification (objs ! i)))"
    by (simp add: objects del: upt_Suc)
  ultimately show ?thesis unfolding Let_def f_def objs_def lit_def by blast
qed

theorem perception_frame_content_witness:
  "let g = \<lparr>traffic_light_group_id = 4, elements = [\<lparr>el_color = TLE_RED, el_confidence = 1 / 4\<rparr>, \<lparr>el_color = TLE_GREEN, el_confidence = 3 / 4\<rparr>]\<rparr>;
       f = perception_buildFrame 0 0 (perception_apply (\<lambda>c :: unit. []) (TrafficSignal [g])
             (perception_apply (\<lambda>c :: unit. []) (SurroundingObjects []) new_perception_state))
   in length (pcf_traffic_lights f) = 1 \<and> tl_id (pcf_traffic_lights f ! 0) = 4 \<and> tl_confidence (pcf_traffic_lights f ! 0) = 3 / 4"
  using perception_frame_content [where down = "\<lambda>c :: unit. []" and obs = "[]" and before = new_perception_state
      and q = 0 and stamp = 0 and gs = "[\<lparr>traffic_light_group_id = 4,
        elements = [\<lparr>el_color = TLE_RED, el_confidence = 1 / 4\<rparr>, \<lparr>el_color = TLE_GREEN, el_confidence = 3 / 4\<rparr>]\<rparr>]"]
  by (auto simp: Let_def)

text \<open>
  A tick of the location bridge publishes exactly while the value of \<open>setStreamingEnabled\<close>
  that was handled last is true; what it publishes is the position the provider gives then, or
  the last one it gave, and the active trip.
\<close>

theorem location_stream:
  assumes "run location_step es (new_bridge new_location_state) = Inr b" "timer b = Expired"
    "location_step (LHandler i) b = Inr b'"
  shows "frames b' = frames b @
    (if messages es \<noteq> [] \<and> last (messages es)
     then [\<lparr>js_latitude = (case gps_provider i of Some (Some p) \<Rightarrow> fst p | _ \<Rightarrow> current_lat (bridge_state b)),
            js_longitude = (case gps_provider i of Some (Some p) \<Rightarrow> snd p | _ \<Rightarrow> current_lon (bridge_state b)),
            js_trip_id = (case trip_id_provider i of None \<Rightarrow> 0 | Some t \<Rightarrow> t)\<rparr>]
     else [])"
proof -
  let ?s = "location_refresh i (bridge_state b)"
  have on: "streaming_enabled ?s \<longleftrightarrow> messages es \<noteq> [] \<and> last (messages es)"
    using location_run_streaming [OF assms(1)]
    by (simp add: new_bridge_def new_location_state_def location_refresh_def split: option.splits)
  have pos: "current_lat ?s = (case gps_provider i of Some (Some p) \<Rightarrow> fst p | _ \<Rightarrow> current_lat (bridge_state b))"
    "current_lon ?s = (case gps_provider i of Some (Some p) \<Rightarrow> snd p | _ \<Rightarrow> current_lon (bridge_state b))"
    by (simp_all add: location_refresh_def split: option.splits)
  have "b' = location_onTick i b" using assms(2,3) by (simp add: location_step_def)
  then show ?thesis
    by (simp only: location_onTick_def onTick_with_frames location_broadcast_def on pos)
qed

theorem location_stream_witness:
  "\<exists>b b'. run location_step [LStart, LMessage True, LExpire] (new_bridge new_location_state) = Inr b \<and>
     location_step (LHandler \<lparr>gps_provider = Some (Some (35, 139)), trip_id_provider = Some 7\<rparr>) b = Inr b' \<and>
     frames b' = [\<lparr>js_latitude = 35, js_longitude = 139, js_trip_id = 7\<rparr>]"
proof -
  obtain b where b: "run location_step [LStart, LMessage True, LExpire] (new_bridge new_location_state) = Inr b"
      "timer b = Expired" "frames b = []"
    by (simp add: location_step_def new_bridge_def scheduleNextTick_def)
  obtain b' where b': "location_step (LHandler \<lparr>gps_provider = Some (Some (35, 139)), trip_id_provider = Some 7\<rparr>) b = Inr b'"
    using loop_step_total unfolding location_step_def by blast
  from location_stream [OF b(1,2) b'] b(3)
  have "frames b' = [\<lparr>js_latitude = 35, js_longitude = 139, js_trip_id = 7\<rparr>]" by simp
  with b b' show ?thesis by blast
qed



text \<open>
  Shutting a bridge down works only if a wait of its timer is pending at that moment: then no
  frame is published any more. Otherwise, as long as shutdown is not called again, the loop goes
  on: the timer never stops, so the joined thread never ends.
\<close>

theorem bridge_shutdown:
  assumes "cluster_step LCancel b = Inr b1" "run cluster_step es b1 = Inr b2" "timer b \<noteq> Aborted" "timer b \<noteq> Stopped"
  shows "(timer b = Armed \<longrightarrow> frames b2 = frames b) \<and>
    (timer b \<noteq> Armed \<and> LCancel \<notin> set es \<longrightarrow> timer b2 \<noteq> Stopped \<and> timer b2 \<noteq> Aborted)"
proof -
  have tick: "timer (cluster_onTick i c) = Armed" for i c by (simp add: cluster_onTick_def)
  have b1: "b1 = loop_cancel b" using assms(1) by (simp add: cluster_step_def)
  note run = assms(2) [unfolded cluster_step_def]
  show ?thesis
  proof (cases "timer b = Armed")
    case True
    with quiet_run [OF _ run] b1 show ?thesis by (simp add: loop_cancel_def)
  next
    case False
    then have "b1 = b" "going b" using b1 assms(3,4) by (cases "timer b"; simp add: loop_cancel_def going_def)+
    with going_run [of cluster_onTick b es cluster_apply b2, OF tick] run False show ?thesis
      by (auto simp: going_def)
  qed
qed

theorem bridge_shutdown_witness:
  "\<exists>b2. run cluster_step [LHandler 1, LExpire, LHandler 2]
       ((new_bridge new_frame_state :: cluster_bridge)\<lparr>timer := Expired\<rparr>) = Inr b2 \<and>
     length (frames b2) = 2 \<and> timer b2 \<noteq> Stopped"
proof -
  let ?b = "(new_bridge new_frame_state :: cluster_bridge)\<lparr>timer := Expired\<rparr>"
  have c: "cluster_step LCancel ?b = Inr ?b" by (simp add: cluster_step_def loop_cancel_def)
  obtain b2 where b2: "run cluster_step [LHandler 1, LExpire, LHandler 2] ?b = Inr b2"
    using loop_run_total unfolding cluster_step_def by blast
  then have "length (frames b2) = 2"
    by (auto simp: cluster_step_def cluster_onTick_def onTick_with_def scheduleNextTick_def new_bridge_def)
  moreover have "timer b2 \<noteq> Stopped" using bridge_shutdown [OF c b2] by simp
  ultimately show ?thesis using b2 by blast
qed

end
