(* ===== verification/PlanningProperties.thy ===== *)
theory PlanningProperties
  imports BridgeProperties
begin

text \<open>
  The property of the planning bridge: what a planning frame says of the messages before it.
\<close>

section \<open>What is left of the messages\<close>

text \<open>The parts of the state that loops fill, after any messages, by the latest of their topic.\<close>

definition latest_trajectory :: "planning_msg list \<Rightarrow> trajectory_msg_point list" where
  "latest_trajectory ms =
     (case latest_of planning_topic ''/planning/scenario_planning/trajectory'' ms of
        Some (TrajectoryPoints ps) \<Rightarrow> ps | _ \<Rightarrow> [])"

definition latest_velocity_factors :: "planning_msg list \<Rightarrow> velocity_factor_msg list" where
  "latest_velocity_factors ms =
     (case latest_of planning_topic ''/api/planning/velocity_factors'' ms of Some (VelocityFactors fs) \<Rightarrow> fs | _ \<Rightarrow> [])"

definition latest_steering_factors :: "planning_msg list \<Rightarrow> steering_factor_msg list" where
  "latest_steering_factors ms =
     (case latest_of planning_topic ''/api/planning/steering_factors'' ms of Some (SteeringFactors fs) \<Rightarrow> fs | _ \<Rightarrow> [])"

definition latest_route :: "planning_msg list \<Rightarrow> lanelet_route option" where
  "latest_route ms =
     (case latest_of planning_topic ''/planning/mission_planning/route'' ms of Some (FullRouteMsg r) \<Rightarrow> Some r | _ \<Rightarrow> None)"

definition latest_route_state :: "planning_msg list \<Rightarrow> route_state_value option" where
  "latest_route_state ms =
     (case latest_of planning_topic ''/api/routing/state'' ms of Some (RouteStateMsg v) \<Rightarrow> Some v | _ \<Rightarrow> None)"

lemmas latest_defs = latest_trajectory_def latest_velocity_factors_def latest_steering_factors_def latest_route_def
  latest_route_state_def

definition route_rows :: "lanelet_route \<Rightarrow> ((i64 \<times> string) \<times> (i64 \<times> string) list) list" where
  "route_rows r =
     map (\<lambda>sg. ((prim_id (preferred_primitive sg), primitive_type (preferred_primitive sg)),
                map (\<lambda>p. (prim_id p, primitive_type p)) (primitives sg))) (route_segments r)"

lemma planning_parts:
  fixes ms :: "planning_msg list"
  defines "s \<equiv> fold planning_apply ms new_planning_state"
  shows "trajectory_points s = map frame_point (latest_trajectory ms)"
    "velocity_factors s = map frame_velocity_factor (latest_velocity_factors ms)"
    "steering_factors s = map frame_steering_factor (latest_steering_factors ms)"
    "fr_segments (full_route s) = (case latest_route ms of None \<Rightarrow> [] | Some r \<Rightarrow> route_rows r)"
    "routing_state s = (case latest_route_state ms of None \<Rightarrow> ROUTE_UNKNOWN | Some v \<Rightarrow> toRouteState v)"
proof -
  have "trajectory_points s = map frame_point (latest_trajectory ms) \<and>
      velocity_factors s = map frame_velocity_factor (latest_velocity_factors ms) \<and>
      steering_factors s = map frame_steering_factor (latest_steering_factors ms) \<and>
      fr_segments (full_route s) = (case latest_route ms of None \<Rightarrow> [] | Some r \<Rightarrow> route_rows r) \<and>
      routing_state s = (case latest_route_state ms of None \<Rightarrow> ROUTE_UNKNOWN | Some v \<Rightarrow> toRouteState v)"
    unfolding s_def
  proof (induction ms rule: rev_induct)
    case (snoc m ms)
    then show ?case
      by (cases m) (simp_all add: latest_defs latest_of_def planning_handlers route_rows_def)
  qed (simp add: latest_defs latest_of_def new_planning_state_def)
  then show "trajectory_points s = map frame_point (latest_trajectory ms)"
    "velocity_factors s = map frame_velocity_factor (latest_velocity_factors ms)"
    "steering_factors s = map frame_steering_factor (latest_steering_factors ms)"
    "fr_segments (full_route s) = (case latest_route ms of None \<Rightarrow> [] | Some r \<Rightarrow> route_rows r)"
    "routing_state s = (case latest_route_state ms of None \<Rightarrow> ROUTE_UNKNOWN | Some v \<Rightarrow> toRouteState v)"
    by simp_all
qed

section \<open>Frames\<close>



end
