(* ===== verification/AppStreaming.thy ===== *)
theory AppStreaming
  imports AppJourney TripLog
begin

text \<open>
  The streaming switch of the location bridge against the state of the trip: the last value
  posted is on while the vehicle drives to the pickup place, and off from its arrival there to
  the end of the ride.
\<close>

section \<open>With the customer aboard\<close>

text \<open>From the arrival at the pickup place to the destination, unless the trip is cancelled.\<close>

definition aboard :: "trip_controller \<Rightarrow> bool" where
  "aboard c \<longleftrightarrow> state_of c \<in> {WAITING_FOR_MOVE, RUNNING, COMPLETED} \<or>
     state_of c = ENGAGING \<and> \<not> engaging_for_pickup c"

lemma engaging_flag_kept:
  assumes "ctrl_step (now, e) c = Inr c'" "state_of c = ENGAGING \<or> state_of c = WAITING_LOCALISATION"
    "engaging_for_pickup c" "state_of c' = ENGAGING"
  shows "engaging_for_pickup c'"
proof (cases e)
  case (EvQueryEta s g cb tf)
  with assms show ?thesis by (auto dest!: map_snd_InrD simp: queryEta_def reply_now_def emit_def split: option.splits)
next
  case EvStartTrip
  with assms show ?thesis
    by (auto dest!: map_snd_InrD simp: startTrip_def Let_def split: sum.splits prod.splits option.splits if_splits)
next
  case EvMoveCommand
  with assms show ?thesis by (auto simp: handleMoveCommand_def goToPickup_def move_def)
next
  case EvMove
  with assms show ?thesis by (auto simp: move_def)
next
  case (EvTick svc tf)
  with assms have "tick svc now (look tf c) = Inr c'" by (simp add: onTick_look)
  then have "places c' = places (look tf c)"
    using assms(2) by (auto simp: tick_def tick_localisation_def split: if_splits)
  then show ?thesis using assms(3) by (simp add: places_def)
qed (use assms in \<open>auto simp: goToPickup_def cancel_def Let_def onEngageResponse_def onModeResponse_def emit_def onRouteReceived_def
      injectEta_def split: if_splits option.splits\<close>)

text \<open>Nobody is aboard without having been picked up.\<close>

lemma aboard_before:
  assumes "ctrl_inv c" "pose_inv c" "ctrl_step (now, e) c = Inr c'" "aboard c'" "state_of c' \<noteq> WAITING_FOR_MOVE"
  shows "aboard c"
proof -
  have edge: "state_of c' \<in> set (successors e (state_of c))" by (rule ctrl_step_edge [OF assms(1,3)])
  consider (over) "state_of c' = COMPLETED" | (ride) "state_of c' = RUNNING"
    | (start) "state_of c' = ENGAGING" "\<not> engaging_for_pickup c'"
    using assms(4,5) by (auto simp: aboard_def)
  then show ?thesis
  proof cases
    case over
    with edge have "state_of c \<in> {RUNNING, COMPLETED}"
      by (cases e; cases "state_of c") (auto split: if_splits)
    then show ?thesis by (auto simp: aboard_def)
  next
    case ride
    with edge consider "state_of c = RUNNING" | code where "e = EvEngageResponse code" "state_of c = ENGAGING"
      by (cases e; cases "state_of c") (auto split: if_splits)
    then show ?thesis
      by cases (use assms(3) ride in \<open>auto simp: aboard_def onEngageResponse_def split: if_splits\<close>)
  next
    case start
    with edge have "state_of c \<in> {WAITING_FOR_MOVE, ENGAGING, WAITING_LOCALISATION}"
      by (cases e; cases "state_of c") (auto split: if_splits)
    moreover have "engaging_for_pickup c" if "state_of c = WAITING_LOCALISATION"
      using assms(2) that by (simp add: pose_inv_def)
    ultimately show ?thesis
      using engaging_flag_kept [OF assms(3) _ _ start(1)] start(2) by (auto simp: aboard_def)
  qed
qed

section \<open>The switch\<close>

definition switch_right :: "bool list \<Rightarrow> trip_controller \<Rightarrow> bool" where
  "switch_right posts c \<longleftrightarrow>
     (state_of c = DRIVING_TO_PICKUP \<longrightarrow> posts \<noteq> [] \<and> last posts) \<and> (aboard c \<longrightarrow> posts \<noteq> [] \<and> \<not> last posts)"

lemma lights_of_step:
  assumes "ctrl_step (now, e) c = Inr c'" "outbox c = []" "b \<in> set (concat (map light (outbox c')))"
  shows "state_of c' = (if b then DRIVING_TO_PICKUP else WAITING_FOR_MOVE)"
proof -
  obtain x where x: "x \<in> set (outbox c')" "b \<in> set (light x)" using assms(3) by auto
  have "announces c c' x" using announces_step [OF assms(1)] assms(2) x(1) by (auto simp: adds_def)
  with x(2) show ?thesis by (cases x) (auto split: if_splits)
qed

lemma light_shown:
  assumes "ctrl_step (now, e) c = Inr c'" "on_state_change c" "outbox c = []" "state_of c' \<noteq> state_of c"
    "state_of c' \<in> {DRIVING_TO_PICKUP, WAITING_FOR_MOVE}"
  shows "concat (map light (outbox c')) \<noteq> []"
proof -
  have "reports (state_of c') c c'" using told_step [OF assms(1,2)] assms(4,5) by (auto simp: told_def)
  then obtain p st where "StateChanged p (state_of c') st \<in> set (outbox c')"
    using assms(3) by (auto simp: reports_def)
  moreover have "light (StateChanged p (state_of c') st) \<noteq> []" using assms(5) by auto
  ultimately show ?thesis by (metis concat_eq_Nil_conv image_eqI list.set_map)
qed

lemma last_all: "xs \<noteq> [] \<Longrightarrow> \<forall>x \<in> set xs. x = b \<Longrightarrow> last xs = b"
  by simp

lemma switch_step:
  assumes "ctrl_inv c" "pose_inv c" "on_state_change c" "outbox c = []" "ctrl_step (now, e) c = Inr c'" "switch_right posts c"
  shows "switch_right (posts @ concat (map light (outbox c'))) c'"
proof -
  let ?bs = "concat (map light (outbox c'))"
  note all = lights_of_step [OF assms(5,4)]
  note shown = light_shown [OF assms(5,3,4)]
  have "posts @ ?bs \<noteq> [] \<and> last (posts @ ?bs)" if s: "state_of c' = DRIVING_TO_PICKUP"
  proof (cases "?bs = []")
    case True
    then have "state_of c = DRIVING_TO_PICKUP" using shown s by force
    with assms(6) True show ?thesis by (simp add: switch_right_def)
  next
    case False
    with all [OF last_in_set [OF False]] s show ?thesis by (auto split: if_splits)
  qed
  moreover have "posts @ ?bs \<noteq> [] \<and> \<not> last (posts @ ?bs)" if b: "aboard c'"
  proof (cases "?bs = []")
    case True
    then have "state_of c = WAITING_FOR_MOVE" if "state_of c' = WAITING_FOR_MOVE" using shown that by force
    then have "aboard c" using aboard_before [OF assms(1,2,5) b] by (auto simp: aboard_def)
    with assms(6) True show ?thesis by (simp add: switch_right_def)
  next
    case False
    then have "\<not> last ?bs" using all [OF last_in_set [OF False]] b by (auto simp: aboard_def)
    with False show ?thesis by simp
  qed
  ultimately show ?thesis by (simp add: switch_right_def)
qed

section \<open>The agent\<close>

definition streaming_inv :: "agent \<Rightarrow> bool" where
  "streaming_inv a \<longleftrightarrow> agent_inv a \<and> trip_state_callback (agent_ctrl a) \<and>
     (\<forall>c. trip_ctrl (agent_ctrl a) = Some c \<longrightarrow> pose_inv c \<and> switch_right (streaming_posts a) c)"

text \<open>As \<open>startAutowareApp\<close> leaves it: with the state callback, and no trip yet.\<close>

definition connected :: "agent \<Rightarrow> bool" where
  "connected a \<longleftrightarrow> agent_inv a \<and> trip_state_callback (agent_ctrl a) \<and>
     (\<forall>c. trip_ctrl (agent_ctrl a) = Some c \<longrightarrow> phase_of (state_of c) = Idle)"

lemma idle_switch: "phase_of (state_of c) = Idle \<Longrightarrow> pose_inv c \<and> switch_right posts c"
  by (cases "state_of c") (auto simp: pose_inv_def switch_right_def aboard_def)

lemma connected_streaming: "connected a \<Longrightarrow> streaming_inv a"
  by (auto simp: connected_def streaming_inv_def idle_switch)

text \<open>Only a task touches the trip controller or posts to the location bridge.\<close>

lemma call_handler_frame:
  "agent_ctrl (call_handler h a) = agent_ctrl a \<and> streaming_posts (call_handler h a) = streaming_posts a"
  by (cases h) (simp_all add: on_trip_init_def on_trip_move_def on_order_update_location_def on_trip_cancel_def
      post_task_def Let_def)

lemma agent_read_frame:
  "agent_ctrl (agent_read cmd a) = agent_ctrl a \<and> streaming_posts (agent_read cmd a) = streaming_posts a"
proof -
  obtain h c tm where r: "read_command cmd (client a, trip_mgr a) = (h, c, tm)"
    by (cases "read_command cmd (client a, trip_mgr a)") auto
  have "ta_controller tm = agent_ctrl a" using read_command_frame(9) [of cmd "(client a, trip_mgr a)"] by (simp add: r)
  then show ?thesis by (simp add: agent_read_def r Let_def call_handler_frame split: option.split)
qed

lemma agent_step_frame:
  assumes "agent_step e a = Inr a'" "\<And>now svc tf. e \<noteq> AgRun now svc tf"
  shows "trip_ctrl (agent_ctrl a') = trip_ctrl (agent_ctrl a) \<and> streaming_posts a' = streaming_posts a \<and>
    (trip_state_callback (agent_ctrl a) \<longrightarrow> trip_state_callback (agent_ctrl a'))"
proof (cases e)
  case (AgRead cmd)
  with assms(1) show ?thesis by (auto simp: agent_read_frame)
next
  case (AgStream se)
  with assms(1) show ?thesis
    by (auto simp: agent_stream_def dest!: stream_step_ctrl split: if_splits sum.splits)
qed (use assms in \<open>auto simp: post_task_def setTripStateCallback_def\<close>)

lemma initialize_idle:
  assumes "ac_step (now, AcInitialize) a = Inr a'" "trip_ctrl a' = Some c"
  shows "phase_of (state_of c) = Idle" "trip_state_callback a' = trip_state_callback a"
  using assms
  by (auto simp: initialize_def absorb_def Let_def initializeInMap_def new_TripController_def setArrivalCallbacks_def
      setStateChangeCallback_def publish_defs split: option.splits)

lemma run_task_streaming:
  assumes "streaming_inv a" "run_task now svc tf a = Inr a'" "agent_inv a'"
  shows "streaming_inv a'"
proof (cases "strand a")
  case Nil
  with assms show ?thesis by (simp add: run_task_def)
next
  case (Cons t ts)
  obtain ctrl where step: "ac_step (now, with_env svc tf t) (agent_ctrl a) = Inr ctrl"
    and tm: "trip_mgr a' = trip_mgr (task_done ts ctrl a)"
    and posts: "streaming_posts a' = streaming_posts a @ concat (map streamed (outputs ctrl))"
    by (rule run_task_effect [OF Cons assms(2)])
  have cb: "trip_state_callback (agent_ctrl a)" using assms(1) by (simp add: streaming_inv_def)
  consider (boot) "t = AcInitialize" | (none) "t \<noteq> AcInitialize" "trip_ctrl (agent_ctrl a) = None"
    | (quiet) c where "t \<noteq> AcInitialize" "ctrl_event_of (with_env svc tf t) = None" "trip_ctrl (agent_ctrl a) = Some c"
    | (step) c x where "ctrl_event_of (with_env svc tf t) = Some x" "trip_ctrl (agent_ctrl a) = Some c"
    by (metis option.exhaust)
  then show ?thesis
  proof cases
    case boot
    then have "ac_step (now, AcInitialize) (agent_ctrl a) = Inr ctrl" using step by simp
    note i = initialize_idle [OF this]
    have "trip_state_callback ctrl" using i(2) cb step by (cases "trip_ctrl ctrl") (auto simp: boot initialize_def absorb_def Let_def)
    then show ?thesis using assms(3) i(1) tm by (auto simp: streaming_inv_def idle_switch)
  next
    case none
    have "with_env svc tf t \<noteq> AcInitialize" using none(1) by (cases t) simp_all
    from ac_step_none [OF none(2) this step] show ?thesis using assms(3) cb tm by (simp add: streaming_inv_def)
  next
    case quiet
    have "with_env svc tf t \<noteq> AcInitialize" using quiet(1) by (cases t) simp_all
    note o = ac_step_other [OF quiet(2) this step]
    then have "\<forall>b \<in> set (outputs ctrl). streamed b = []" using assms(1) by (auto simp: streaming_inv_def agent_inv_def)
    then have "streaming_posts a' = streaming_posts a" using posts by simp
    then show ?thesis using assms(1,3) o tm by (simp add: streaming_inv_def)
  next
    case (step c x)
    have cr: "carrying a c" using assms(1) step(2) by (simp add: carrying_def streaming_inv_def)
    note crD = carryingD [OF cr]
    obtain c' where c': "ctrl_step (now, x) c = Inr c'" using ctrl.step_inv [OF crD(5)] by blast
    obtain a2 where a2: "run_task now svc tf a = Inr a2" "carrying a2 (c'\<lparr>outbox := []\<rparr>)" "tells a ts (loud c') a2"
      by (rule run_task_heard [OF cr Cons step(1) c'])
    then have a': "a2 = a'" using assms(2) by simp
    have right: "pose_inv c" "switch_right (streaming_posts a) c" using assms(1) step(2) by (simp_all add: streaming_inv_def)
    have "switch_right (streaming_posts a') c'"
      using switch_step [OF crD(5) right(1) crD(6,4) c' right(2)] a2(3)
      by (simp add: a' tells_def stream_switch.hear_loud)
    moreover have "switch_right ps (c'\<lparr>outbox := []\<rparr>) = switch_right ps c'" for ps
      by (simp add: switch_right_def aboard_def)
    moreover have "pose_inv (c'\<lparr>outbox := []\<rparr>)"
      using step_placed [OF crD(5) right(1) c'] places_same [of "c'\<lparr>outbox := []\<rparr>" c'] by simp
    ultimately show ?thesis using carryingD(1-3) [OF a2(2)] by (simp add: a' streaming_inv_def)
  qed
qed

interpretation streaming: strand_machine agent_step connected streaming_inv
proof
  show "connected a \<Longrightarrow> streaming_inv a" for a by (rule connected_streaming)
  show "\<exists>a'. agent_step e a = Inr a' \<and> streaming_inv a'" if "streaming_inv a" for a e
  proof -
    have "agent_inv a" using that by (simp add: streaming_inv_def)
    then obtain a' where a': "agent_step e a = Inr a'" "agent_inv a'" using agent_step_inv [of a e] by blast
    have "streaming_inv a'"
    proof (cases "\<exists>now svc tf. e = AgRun now svc tf")
      case True
      with a' that run_task_streaming show ?thesis by auto
    next
      case False
      with agent_step_frame [OF a'(1)] that a'(2) show ?thesis by (auto simp: streaming_inv_def)
    qed
    with a' show ?thesis by blast
  qed
qed

end
