(* ===== verification/StreamingProperties.thy ===== *)
theory StreamingProperties
  imports AppStreaming JourneyProperties BridgeProperties
begin

text \<open>
  The property of the location bridge beside the rest of the agent: when the position of the
  vehicle is published.
\<close>

text \<open>
  C17. The customer sees the vehicle come, and no longer. After any run of an agent that was
  connected without a trip, and of a location bridge that has handled what the agent posted to
  it, a tick of the bridge publishes while the vehicle drives to the pickup place: the position
  the provider gives, or the last one it gave, and the active trip. It publishes nothing from the
  arrival there to the end of the ride.
\<close>

theorem location_follows_trip:
  assumes "connected a0" "run agent_step es a0 = Inr a" "trip_ctrl (agent_ctrl a) = Some c"
    "run location_step ls (new_bridge new_location_state) = Inr b" "messages ls = streaming_posts a"
    "timer b = Expired" "location_step (LHandler i) b = Inr b'"
  shows "(state_of c = DRIVING_TO_PICKUP \<longrightarrow>
      frames b' = frames b @ [\<lparr>js_latitude = (case gps_provider i of Some (Some p) \<Rightarrow> fst p | _ \<Rightarrow> current_lat (bridge_state b)),
        js_longitude = (case gps_provider i of Some (Some p) \<Rightarrow> snd p | _ \<Rightarrow> current_lon (bridge_state b)),
        js_trip_id = (case trip_id_provider i of None \<Rightarrow> 0 | Some t \<Rightarrow> t)\<rparr>]) \<and>
    (state_of c \<in> {WAITING_FOR_MOVE, RUNNING, COMPLETED} \<or> state_of c = ENGAGING \<and> \<not> engaging_for_pickup c \<longrightarrow>
      frames b' = frames b)"
proof -
  have "switch_right (streaming_posts a) c"
    using streaming.run_inv [OF connected_streaming [OF assms(1)] assms(2)] assms(3) by (simp add: streaming_inv_def)
  with location_stream [OF assms(4,6,7)] show ?thesis
    unfolding assms(5) switch_right_def aboard_def by (auto split del: option.split)
qed

text \<open>The demo vehicle at the pickup place.\<close>

lemma demo_at_pickup:
  obtains es a c where "run agent_step es (demo_agent demo_idle []) = Inr a" "trip_ctrl (agent_ctrl a) = Some c"
    "state_of c = WAITING_FOR_MOVE" "streaming_posts a = [True, False]"
proof -
  let ?a = "demo_agent demo_idle []" and ?c = "demo_idle\<lparr>outbox := []\<rparr>" and ?mv = "\<lparr>tmr_vin = ''V1'', tmr_trip_id = 12\<rparr>"
  let ?ms = "\<lambda>n. replicate n demo_moment"
  have inv: "agent_inv ?a" by (rule demo_agent_inv [OF demo_idle_inv reachable_observed [OF demo_idle_reachable]])
  have start: "carrying ?a ?c" "online ?a" using inv by (simp_all add: carrying_def online_def)
  have pose: "getCurrentVehiclePose (moment_tf demo_moment) ?c = Some (axis_gps 5)"
    using demo_pose pose_site [of ?c demo_idle] by (simp add: demo_moment_def)
  have places: "pickup_of demo_request = axis_gps 15" "destination_of demo_request = axis_gps 30" "tir_vin demo_request = ''V1''"
    by (simp_all add: demo_request_def pickup_of_def destination_of_def)
  have idle: "state_of ?c = IDLE" "localised ?c" "nearest_id (tc_map ?c) (axis_gps 5) = Some 1"
    "connected_id (tc_map ?c) (pickup_of demo_request) 1 True = Some 1"
    "connected_id (tc_map ?c) (destination_of demo_request) 1 True \<noteq> None"
    by (simp_all add: demo_idle_facts demo_resolves [unfolded demo_idle_facts] places)
  have vins: "strand ?a = []" "tir_vin demo_request = vin (client ?a)" "tmr_vin ?mv = vin (client ?a)" by (simp_all add: places)
  have times: "length (?ms 6) = 6" "length (?ms 7) = 7" "last (?ms 7) = demo_moment" by simp_all
  have there: "getCurrentVehiclePose (moment_tf (last (?ms 7))) ?c = Some (axis_gps 5)" using pose times(3) by simp
  note journey = journey_to_pickup [OF start vins(1) idle(1,2) vins(2,3) times(1,1,2) pose idle(3-5) there,
      where ?q1.0 = demo_moment and ?q2.0 = demo_moment and ?m1.0 = demo_moment and ?m2.0 = demo_moment and ?d1.0 = 1000 and ?t1.0 = 60
      and ?d2.0 = 2000 and ?t2.0 = 120]
  show thesis
    by (rule journey, rule that, assumption, erule carryingD(2), assumption) (simp add: reported_def demo_agent_def)
qed

theorem location_follows_trip_witness:
  "\<exists>es a c b b'. run agent_step es (demo_agent demo_idle []) = Inr a \<and> trip_ctrl (agent_ctrl a) = Some c \<and>
     state_of c = WAITING_FOR_MOVE \<and>
     run location_step [LStart, LMessage True, LMessage False, LExpire] (new_bridge new_location_state) = Inr b \<and>
     location_step (LHandler \<lparr>gps_provider = Some (Some (35, 139)), trip_id_provider = Some 7\<rparr>) b = Inr b' \<and>
     frames b' = frames b"
proof -
  let ?ls = "[LStart, LMessage True, LMessage False, LExpire]"
  obtain es a c where a: "run agent_step es (demo_agent demo_idle []) = Inr a" "trip_ctrl (agent_ctrl a) = Some c"
    "state_of c = WAITING_FOR_MOVE" "streaming_posts a = [True, False]" by (rule demo_at_pickup)
  have start: "connected (demo_agent demo_idle [])"
    using demo_agent_inv [OF demo_idle_inv reachable_observed [OF demo_idle_reachable]]
    by (simp add: connected_def demo_idle_facts)
  obtain b where b: "run location_step ?ls (new_bridge new_location_state) = Inr b" "timer b = Expired"
    by (simp add: location_step_def new_bridge_def scheduleNextTick_def)
  obtain b' where b': "location_step (LHandler \<lparr>gps_provider = Some (Some (35, 139)), trip_id_provider = Some 7\<rparr>) b = Inr b'"
    using loop_step_total unfolding location_step_def by blast
  from location_follows_trip [OF start a(1,2) b(1) _ b(2) b'] a(3,4) have "frames b' = frames b" by simp
  with a b b' show ?thesis by blast
qed

end
