(* ===== verification/AppShutdown.thy ===== *)
theory AppShutdown
  imports AutowareApp ClusterBridge PlanningBridge PerceptionBridge TripBridge LocationBridge
begin

text \<open>
  \<open>stopAutowareApp\<close>: the caller shuts the five bridges down one after the other, then the
  stream client, joins the ROS thread and clears the handles. Each shutdown asks a thread to end
  and waits for it; the threads go on meanwhile. Of a bridge only its timer matters for that,
  which is what the first section shows.
\<close>

section \<open>The timer of a bridge\<close>

datatype timer_event =
    TimerStart
  | TimerExpire
  | TimerHandler

fun timer_step :: "timer_event \<Rightarrow> timer_state \<Rightarrow> timer_state" where
  "timer_step TimerStart t = (if t = Starting then Armed else t)"
| "timer_step TimerExpire t = (if t = Armed then Expired else t)"
| "timer_step TimerHandler t = (if t = Expired then Armed else if t = Aborted then Stopped else t)"

definition timer_cancel :: "timer_state \<Rightarrow> timer_state" where
  "timer_cancel t = (if t = Armed then Aborted else t)"

fun on_timer :: "('m, 'i) loop_event \<Rightarrow> timer_state \<Rightarrow> timer_state" where
  "on_timer LStart t = timer_step TimerStart t"
| "on_timer LExpire t = timer_step TimerExpire t"
| "on_timer (LHandler i) t = timer_step TimerHandler t"
| "on_timer LCancel t = timer_cancel t"
| "on_timer (LMessage m) t = t"

lemma loop_timer:
  assumes "\<And>i c. timer (work i c) = Armed" "loop_step apply_msg work e b = Inr b'"
  shows "timer b' = on_timer e (timer b)"
  using assms by (cases e) (auto simp: scheduleNextTick_def loop_cancel_def timer_cancel_def)

lemma bridge_timers:
  "cluster_step ce cb = Inr cb' \<Longrightarrow> timer cb' = on_timer ce (timer cb)"
  "planning_step pe pb = Inr pb' \<Longrightarrow> timer pb' = on_timer pe (timer pb)"
  "perception_step down ve vb = Inr vb' \<Longrightarrow> timer vb' = on_timer ve (timer vb)"
  "trip_step te tb = Inr tb' \<Longrightarrow> timer tb' = on_timer te (timer tb)"
  "location_step le lb = Inr lb' \<Longrightarrow> timer lb' = on_timer le (timer lb)"
  unfolding cluster_step_def planning_step_def perception_step_def trip_step_def location_step_def
  by (auto elim!: loop_timer [rotated] simp: cluster_onTick_def planning_onTick_def perception_onTick_def
      trip_onTick_def location_onTick_def)

section \<open>State\<close>

datatype bridge_handle =
    PlanningHandle
  | PerceptionHandle
  | TripHandle
  | ClusterHandle
  | LocationHandle

text \<open>Where the caller stands.\<close>

datatype stop_stage =
    ShutBridges
  | ShutClient
  | JoinClient
  | JoinRos
  | ClearHandles
  | Returned

text \<open>
  \<open>bridges\<close> gives the timer of a bridge, \<open>None\<close> for a null handle; \<open>gateway\<close> is the stream
  client, whose thread is at its end when it is shut down and between two streams.
  \<open>to_shut\<close> lists the bridges still to be shut down, and \<open>cancelled\<close> says whether the caller
  is past the cancellation of the first of them. \<open>spin_returned\<close>: \<open>rclcpp::spin\<close> is over.
\<close>

record stopping =
  bridges :: "bridge_handle \<Rightarrow> timer_state option"
  gateway :: "stream_client option"
  manager :: trip_adapter
  spin_returned :: bool
  to_shut :: "bridge_handle list"
  cancelled :: bool
  stop_stage :: stop_stage

definition stop_order :: "bridge_handle list" where
  "stop_order = [PlanningHandle, PerceptionHandle, TripHandle, ClusterHandle, LocationHandle]"

definition begin_stop ::
  "(bridge_handle \<Rightarrow> timer_state option) \<Rightarrow> stream_client option \<Rightarrow> trip_adapter \<Rightarrow> stopping" where
  "begin_stop hs gw tm =
     \<lparr>bridges = hs, gateway = gw, manager = tm, spin_returned = False, to_shut = stop_order, cancelled = False,
      stop_stage = ShutBridges\<rparr>"

section \<open>The caller and the other threads\<close>

definition shut_bridges :: "stopping \<Rightarrow> stopping" where
  "shut_bridges s =
     (case to_shut s of
        [] \<Rightarrow> s\<lparr>stop_stage := ShutClient\<rparr>
      | h # hs \<Rightarrow>
          (case bridges s h of
             None \<Rightarrow> s\<lparr>to_shut := hs\<rparr>
           | Some t \<Rightarrow>
               if \<not> cancelled s then s\<lparr>bridges := (bridges s)(h \<mapsto> timer_cancel t), cancelled := True\<rparr>
               else if t = Stopped then s\<lparr>to_shut := hs, cancelled := False\<rparr>
               else s))"

definition shut_client :: "stopping \<Rightarrow> stopping" where
  "shut_client s =
     (case gateway s of
        None \<Rightarrow> s\<lparr>stop_stage := JoinRos\<rparr>
      | Some c \<Rightarrow>
          if shutdown_flag c then s\<lparr>stop_stage := JoinRos\<rparr>
          else s\<lparr>gateway := Some (client_shutdown c), stop_stage := JoinClient\<rparr>)"

text \<open>One step of the caller; a thread it waits for that has not ended leaves it where it is.\<close>

definition stop_main :: "stopping \<Rightarrow> stopping" where
  "stop_main s =
     (case stop_stage s of
        ShutBridges \<Rightarrow> shut_bridges s
      | ShutClient \<Rightarrow> shut_client s
      | JoinClient \<Rightarrow>
          (case gateway s of
             None \<Rightarrow> s\<lparr>stop_stage := JoinRos\<rparr>
           | Some c \<Rightarrow> if stream_phase c = Closed then s\<lparr>stop_stage := JoinRos\<rparr> else s)
      | JoinRos \<Rightarrow> if spin_returned s then s\<lparr>stop_stage := ClearHandles\<rparr> else s
      | ClearHandles \<Rightarrow> s\<lparr>bridges := (\<lambda>_. None), stop_stage := Returned\<rparr>
      | Returned \<Rightarrow> s)"

datatype stop_event =
    MainStep
  | BridgeStep bridge_handle timer_event
  | ClientStep stream_event
  | SpinReturns

definition client_step :: "stream_event \<Rightarrow> stopping \<Rightarrow> exn + stopping" where
  "client_step e s =
     (case gateway s of
        None \<Rightarrow> Inr s
      | Some c \<Rightarrow>
          if e = SeShutdown then Inr s
          else case stream_step e (c, manager s) of
                 Inl x \<Rightarrow> Inl x
               | Inr (c', tm) \<Rightarrow> Inr (s\<lparr>gateway := Some c', manager := tm\<rparr>))"

fun stop_step :: "stop_event \<Rightarrow> stopping \<Rightarrow> exn + stopping" where
  "stop_step MainStep s = Inr (stop_main s)"
| "stop_step (BridgeStep h e) s = Inr (s\<lparr>bridges := (bridges s)(h := map_option (timer_step e) (bridges s h))\<rparr>)"
| "stop_step (ClientStep e) s = client_step e s"
| "stop_step SpinReturns s = Inr (s\<lparr>spin_returned := True\<rparr>)"

end
