(* ===== verification/ShutdownProperties.thy ===== *)
theory ShutdownProperties
  imports AppShutdown GatewayProperties
begin

text \<open>Properties of \<open>stopAutowareApp\<close>: what it has waited for, and when it waits for ever.\<close>

section \<open>What the caller has behind it\<close>

definition ended :: "timer_state option \<Rightarrow> bool" where
  "ended t \<longleftrightarrow> t = None \<or> t = Some Stopped"

definition client_ended :: "stream_client option \<Rightarrow> bool" where
  "client_ended gw \<longleftrightarrow> (\<forall>c. gw = Some c \<longrightarrow> shutdown_flag c \<and> stream_phase c = Closed)"

definition not_shut :: "stream_client option \<Rightarrow> bool" where
  "not_shut gw \<longleftrightarrow> (\<forall>c. gw = Some c \<longrightarrow> \<not> shutdown_flag c)"

fun stage_inv :: "stop_stage \<Rightarrow> stopping \<Rightarrow> bool" where
  "stage_inv ShutBridges s \<longleftrightarrow> not_shut (gateway s)"
| "stage_inv ShutClient s \<longleftrightarrow> not_shut (gateway s) \<and> to_shut s = []"
| "stage_inv JoinClient s \<longleftrightarrow> (\<exists>c. gateway s = Some c \<and> shutdown_flag c) \<and> to_shut s = []"
| "stage_inv JoinRos s \<longleftrightarrow> client_ended (gateway s) \<and> to_shut s = []"
| "stage_inv ClearHandles s \<longleftrightarrow> client_ended (gateway s) \<and> spin_returned s \<and> to_shut s = []"
| "stage_inv Returned s \<longleftrightarrow> client_ended (gateway s) \<and> spin_returned s \<and> to_shut s = []"

definition stop_inv :: "stopping \<Rightarrow> bool" where
  "stop_inv s \<longleftrightarrow>
     (\<exists>gone. stop_order = gone @ to_shut s \<and> (\<forall>h \<in> set gone. ended (bridges s h))) \<and> stage_inv (stop_stage s) s"

lemma ended_timer_step [simp]: "ended t \<Longrightarrow> ended (map_option (timer_step e) t)"
  by (cases e) (auto simp: ended_def)

lemma client_flags:
  assumes "stream_step e (c, tm) = Inr (c', tm')" "e \<noteq> SeShutdown"
  shows "shutdown_flag c' = shutdown_flag c"
    "shutdown_flag c \<Longrightarrow> stream_phase c = Closed \<Longrightarrow> stream_phase c' = Closed"
  using assms by (cases e; auto simp: stream_op_defs split: if_splits list.splits option.splits
      dest!: arg_cong [where f = fst])+

lemma shut_bridges_inv:
  assumes "stop_inv s" "stop_stage s = ShutBridges"
  shows "stop_inv (shut_bridges s)"
proof (cases "to_shut s")
  case Nil
  with assms show ?thesis by (simp add: stop_inv_def shut_bridges_def)
next
  case (Cons h hs)
  obtain gone where gone: "stop_order = gone @ h # hs" "\<forall>k \<in> set gone. ended (bridges s k)"
    using assms(1) Cons by (auto simp: stop_inv_def)
  have "distinct stop_order" by (simp add: stop_order_def)
  then have h: "h \<notin> set gone" unfolding gone(1) by simp
  have onward: "stop_inv (s\<lparr>to_shut := hs, cancelled := c\<rparr>)" if "ended (bridges s h)" for c
    using assms gone that by (auto simp: stop_inv_def intro!: exI [of _ "gone @ [h]"])
  have same: "stop_inv (s\<lparr>bridges := (bridges s)(h \<mapsto> t), cancelled := c\<rparr>)" for t c
    using assms gone h Cons by (auto simp: stop_inv_def intro!: exI [of _ gone])
  from onward [of "cancelled s"] onward [of False] same Cons assms(1) show ?thesis
    by (auto simp: shut_bridges_def ended_def split: option.splits)
qed

lemma stop_main_inv:
  assumes "stop_inv s"
  shows "stop_inv (stop_main s)"
proof (cases "stop_stage s")
  case ShutBridges
  with shut_bridges_inv [OF assms] show ?thesis by (simp add: stop_main_def)
next
  case ShutClient
  with assms show ?thesis
    by (auto simp: stop_main_def shut_client_def stop_inv_def client_ended_def not_shut_def client_shutdown_def
        split: option.splits)
next
  case ClearHandles
  with assms show ?thesis by (auto simp: stop_main_def stop_inv_def ended_def)
qed (use assms in \<open>auto simp: stop_main_def stop_inv_def client_ended_def split: option.splits\<close>)

lemma stop_step_inv:
  assumes "stop_inv s" "stop_step e s = Inr s'"
  shows "stop_inv s'"
proof (cases e)
  case MainStep
  with assms stop_main_inv show ?thesis by auto
next
  case (BridgeStep h b)
  then have s': "s' = s\<lparr>bridges := (bridges s)(h := map_option (timer_step b) (bridges s h))\<rparr>" using assms(2) by simp
  obtain gone where gone: "stop_order = gone @ to_shut s" "\<forall>k \<in> set gone. ended (bridges s k)"
    using assms(1) by (auto simp: stop_inv_def)
  then have "\<forall>k \<in> set gone. ended (bridges s' k)" by (simp add: s')
  moreover have "stage_inv (stop_stage s') s'" using assms(1) by (cases "stop_stage s") (auto simp: stop_inv_def s')
  moreover have "stop_order = gone @ to_shut s'" using gone(1) by (simp add: s')
  ultimately show ?thesis unfolding stop_inv_def by blast
next
  case (ClientStep ev)
  show ?thesis
  proof (cases "gateway s = None \<or> ev = SeShutdown")
    case True
    with ClientStep assms show ?thesis by (auto simp: client_step_def split: option.splits)
  next
    case False
    then obtain c where c: "gateway s = Some c" "ev \<noteq> SeShutdown" by auto
    obtain c' tm where n: "stream_step ev (c, manager s) = Inr (c', tm)" using stream_step_total by (metis surj_pair)
    then have s': "s' = s\<lparr>gateway := Some c', manager := tm\<rparr>" using assms(2) ClientStep c by (simp add: client_step_def)
    note flags = client_flags [OF n c(2)]
    show ?thesis using assms(1) c(1) flags unfolding s'
      by (cases "stop_stage s") (auto simp: stop_inv_def not_shut_def client_ended_def)
  qed
next
  case SpinReturns
  with assms show ?thesis by (cases "stop_stage s") (auto simp: stop_inv_def)
qed

lemma stop_step_total: "\<exists>s'. stop_step e s = Inr s'"
proof (cases e)
  case (ClientStep ev)
  have "\<exists>s'. client_step ev s = Inr s'"
  proof (cases "gateway s")
    case (Some c)
    obtain c' tm where "stream_step ev (c, manager s) = Inr (c', tm)" using stream_step_total by (metis surj_pair)
    with Some show ?thesis by (simp add: client_step_def)
  qed (simp add: client_step_def)
  with ClientStep show ?thesis by simp
qed simp_all

definition stop_init :: "stopping \<Rightarrow> bool" where
  "stop_init s \<longleftrightarrow> (\<exists>hs gw tm. not_shut gw \<and> s = begin_stop hs gw tm)"

interpretation stopping: strand_machine stop_step stop_init stop_inv
proof unfold_locales
  show "stop_init s \<Longrightarrow> stop_inv s" for s by (auto simp: stop_init_def stop_inv_def begin_stop_def)
  show "stop_inv s \<Longrightarrow> \<exists>s'. stop_step e s = Inr s' \<and> stop_inv s'" for s e
    using stop_step_total [of e s] stop_step_inv by blast
qed

section \<open>A bridge that is never joined\<close>

definition stuck :: "bridge_handle \<Rightarrow> stopping \<Rightarrow> bool" where
  "stuck h s \<longleftrightarrow> stop_stage s = ShutBridges \<and> (\<exists>hs. to_shut s = h # hs) \<and> cancelled s \<and>
     (bridges s h = Some Starting \<or> bridges s h = Some Armed \<or> bridges s h = Some Expired) \<and> not_shut (gateway s)"

lemma stuck_step: "stuck h s \<Longrightarrow> stop_step e s = Inr s' \<Longrightarrow> stuck h s'"
proof (cases e)
  case (BridgeStep k b)
  assume "stuck h s" "stop_step e s = Inr s'"
  with BridgeStep show ?thesis by (cases b; cases "k = h") (auto simp: stuck_def)
next
  case (ClientStep ev)
  assume st: "stuck h s" "stop_step e s = Inr s'"
  show ?thesis
  proof (cases "gateway s = None \<or> ev = SeShutdown")
    case True
    with ClientStep st show ?thesis by (auto simp: client_step_def split: option.splits)
  next
    case False
    then obtain c where c: "gateway s = Some c" "ev \<noteq> SeShutdown" by auto
    obtain c' tm where n: "stream_step ev (c, manager s) = Inr (c', tm)" using stream_step_total by (metis surj_pair)
    then have "s' = s\<lparr>gateway := Some c', manager := tm\<rparr>" using st(2) ClientStep c by (simp add: client_step_def)
    with st(1) c client_flags(1) [OF n c(2)] show ?thesis by (auto simp: stuck_def not_shut_def)
  qed
qed (auto simp: stuck_def stop_main_def shut_bridges_def split: if_splits)

lemma stuck_run: "stuck h s \<Longrightarrow> run stop_step es s = Inr s' \<Longrightarrow> stuck h s'"
proof (induction es arbitrary: s)
  case (Cons e es)
  then obtain t where "stop_step e s = Inr t" "run stop_step es t = Inr s'" by (auto split: sum.splits)
  with Cons.IH stuck_step [OF Cons.prems(1)] show ?case by blast
qed simp

section \<open>Stopping the application\<close>

lemma all_handles: "set stop_order = UNIV"
proof -
  have "h \<in> set stop_order" for h by (cases h) (simp_all add: stop_order_def)
  then show ?thesis by blast
qed

text \<open>
  C32. Before \<open>stopAutowareApp\<close> clears its handles the loop of every bridge has ended, the
  stream client is shut down and its thread at its end, and the ROS thread has returned. But if
  the timer of the bridge that is next to be shut down is not waiting when it is cancelled, the
  caller never gets past that bridge, whatever the threads do, and the stream client is never
  told to shut down.
\<close>

theorem stop_joins_everything:
  assumes "run stop_step es (begin_stop hs gw tm) = Inr s" "not_shut gw"
  shows "(stop_stage s = ClearHandles \<longrightarrow>
      (\<forall>h. ended (bridges s h)) \<and> client_ended (gateway s) \<and> spin_returned s) \<and>
    (\<forall>h rest fs s'. stop_stage s = ShutBridges \<and> to_shut s = h # rest \<and> \<not> cancelled s \<and>
        (bridges s h = Some Starting \<or> bridges s h = Some Expired) \<and> run stop_step fs (stop_main s) = Inr s' \<longrightarrow>
      stop_stage s' = ShutBridges \<and> not_shut (gateway s'))"
proof -
  have "stop_inv (begin_stop hs gw tm)" by (rule stopping.init_inv) (use assms(2) in \<open>auto simp: stop_init_def\<close>)
  then have inv: "stop_inv s" using assms(1) by (rule stopping.run_inv)
  have joined: "(\<forall>h. ended (bridges s h)) \<and> client_ended (gateway s) \<and> spin_returned s" if "stop_stage s = ClearHandles"
    using inv that all_handles by (auto simp: stop_inv_def)
  have never: "stop_stage s' = ShutBridges \<and> not_shut (gateway s')"
    if "stop_stage s = ShutBridges" "to_shut s = h # rest" "\<not> cancelled s"
      "bridges s h = Some Starting \<or> bridges s h = Some Expired" "run stop_step fs (stop_main s) = Inr s'" for h rest fs s'
  proof -
    have "stuck h (stop_main s)"
      using inv that(1-4) by (auto simp: stuck_def stop_main_def shut_bridges_def timer_cancel_def stop_inv_def)
    from stuck_run [OF this that(5)] show ?thesis by (simp add: stuck_def)
  qed
  from joined never show ?thesis by blast
qed

theorem stop_joins_everything_witness:
  "\<exists>s'. run stop_step [MainStep, BridgeStep PlanningHandle TimerHandler, BridgeStep PlanningHandle TimerExpire, SpinReturns, MainStep]
      (stop_main (begin_stop (\<lambda>h. if h = PlanningHandle then Some Expired else Some Armed)
         (Some (fst (demo_client False))) (snd (demo_client False)))) = Inr s' \<and>
     stop_stage s' = ShutBridges \<and> not_shut (gateway s')"
proof -
  let ?s = "begin_stop (\<lambda>h. if h = PlanningHandle then Some Expired else Some Armed)
     (Some (fst (demo_client False))) (snd (demo_client False))"
  let ?es = "[MainStep, BridgeStep PlanningHandle TimerHandler, BridgeStep PlanningHandle TimerExpire, SpinReturns, MainStep]"
  have start: "run stop_step [] ?s = Inr ?s" by simp
  have shut: "not_shut (Some (fst (demo_client False)))" by (simp add: not_shut_def demo_client_def)
  obtain s' where s': "run stop_step ?es (stop_main ?s) = Inr s'" by simp
  have "stop_stage ?s = ShutBridges" "to_shut ?s = PlanningHandle # tl stop_order" "\<not> cancelled ?s"
    "bridges ?s PlanningHandle = Some Expired"
    by (simp_all add: begin_stop_def stop_order_def)
  with stop_joins_everything [OF start shut] s' have "stop_stage s' = ShutBridges \<and> not_shut (gateway s')" by blast
  with s' show ?thesis by blast
qed

text \<open>When every timer is waiting and no stream is open, the caller can come to its end.\<close>

lemma shut_one:
  assumes "stop_stage s = ShutBridges" "to_shut s = h # hs" "\<not> cancelled s" "bridges s h = None \<or> bridges s h = Some Armed"
  shows "\<exists>es s'. run stop_step es s = Inr s' \<and> stop_stage s' = ShutBridges \<and> to_shut s' = hs \<and> \<not> cancelled s' \<and>
    gateway s' = gateway s \<and> (\<forall>k. k \<noteq> h \<longrightarrow> bridges s' k = bridges s k)"
proof (cases "bridges s h")
  case None
  with assms show ?thesis
    by (intro exI [of _ "[MainStep]"]) (simp add: stop_main_def shut_bridges_def)
next
  case (Some t)
  with assms show ?thesis
    by (intro exI [of _ "[MainStep, BridgeStep h TimerHandler, MainStep]"])
       (simp add: stop_main_def shut_bridges_def timer_cancel_def)
qed

lemma shut_all:
  assumes "stop_stage s = ShutBridges" "to_shut s = hs" "\<not> cancelled s" "distinct hs"
    "\<And>h. h \<in> set hs \<Longrightarrow> bridges s h = None \<or> bridges s h = Some Armed"
  shows "\<exists>es s'. run stop_step es s = Inr s' \<and> stop_stage s' = ShutClient \<and> gateway s' = gateway s"
  using assms
proof (induction hs arbitrary: s)
  case Nil
  then show ?case by (intro exI [of _ "[MainStep]"]) (simp add: stop_main_def shut_bridges_def)
next
  case (Cons h hs)
  obtain es t where t: "run stop_step es s = Inr t" "stop_stage t = ShutBridges" "to_shut t = hs" "\<not> cancelled t"
    "gateway t = gateway s" "\<forall>k. k \<noteq> h \<longrightarrow> bridges t k = bridges s k"
    using shut_one [of s h hs] Cons.prems by auto
  obtain fs s' where "run stop_step fs t = Inr s'" "stop_stage s' = ShutClient" "gateway s' = gateway t"
    using Cons.IH [OF t(2,3,4)] Cons.prems(4,5) t(6) by (metis distinct.simps(2) list.set_intros(2))
  with t(1,5) show ?case by (intro exI [of _ "es @ fs"] exI [of _ s']) (simp add: run_append)
qed

lemma stop_can_return:
  assumes "\<And>h. hs h = None \<or> hs h = Some Armed" "\<And>c. gw = Some c \<Longrightarrow> stream_phase c = Closed"
  shows "\<exists>es s'. run stop_step es (begin_stop hs gw tm) = Inr s' \<and> stop_stage s' = Returned"
proof -
  obtain es s where s: "run stop_step es (begin_stop hs gw tm) = Inr s" "stop_stage s = ShutClient" "gateway s = gw"
    using shut_all [of "begin_stop hs gw tm" stop_order] assms(1) by (auto simp: begin_stop_def stop_order_def)
  have "\<exists>fs s'. run stop_step fs s = Inr s' \<and> stop_stage s' = JoinRos"
  proof (cases "\<exists>c. gw = Some c \<and> \<not> shutdown_flag c")
    case True
    with s assms(2) show ?thesis
      by (intro exI [of _ "[MainStep, MainStep]"]) (auto simp: stop_main_def shut_client_def client_shutdown_def)
  next
    case False
    with s show ?thesis
      by (intro exI [of _ "[MainStep]"]) (auto simp: stop_main_def shut_client_def split: option.splits)
  qed
  then obtain fs t where t: "run stop_step fs s = Inr t" "stop_stage t = JoinRos" by blast
  have "\<exists>s'. run stop_step [SpinReturns, MainStep, MainStep] t = Inr s' \<and> stop_stage s' = Returned"
    using t(2) by (simp add: stop_main_def)
  with s(1) t(1) show ?thesis
    by (elim exE) (rule exI [of _ "es @ fs @ [SpinReturns, MainStep, MainStep]"], simp only: run_append sum.case, blast)
qed

end
