(* ===== verification/MainProcess.thy ===== *)
theory MainProcess
  imports ShutdownProperties
begin

text \<open>
  \<open>main.cc\<close>: the process starts the agent, polls a flag its signal handler sets, and then shuts
  ROS down and stops the agent. The agent's threads run from the start to the end of \<open>main\<close>.
\<close>

section \<open>State\<close>

text \<open>
  \<open>Polling\<close>: the loop over \<open>g_shutdown_requested\<close>. \<open>Stopping\<close>: in \<open>stopAutowareApp\<close>.
  \<open>Exited\<close>: \<open>main\<close> has returned 0.
\<close>

datatype main_stage =
    Polling
  | Stopping
  | Exited

record process =
  shutdown_requested :: bool
  ros_ok :: bool
  threads :: stopping
  main_stage :: main_stage

definition start_process ::
  "(bridge_handle \<Rightarrow> timer_state option) \<Rightarrow> stream_client option \<Rightarrow> trip_adapter \<Rightarrow> process" where
  "start_process hs gw tm =
     \<lparr>shutdown_requested = False, ros_ok = True, threads = begin_stop hs gw tm, main_stage = Polling\<rparr>"

section \<open>Steps\<close>

definition signalHandler :: "process \<Rightarrow> process" where
  "signalHandler p = p\<lparr>shutdown_requested := True\<rparr>"

text \<open>One turn of the loop, or one step of \<open>stopAutowareApp\<close>.\<close>

definition main_turn :: "process \<Rightarrow> process" where
  "main_turn p =
     (case main_stage p of
        Polling \<Rightarrow> if shutdown_requested p then p\<lparr>ros_ok := False, main_stage := Stopping\<rparr> else p
      | Stopping \<Rightarrow>
          (let w = stop_main (threads p)
           in p\<lparr>threads := w, main_stage := (if stop_stage w = Returned then Exited else Stopping)\<rparr>)
      | Exited \<Rightarrow> p)"

text \<open>\<open>ThreadStep\<close>: another thread runs; \<open>rclcpp::spin\<close> returns once ROS is shut down.\<close>

datatype process_event =
    Signal
  | MainTurn
  | ThreadStep stop_event

definition thread_turn :: "stop_event \<Rightarrow> process \<Rightarrow> exn + process" where
  "thread_turn e p =
     (if main_stage p = Exited \<or> e = MainStep \<or> (e = SpinReturns \<and> ros_ok p) then Inr p
      else case stop_step e (threads p) of
             Inl x \<Rightarrow> Inl x
           | Inr w \<Rightarrow> Inr (p\<lparr>threads := w\<rparr>))"

fun process_step :: "process_event \<Rightarrow> process \<Rightarrow> exn + process" where
  "process_step Signal p = Inr (signalHandler p)"
| "process_step MainTurn p = Inr (main_turn p)"
| "process_step (ThreadStep e) p = thread_turn e p"

section \<open>The invariant\<close>

text \<open>
  Until the signal the loop polls and ROS is up; \<open>main\<close> is past the loop only with ROS shut down,
  and has returned only when \<open>stopAutowareApp\<close> has.
\<close>

definition process_inv :: "process \<Rightarrow> bool" where
  "process_inv p \<longleftrightarrow> stop_inv (threads p) \<and>
     (case main_stage p of
        Polling \<Rightarrow> ros_ok p \<and> \<not> spin_returned (threads p) \<and> threads p = begin_stop (bridges (threads p)) (gateway (threads p)) (manager (threads p))
      | Stopping \<Rightarrow> shutdown_requested p \<and> \<not> ros_ok p \<and> stop_stage (threads p) \<noteq> Returned
      | Exited \<Rightarrow> shutdown_requested p \<and> \<not> ros_ok p \<and> stop_stage (threads p) = Returned)"

definition process_init :: "process \<Rightarrow> bool" where
  "process_init p \<longleftrightarrow> (\<exists>hs gw tm. not_shut gw \<and> p = start_process hs gw tm)"

lemma thread_keeps_stage:
  assumes "stop_step e s = Inr s'" "e \<noteq> MainStep"
  shows "stop_stage s' = stop_stage s" "to_shut s' = to_shut s" "cancelled s' = cancelled s"
    "e \<noteq> SpinReturns \<Longrightarrow> spin_returned s' = spin_returned s"
  using assms by (cases e; auto simp: client_step_def split: option.splits sum.splits if_splits)+

lemma begin_stop_shape:
  "s = begin_stop (bridges s) (gateway s) (manager s) \<longleftrightarrow>
     \<not> spin_returned s \<and> to_shut s = stop_order \<and> \<not> cancelled s \<and> stop_stage s = ShutBridges"
  by (cases s) (auto simp: begin_stop_def)

lemma process_step_inv:
  assumes "process_inv p"
  shows "\<exists>p'. process_step e p = Inr p' \<and> process_inv p'"
proof (cases e)
  case Signal
  with assms show ?thesis by (auto simp: signalHandler_def process_inv_def split: main_stage.splits)
next
  case MainTurn
  have "stop_inv (stop_main (threads p))" using assms stop_main_inv by (simp add: process_inv_def)
  with MainTurn assms show ?thesis
    by (cases "main_stage p") (auto simp: main_turn_def process_inv_def begin_stop_shape Let_def)
next
  case (ThreadStep t)
  show ?thesis
  proof (cases "main_stage p = Exited \<or> t = MainStep \<or> (t = SpinReturns \<and> ros_ok p)")
    case True
    with ThreadStep assms show ?thesis by (simp add: thread_turn_def)
  next
    case False
    obtain w where w: "stop_step t (threads p) = Inr w" using stop_step_total by blast
    have "stop_inv w" using stop_step_inv [OF _ w] assms by (simp add: process_inv_def)
    moreover note keep = thread_keeps_stage [OF w]
    ultimately have "process_inv (p\<lparr>threads := w\<rparr>)"
      using assms False by (cases "main_stage p") (auto simp: process_inv_def begin_stop_shape)
    moreover have "process_step e p = Inr (p\<lparr>threads := w\<rparr>)"
      using False w ThreadStep by (auto simp: thread_turn_def)
    ultimately show ?thesis by blast
  qed
qed

interpretation process: strand_machine process_step process_init process_inv
proof unfold_locales
  show "process_init p \<Longrightarrow> process_inv p" for p
    by (auto simp: process_init_def process_inv_def start_process_def begin_stop_shape)
      (auto simp: stop_inv_def begin_stop_def)
  show "process_inv p \<Longrightarrow> \<exists>p'. process_step e p = Inr p' \<and> process_inv p'" for p e
    by (rule process_step_inv)
qed

lemma unsignalled_step:
  "process_step e p = Inr p' \<Longrightarrow> e \<noteq> Signal \<Longrightarrow> shutdown_requested p' = shutdown_requested p"
  by (cases e) (auto simp: main_turn_def thread_turn_def Let_def split: main_stage.splits if_splits sum.splits)

lemma unsignalled_run:
  "run process_step es p = Inr p' \<Longrightarrow> Signal \<notin> set es \<Longrightarrow> shutdown_requested p' = shutdown_requested p"
proof (induction es arbitrary: p)
  case (Cons e es)
  then obtain q where q: "process_step e p = Inr q" "run process_step es q = Inr p'" by (auto split: sum.splits)
  have "e \<noteq> Signal" "Signal \<notin> set es" using Cons.prems(2) by auto
  with Cons.IH [OF q(2)] unsignalled_step [OF q(1)] show ?case by simp
qed simp

section \<open>When the process ends\<close>

text \<open>
  C33. The process never ends by itself: whatever its threads do, without a signal it keeps
  polling with ROS up and the ROS thread spinning. When \<open>main\<close> returns, a signal was delivered,
  ROS was shut down, the ROS thread has left \<open>spin\<close>, the stream client is shut down and closed,
  and no bridge is left.
\<close>

theorem process_ends_after_signal:
  assumes "run process_step es (start_process hs gw tm) = Inr p" "\<And>c. gw = Some c \<Longrightarrow> \<not> shutdown_flag c"
  shows "(Signal \<notin> set es \<longrightarrow> main_stage p = Polling \<and> ros_ok p \<and> \<not> spin_returned (threads p)) \<and>
    (main_stage p = Exited \<longrightarrow> Signal \<in> set es \<and> \<not> ros_ok p \<and> spin_returned (threads p) \<and>
       (\<forall>c. gateway (threads p) = Some c \<longrightarrow> shutdown_flag c \<and> stream_phase c = Closed) \<and>
       (\<forall>h. ended (bridges (threads p) h)))"
proof -
  have "process_init (start_process hs gw tm)" using assms(2) by (auto simp: process_init_def not_shut_def)
  then have inv: "process_inv p" using process.run_inv [OF process.init_inv assms(1)] by blast
  have unsignalled: "\<not> shutdown_requested p" if "Signal \<notin> set es"
    using unsignalled_run [OF assms(1) that] by (simp add: start_process_def)
  show ?thesis
  proof (intro conjI impI)
    assume "Signal \<notin> set es"
    then show "main_stage p = Polling" "ros_ok p" "\<not> spin_returned (threads p)"
      using inv unsignalled by (cases "main_stage p"; simp add: process_inv_def)+
  next
    assume end_main: "main_stage p = Exited"
    then have st: "shutdown_requested p" "\<not> ros_ok p" "stop_stage (threads p) = Returned" "stop_inv (threads p)"
      using inv by (simp_all add: process_inv_def)
    show "Signal \<in> set es" "\<not> ros_ok p" using unsignalled st(1,2) by blast+
    show "spin_returned (threads p)" "\<forall>c. gateway (threads p) = Some c \<longrightarrow> shutdown_flag c \<and> stream_phase c = Closed"
      using st(3,4) by (auto simp: stop_inv_def client_ended_def)
    have "set stop_order = UNIV"
      by (auto simp: stop_order_def) (metis bridge_handle.exhaust)
    then show "\<forall>h. ended (bridges (threads p) h)" using st(3,4) by (fastforce simp: stop_inv_def)
  qed
qed

text \<open>The agent without handles is stopped at once.\<close>

theorem process_ends_after_signal_witness:
  "\<exists>p. run process_step ([ThreadStep SpinReturns, MainTurn, Signal, MainTurn, ThreadStep SpinReturns] @ replicate 9 MainTurn)
      (start_process (\<lambda>_. None) None (snd (demo_client False))) = Inr p \<and>
     main_stage p = Exited \<and> \<not> ros_ok p \<and> spin_returned (threads p)"
proof -
  let ?es = "[ThreadStep SpinReturns, MainTurn, Signal, MainTurn, ThreadStep SpinReturns] @ replicate 9 MainTurn"
  let ?p = "start_process (\<lambda>_. None) None (snd (demo_client False))"
  obtain p where p: "run process_step ?es ?p = Inr p" "main_stage p = Exited"
    by (simp add: numeral_eq_Suc start_process_def begin_stop_def thread_turn_def main_turn_def signalHandler_def Let_def
        stop_main_def shut_bridges_def stop_order_def shut_client_def)
  from process_ends_after_signal [OF p(1)] p(2) have "\<not> ros_ok p" "spin_returned (threads p)" by simp_all
  with p show ?thesis by blast
qed

end
