(* ===== verification/SharedPointers.thy ===== *)
theory SharedPointers
  imports Agent_Prelude
begin

text \<open>
  Objects owned by \<open>shared_ptr\<close> and \<open>unique_ptr\<close>: an object lives as long as somebody holds an
  owning pointer to it; with the last one it is destroyed, and its own pointers with it. Raw
  pointers and references keep nothing alive.
\<close>

section \<open>The heap\<close>

text \<open>
  Where a pointer may be kept: a local variable, a field of a structure somebody keeps, a member
  of an object (or something a member captures), a running thread. Variables and members have names of a type \<open>'n\<close>.
\<close>

datatype ('n, 'o) holder =
    Local 'n
  | Handle 'n
  | Field 'o 'n
  | Thread 'n

text \<open>\<open>live\<close>: the objects there are; \<open>running\<close>: those with a thread of their own.\<close>

record ('n, 'o) heap =
  live :: "'o list"
  owning :: "(('n, 'o) holder \<times> 'o) list"
  raw :: "(('n, 'o) holder \<times> 'o) list"
  running :: "'o list"

definition empty_heap :: "('n, 'o) heap" where
  "empty_heap = \<lparr>live = [], owning = [], raw = [], running = []\<rparr>"

text \<open>\<open>Freed\<close>: the object is gone. \<open>NotMade\<close>: there is none yet, or it is already there.\<close>

datatype memory_error =
    Freed
  | NotMade

definition use_count :: "'o \<Rightarrow> ('n, 'o) heap \<Rightarrow> nat" where
  "use_count p h = length (filter (\<lambda>e. snd e = p) (owning h))"

fun held_by :: "'o \<Rightarrow> ('n, 'o) holder \<Rightarrow> bool" where
  "held_by p (Field q f) \<longleftrightarrow> q = p"
| "held_by p _ \<longleftrightarrow> False"

text \<open>The destructors of the agent's objects end their threads.\<close>

definition destroy :: "'o \<Rightarrow> ('n, 'o) heap \<Rightarrow> ('n, 'o) heap" where
  "destroy p h =
     h\<lparr>live := filter (\<lambda>q. q \<noteq> p) (live h),
       owning := filter (\<lambda>e. \<not> held_by p (fst e)) (owning h),
       raw := filter (\<lambda>e. \<not> held_by p (fst e)) (raw h),
       running := filter (\<lambda>q. q \<noteq> p) (running h)\<rparr>"

function collect :: "('n, 'o) heap \<Rightarrow> ('n, 'o) heap" where
  "collect h =
     (case find (\<lambda>p. use_count p h = 0) (live h) of
        None \<Rightarrow> h
      | Some p \<Rightarrow> collect (destroy p h))"
  by pat_completeness auto
termination
proof (relation "measure (\<lambda>h. length (live h))")
  fix h :: "('n, 'o) heap" and p
  assume "find (\<lambda>p. use_count p h = 0) (live h) = Some p"
  then have "p \<in> set (live h)" by (auto dest: find_SomeD)
  then show "(destroy p h, h) \<in> measure (\<lambda>h. length (live h))"
    by (auto simp: destroy_def intro: length_filter_less)
qed simp

declare collect.simps [simp del]

section \<open>Statements\<close>

text \<open>
  \<open>Make x p\<close>: \<open>x = make_shared<p>()\<close> (or \<open>make_unique\<close>). \<open>Share x p\<close>: \<open>x = p->shared_from_this()\<close>.
  \<open>Assign x y\<close>: \<open>x = y\<close>. \<open>Reset x\<close>: \<open>x\<close> is reset or goes out of scope. \<open>Point x y\<close>: \<open>x\<close> is a raw
  pointer or reference to what \<open>y\<close> owns. \<open>Spawn p\<close>, \<open>Join p\<close>: the thread of \<open>p\<close> is started, and
  waited for.
\<close>

datatype ('n, 'o) stmt =
    Make "('n, 'o) holder" 'o
  | Share "('n, 'o) holder" 'o
  | Assign "('n, 'o) holder" "('n, 'o) holder"
  | Reset "('n, 'o) holder"
  | Point "('n, 'o) holder" "('n, 'o) holder"
  | Spawn 'o
  | Join 'o

fun held :: "('n, 'o) heap \<Rightarrow> ('n, 'o) holder \<Rightarrow> bool" where
  "held h (Field p f) \<longleftrightarrow> p \<in> set (live h)"
| "held h _ \<longleftrightarrow> True"

definition unset :: "('n, 'o) holder \<Rightarrow> (('n, 'o) holder \<times> 'o) list \<Rightarrow> (('n, 'o) holder \<times> 'o) list" where
  "unset x es = filter (\<lambda>e. fst e \<noteq> x) es"

definition own :: "('n, 'o) holder \<Rightarrow> 'o \<Rightarrow> ('n, 'o) heap \<Rightarrow> memory_error + ('n, 'o) heap" where
  "own x p h =
     (if \<not> held h x \<or> p \<notin> set (live h) then Inl Freed
      else Inr (collect (h\<lparr>owning := (x, p) # unset x (owning h)\<rparr>)))"

definition release :: "('n, 'o) holder \<Rightarrow> ('n, 'o) heap \<Rightarrow> memory_error + ('n, 'o) heap" where
  "release x h = (if held h x then Inr (collect (h\<lparr>owning := unset x (owning h)\<rparr>)) else Inl Freed)"

fun exec :: "('n, 'o) stmt \<Rightarrow> ('n, 'o) heap \<Rightarrow> memory_error + ('n, 'o) heap" where
  "exec (Make x p) h = (if p \<in> set (live h) then Inl NotMade else own x p (h\<lparr>live := p # live h\<rparr>))"
| "exec (Share x p) h = own x p h"
| "exec (Assign x y) h =
     (if \<not> held h y then Inl Freed
      else case map_of (owning h) y of None \<Rightarrow> release x h | Some p \<Rightarrow> own x p h)"
| "exec (Reset x) h = release x h"
| "exec (Point x y) h =
     (if \<not> held h x \<or> \<not> held h y then Inl Freed
      else case map_of (owning h) y of
             None \<Rightarrow> Inl NotMade
           | Some p \<Rightarrow> Inr (h\<lparr>raw := (x, p) # unset x (raw h)\<rparr>))"
| "exec (Spawn p) h = (if p \<in> set (live h) then Inr (h\<lparr>running := p # running h\<rparr>) else Inl Freed)"
| "exec (Join p) h = (if p \<in> set (live h) then Inr (h\<lparr>running := filter (\<lambda>q. q \<noteq> p) (running h)\<rparr>) else Inl Freed)"

fun exec_all :: "('n, 'o) stmt list \<Rightarrow> ('n, 'o) heap \<Rightarrow> memory_error + ('n, 'o) heap" where
  "exec_all [] h = Inr h"
| "exec_all (s # ss) h = (case exec s h of Inl e \<Rightarrow> Inl e | Inr h' \<Rightarrow> exec_all ss h')"

text \<open>A raw pointer is followed.\<close>

definition deref :: "('n, 'o) holder \<Rightarrow> ('n, 'o) heap \<Rightarrow> memory_error + 'o" where
  "deref x h =
     (case map_of (raw h) x of
        None \<Rightarrow> Inl NotMade
      | Some p \<Rightarrow> if p \<in> set (live h) then Inr p else Inl Freed)"

lemma exec_all_append:
  "exec_all (ss @ ts) h = (case exec_all ss h of Inl e \<Rightarrow> Inl e | Inr h' \<Rightarrow> exec_all ts h')"
  by (induction ss arbitrary: h) (auto split: sum.splits)

section \<open>No owning pointer dangles\<close>

definition linked :: "('n, 'o) heap \<Rightarrow> bool" where
  "linked h \<longleftrightarrow> distinct (live h) \<and> distinct (map fst (owning h)) \<and>
     (\<forall>(x, p) \<in> set (owning h). held h x \<and> p \<in> set (live h)) \<and> set (running h) \<subseteq> set (live h)"

text \<open>Every object is owned, and every owning pointer leads to an object.\<close>

definition sound :: "('n, 'o) heap \<Rightarrow> bool" where
  "sound h \<longleftrightarrow> linked h \<and> (\<forall>p \<in> set (live h). 0 < use_count p h)"

lemma use_count_0: "use_count p h = 0 \<longleftrightarrow> p \<notin> snd ` set (owning h)"
  by (auto simp: use_count_def filter_empty_conv)

lemma held_update [simp]:
  "held (h\<lparr>owning := es\<rparr>) x = held h x" "held (h\<lparr>raw := es\<rparr>) x = held h x" "held (h\<lparr>running := ps\<rparr>) x = held h x"
  by (cases x; simp)+

lemma held_more: "set (live h) \<subseteq> set ps \<Longrightarrow> held h x \<Longrightarrow> held (h\<lparr>live := ps\<rparr>) x"
  by (cases x) auto

lemma held_destroy: "held (destroy p h) x \<longleftrightarrow> held h x \<and> \<not> held_by p x"
  by (cases x) (auto simp: destroy_def)

lemma destroy_linked:
  assumes "linked h" "use_count p h = 0"
  shows "linked (destroy p h)"
proof -
  have p: "p \<notin> snd ` set (owning h)" using assms(2) by (simp add: use_count_0)
  have "held (destroy p h) x \<and> q \<in> set (live (destroy p h))" if "(x, q) \<in> set (owning (destroy p h))" for x q
  proof -
    have e: "(x, q) \<in> set (owning h)" "\<not> held_by p x" using that by (auto simp: destroy_def)
    then have "q \<noteq> p" using p by force
    moreover have "held h x" "q \<in> set (live h)" using assms(1) e(1) by (auto simp: linked_def)
    ultimately show ?thesis using e(2) by (auto simp: held_destroy) (simp add: destroy_def)
  qed
  moreover have "distinct (live (destroy p h))" "distinct (map fst (owning (destroy p h)))"
      "set (running (destroy p h)) \<subseteq> set (live (destroy p h))"
    using assms(1) by (auto simp: linked_def destroy_def distinct_map_filter)
  ultimately show ?thesis by (auto simp: linked_def)
qed

lemma collect_None: "find (\<lambda>p. use_count p h = 0) (live h) = None \<Longrightarrow> collect h = h"
  and collect_Some: "find (\<lambda>p. use_count p h = 0) (live h) = Some p \<Longrightarrow> collect h = collect (destroy p h)"
  by (simp_all add: collect.simps [of h])

text \<open>What every destruction keeps, collecting keeps.\<close>

lemma collect_keeps:
  assumes "P h" "\<And>h p. P h \<Longrightarrow> p \<in> set (live h) \<Longrightarrow> use_count p h = 0 \<Longrightarrow> P (destroy p h)"
  shows "P (collect h)"
  using assms(1)
proof (induction h rule: collect.induct)
  case (1 h)
  show ?case
  proof (cases "find (\<lambda>p. use_count p h = 0) (live h)")
    case None
    with 1(2) show ?thesis by (simp add: collect_None)
  next
    case (Some p)
    then have "p \<in> set (live h)" "use_count p h = 0" by (auto dest: find_SomeD)
    with assms(2) [OF 1(2)] 1(1) [OF Some] Some show ?thesis by (simp add: collect_Some)
  qed
qed

lemma collect_counted: "\<forall>p \<in> set (live (collect h)). 0 < use_count p (collect h)"
proof (induction h rule: collect.induct)
  case (1 h)
  show ?case
  proof (cases "find (\<lambda>p. use_count p h = 0) (live h)")
    case None
    then show ?thesis by (auto simp: collect_None find_None_iff)
  next
    case (Some p)
    then show ?thesis using 1 [OF Some] by (simp add: collect_Some)
  qed
qed

lemma collect_sound: "linked h \<Longrightarrow> sound (collect h)"
  unfolding sound_def by (blast intro: collect_keeps [of linked] destroy_linked collect_counted [THEN bspec])

lemma unset_keys: "distinct (map fst es) \<Longrightarrow> distinct (map fst (unset x es)) \<and> x \<notin> fst ` set (unset x es)"
  by (auto simp: unset_def distinct_map_filter)

lemma own_sound:
  assumes "linked h" "own x p h = Inr h'"
  shows "sound h'"
proof -
  have "linked (h\<lparr>owning := (x, p) # unset x (owning h)\<rparr>)"
    using assms unset_keys [of "owning h" x]
    by (auto simp: own_def linked_def split: if_splits) (auto simp: unset_def)
  then show ?thesis using assms(2) by (auto simp: own_def intro: collect_sound split: if_splits)
qed

lemma release_sound:
  assumes "linked h" "release x h = Inr h'"
  shows "sound h'"
proof -
  have "linked (h\<lparr>owning := unset x (owning h)\<rparr>)"
    using assms(1) unset_keys [of "owning h" x] by (auto simp: linked_def) (auto simp: unset_def)
  then show ?thesis using assms(2) by (auto simp: release_def intro: collect_sound split: if_splits)
qed

lemma exec_sound:
  assumes "sound h" "exec s h = Inr h'"
  shows "sound h'"
proof -
  have l: "linked h" using assms(1) by (simp add: sound_def)
  note keep = own_sound [OF l] release_sound [OF l]
  show ?thesis
  proof (cases s)
    case (Make x p)
    then have "linked (h\<lparr>live := p # live h\<rparr>)" using l assms(2)
      by (auto simp: linked_def intro: held_more [of h] split: if_splits)
    then show ?thesis using assms(2) Make own_sound by (auto split: if_splits)
  next
    case (Share x p)
    then show ?thesis using assms(2) keep by simp
  next
    case (Assign x y)
    then show ?thesis using assms(2) keep by (simp split: if_splits option.splits)
  next
    case (Reset x)
    then show ?thesis using assms(2) keep by simp
  qed (use assms in \<open>auto simp: sound_def linked_def use_count_def split: if_splits option.splits\<close>)
qed

lemma exec_all_sound: "sound h \<Longrightarrow> exec_all ss h = Inr h' \<Longrightarrow> sound h'"
proof (induction ss arbitrary: h)
  case (Cons s ss)
  then obtain g where "exec s h = Inr g" "exec_all ss g = Inr h'" by (auto split: sum.splits)
  with Cons.IH exec_sound [OF Cons.prems(1)] show ?case by blast
qed simp

lemma empty_sound: "sound empty_heap"
  by (simp add: sound_def linked_def empty_heap_def)

section \<open>Objects that keep each other\<close>

text \<open>
  Owning pointers each of which is a member of an object owned by one of them: the objects stay,
  whatever else lets go of them, unless one of these very pointers is changed.
\<close>

definition knot :: "(('n, 'o) holder \<times> 'o) set \<Rightarrow> ('n, 'o) heap \<Rightarrow> bool" where
  "knot X h \<longleftrightarrow> X \<subseteq> set (owning h) \<and> snd ` X \<subseteq> set (live h) \<and>
     (\<forall>e \<in> X. \<exists>q \<in> snd ` X. held_by q (fst e))"

text \<open>The same as a computation.\<close>

definition check_knot :: "(('n, 'o) holder \<times> 'o) list \<Rightarrow> ('n, 'o) heap \<Rightarrow> bool" where
  "check_knot xs h \<longleftrightarrow>
     list_all (\<lambda>e. e \<in> set (owning h) \<and> snd e \<in> set (live h) \<and> list_ex (\<lambda>d. held_by (snd d) (fst e)) xs) xs"

lemma check_knot: "check_knot xs h \<Longrightarrow> knot (set xs) h"
  by (auto simp: check_knot_def knot_def list_all_iff list_ex_iff)

text \<open>Pointers of the knot, and raw pointers its objects keep, stay as they are.\<close>

definition kept ::
  "(('n, 'o) holder \<times> 'o) set \<Rightarrow> (('n, 'o) holder \<times> 'o) set \<Rightarrow> ('n, 'o) heap \<Rightarrow> bool" where
  "kept X R h \<longleftrightarrow> knot X h \<and>
     (\<forall>e \<in> R. map_of (raw h) (fst e) = Some (snd e) \<and> (\<exists>q \<in> snd ` X. held_by q (fst e)))"

text \<open>The statement changes none of the pointers \<open>Y\<close>.\<close>

fun spares :: "('n, 'o) holder set \<Rightarrow> ('n, 'o) stmt \<Rightarrow> bool" where
  "spares Y (Make x p) \<longleftrightarrow> x \<notin> Y"
| "spares Y (Share x p) \<longleftrightarrow> x \<notin> Y"
| "spares Y (Assign x y) \<longleftrightarrow> x \<notin> Y"
| "spares Y (Reset x) \<longleftrightarrow> x \<notin> Y"
| "spares Y (Point x y) \<longleftrightarrow> x \<notin> Y"
| "spares Y _ \<longleftrightarrow> True"

lemma held_by_unique: "held_by p x \<Longrightarrow> held_by q x \<Longrightarrow> p = q"
  by (cases x) auto

lemma knot_used:
  assumes "knot X h" "p \<in> snd ` X"
  shows "use_count p h \<noteq> 0"
proof -
  have "p \<in> snd ` set (owning h)" using assms by (auto simp: knot_def)
  then show ?thesis by (simp only: use_count_0) simp
qed

lemma map_of_filter_keep: "P x \<Longrightarrow> map_of (filter (\<lambda>e. P (fst e)) es) x = map_of es x"
  by (induction es) auto

lemma destroy_kept:
  assumes "kept X R h" "use_count p h = 0"
  shows "kept X R (destroy p h)"
proof -
  have k: "knot X h" using assms(1) by (simp add: kept_def)
  have p: "p \<notin> snd ` X" using assms(2) knot_used [OF k, of p] by blast
  then have other: "\<not> held_by p x" if "q \<in> snd ` X" "held_by q x" for q x
    using that held_by_unique by metis
  have "knot X (destroy p h)"
    unfolding knot_def
  proof (intro conjI)
    show "X \<subseteq> set (owning (destroy p h))"
    proof
      fix e assume e: "e \<in> X"
      then obtain q where "q \<in> snd ` X" "held_by q (fst e)" using k unfolding knot_def by blast
      then have "\<not> held_by p (fst e)" by (rule other)
      moreover have "e \<in> set (owning h)" using e k unfolding knot_def by blast
      ultimately show "e \<in> set (owning (destroy p h))" by (simp add: destroy_def)
    qed
    show "snd ` X \<subseteq> set (live (destroy p h))" using k p by (auto simp: knot_def destroy_def)
    show "\<forall>e \<in> X. \<exists>q \<in> snd ` X. held_by q (fst e)" using k by (simp add: knot_def)
  qed
  moreover have "map_of (raw (destroy p h)) (fst e) = Some (snd e) \<and> (\<exists>q \<in> snd ` X. held_by q (fst e))"
    if "e \<in> R" for e
  proof -
    have e: "map_of (raw h) (fst e) = Some (snd e) \<and> (\<exists>q \<in> snd ` X. held_by q (fst e))"
      using assms(1) that by (simp only: kept_def)
    then obtain q where q: "q \<in> snd ` X" "held_by q (fst e)" by (elim conjE bexE)
    have "map_of (raw (destroy p h)) (fst e) = map_of (raw h) (fst e)"
      using other [OF q] map_of_filter_keep [of "\<lambda>x. \<not> held_by p x" "fst e" "raw h"]
      by (simp only: destroy_def heap.simps) simp
    then show ?thesis using e by (simp only:)
  qed
  ultimately show ?thesis by (simp only: kept_def) simp
qed

lemma collect_kept: "kept X R h \<Longrightarrow> kept X R (collect h)"
  by (rule collect_keeps [of "kept X R" h]) (assumption, rule destroy_kept)

lemma unset_kept: "kept X R h \<Longrightarrow> x \<notin> fst ` X \<Longrightarrow> kept X R (h\<lparr>owning := es @ unset x (owning h)\<rparr>)"
proof -
  assume k: "kept X R h" and x: "x \<notin> fst ` X"
  have "X \<subseteq> set (owning h)" using k by (simp add: kept_def knot_def)
  moreover have "fst e \<noteq> x" if "e \<in> X" for e using that x by auto
  ultimately have "X \<subseteq> set (es @ unset x (owning h))" by (auto simp: unset_def)
  then show ?thesis using k by (simp add: kept_def knot_def)
qed

lemma own_kept: "kept X R h \<Longrightarrow> x \<notin> fst ` X \<Longrightarrow> own x p h = Inr h' \<Longrightarrow> kept X R h'"
  using unset_kept [of X R h x "[(x, p)]"] by (auto simp: own_def intro: collect_kept split: if_splits)

lemma release_kept: "kept X R h \<Longrightarrow> x \<notin> fst ` X \<Longrightarrow> release x h = Inr h' \<Longrightarrow> kept X R h'"
  using unset_kept [of X R h x "[]"] by (auto simp: release_def intro: collect_kept split: if_splits)

lemma exec_kept:
  assumes "kept X R h" "spares (fst ` X \<union> fst ` R) s" "exec s h = Inr h'"
  shows "kept X R h'"
proof (cases s)
  case (Make x p)
  have "kept X R (h\<lparr>live := p # live h\<rparr>)" using assms(1) by (auto simp: kept_def knot_def)
  then show ?thesis using assms(2,3) own_kept by (auto simp: Make split: if_splits)
next
  case (Point x y)
  then obtain p where h': "h' = h\<lparr>raw := (x, p) # unset x (raw h)\<rparr>"
    using assms(3) by (auto split: if_splits option.splits)
  have "map_of (raw h') y = map_of (raw h) y" if "y \<in> fst ` R" for y
  proof -
    have "y \<noteq> x" using assms(2) that Point by auto
    then show ?thesis using map_of_filter_keep [of "\<lambda>y. y \<noteq> x" y "raw h"] by (simp add: h' unset_def)
  qed
  then have "map_of (raw h') (fst e) = map_of (raw h) (fst e)" if "e \<in> R" for e using that by simp
  then show ?thesis using assms(1) by (simp add: kept_def knot_def) (simp add: h')
next
  case (Share x p)
  then show ?thesis using assms(2,3) own_kept [OF assms(1), of x p] by simp
next
  case (Assign x y)
  then have "x \<notin> fst ` X" using assms(2) by simp
  note keep = own_kept [OF assms(1) this] release_kept [OF assms(1) this]
  show ?thesis using assms(3) keep by (simp add: Assign split: if_splits option.splits)
next
  case (Reset x)
  then show ?thesis using assms(2,3) release_kept [OF assms(1), of x] by simp
qed (use assms(1,3) in \<open>simp_all add: kept_def knot_def split: if_splits\<close>, auto)

lemma exec_all_kept:
  assumes "kept X R h" "\<forall>s \<in> set ss. spares (fst ` X \<union> fst ` R) s" "exec_all ss h = Inr h'"
  shows "kept X R h'"
  using assms
proof (induction ss arbitrary: h)
  case (Cons s ss)
  then obtain k where k: "exec s h = Inr k" "exec_all ss k = Inr h'" by (auto split: sum.splits)
  have "kept X R k" using exec_kept [OF Cons.prems(1) _ k(1)] Cons.prems(2) by simp
  then show ?case using Cons.IH [OF _ _ k(2)] Cons.prems(2) by simp
qed simp

lemma kept_live: "kept X R h \<Longrightarrow> snd ` X \<subseteq> set (live h)"
  by (simp add: kept_def knot_def)

text \<open>So do their threads, unless they are waited for.\<close>

lemma collect_runs: "p \<in> set (running h) \<Longrightarrow> p \<in> set (live (collect h)) \<Longrightarrow> p \<in> set (running (collect h))"
  using collect_keeps [of "\<lambda>h. p \<in> set (live h) \<longrightarrow> p \<in> set (running h)" h] by (auto simp: destroy_def)

lemma exec_runs:
  "exec s h = Inr h' \<Longrightarrow> p \<in> set (running h) \<Longrightarrow> p \<in> set (live h') \<Longrightarrow> s \<noteq> Join p \<Longrightarrow> p \<in> set (running h')"
  by (cases s) (auto simp: own_def release_def intro: collect_runs split: if_splits option.splits)

lemma exec_all_runs:
  assumes "kept X R h" "\<forall>s \<in> set ss. spares (fst ` X \<union> fst ` R) s" "exec_all ss h = Inr h'"
    "p \<in> snd ` X" "p \<in> set (running h)" "Join p \<notin> set ss"
  shows "p \<in> set (running h')"
  using assms
proof (induction ss arbitrary: h)
  case (Cons s ss)
  then obtain k where k: "exec s h = Inr k" "exec_all ss k = Inr h'" by (auto split: sum.splits)
  have kk: "kept X R k" using exec_kept [OF Cons.prems(1) _ k(1)] Cons.prems(2) by simp
  then have "p \<in> set (running k)" using exec_runs [OF k(1) Cons.prems(5)] kept_live Cons.prems(4,6) by fastforce
  then show ?case using Cons.IH [OF kk _ k(2) Cons.prems(4)] Cons.prems(2,6) by simp
qed simp

text \<open>An object that is gone and is not made again stays gone.\<close>

fun makes :: "'o \<Rightarrow> ('n, 'o) stmt \<Rightarrow> bool" where
  "makes p (Make x q) \<longleftrightarrow> q = p"
| "makes p _ \<longleftrightarrow> False"

lemma collect_gone: "p \<notin> set (live h) \<Longrightarrow> p \<notin> set (live (collect h))"
  by (rule collect_keeps [of "\<lambda>h. p \<notin> set (live h)" h]) (simp_all add: destroy_def)

lemma exec_gone: "exec s h = Inr h' \<Longrightarrow> p \<notin> set (live h) \<Longrightarrow> \<not> makes p s \<Longrightarrow> p \<notin> set (live h')"
  by (cases s) (auto simp: own_def release_def dest: collect_gone [THEN notE, rotated] split: if_splits option.splits)

lemma exec_all_gone:
  "exec_all ss h = Inr h' \<Longrightarrow> p \<notin> set (live h) \<Longrightarrow> \<forall>s \<in> set ss. \<not> makes p s \<Longrightarrow> p \<notin> set (live h')"
proof (induction ss arbitrary: h)
  case (Cons s ss)
  then obtain k where k: "exec s h = Inr k" "exec_all ss k = Inr h'" by (auto split: sum.splits)
  then show ?case using Cons.IH [OF k(2)] exec_gone [OF k(1)] Cons.prems(2,3) by simp
qed simp

end
