(* ===== verification/AppOwnership.thy ===== *)
theory AppOwnership
  imports SharedPointers GatewayClient
begin

text \<open>
  Who owns whom in the agent: \<open>startAutowareApp\<close>, \<open>stopAutowareApp\<close> and the end of \<open>main\<close> as
  what they do to the owning pointers, captures included, and to the threads.
\<close>

section \<open>The objects\<close>

datatype app_object =
    SessionObj
  | ControllerObj
  | TripControllerObj
  | ClusterObj
  | PlanningObj
  | PerceptionObj
  | TripObj
  | LocationObj
  | EtaAdapterObj
  | LocationAdapterObj
  | TripAdapterObj
  | StreamClientObj

text \<open>
  Variables, handles and members, by their names in the code; of a callback kept in a member, what
  it captures.
\<close>

datatype app_name =
    n_zsession
  | n_zsession_in
  | n_controller
  | n_trip_ctrl
  | n_node
  | n_session
  | n_cluster_bridge
  | n_planning_bridge
  | n_perception_bridge
  | n_trip_bridge
  | n_eta_adapter
  | n_state
  | n_loc_adapter
  | n_trip_adapter
  | n_stream_client
  | n_trip_manager
  | n_eta_provider
  | n_location_provider
  | n_current_request_id
  | n_location_bridge
  | n_gps_provider_ctrl
  | n_trip_id_provider_ta
  | n_on_trip_init_ctrl
  | n_on_trip_init_sc
  | n_on_trip_move_ctrl
  | n_on_order_update_location_ctrl
  | n_on_order_update_location_sc
  | n_on_trip_cancel_ctrl
  | n_on_trip_cancel_sc
  | n_trip_state_callback_sc
  | n_trip_state_callback_lb
  | n_ros_thread

type_synonym app_stmt = "(app_name, app_object) stmt"
type_synonym app_heap = "(app_name, app_object) heap"

section \<open>Starting\<close>

text \<open>A session is opened unless the caller passed one.\<close>

definition open_session :: "bool \<Rightarrow> app_stmt list" where
  "open_session given =
     (if given then [Assign (Handle n_zsession) (Handle n_zsession_in)]
      else [Make (Handle n_zsession) SessionObj])"

text \<open>
  \<open>AutowareController::initialize\<close> starts its thread and posts the task that makes the trip
  controller; \<open>ready\<close> says whether the task has run.
\<close>

definition make_controller :: "bool \<Rightarrow> app_stmt list" where
  "make_controller ready =
     [Make (Handle n_controller) ControllerObj, Spawn ControllerObj] @
     (if ready
      then [Make (Field ControllerObj n_trip_ctrl) TripControllerObj,
            Share (Field TripControllerObj n_node) ControllerObj]
      else []) @
     [Assign (Local n_node) (Handle n_controller)]"

text \<open>A bridge keeps the session as a \<open>ZenohPublisher\<close>, and the node, and starts its thread.\<close>

definition make_bridge :: "app_name \<Rightarrow> app_object \<Rightarrow> app_stmt list" where
  "make_bridge x b =
     [Make (Handle x) b, Assign (Field b n_session) (Handle n_zsession),
      Assign (Field b n_node) (Local n_node), Spawn b]"

definition make_bridges :: "app_stmt list" where
  "make_bridges =
     make_bridge n_cluster_bridge ClusterObj @ make_bridge n_planning_bridge PlanningObj @
     make_bridge n_perception_bridge PerceptionObj @ make_bridge n_trip_bridge TripObj @
     [Assign (Field TripObj n_controller) (Handle n_controller)]"

text \<open>The adapters; the first two only refer to the state of the cluster bridge.\<close>

definition make_adapters :: "app_stmt list" where
  "make_adapters =
     [Make (Local n_eta_adapter) EtaAdapterObj, Point (Field EtaAdapterObj n_state) (Handle n_cluster_bridge),
      Make (Local n_loc_adapter) LocationAdapterObj,
      Point (Field LocationAdapterObj n_state) (Handle n_cluster_bridge),
      Make (Local n_trip_adapter) TripAdapterObj,
      Assign (Field TripAdapterObj n_controller) (Handle n_controller)]"

text \<open>The stream client takes raw pointers, and a reference to a field of the cluster bridge.\<close>

definition make_client :: "app_stmt list" where
  "make_client =
     [Make (Local n_stream_client) StreamClientObj,
      Point (Field StreamClientObj n_trip_manager) (Local n_trip_adapter),
      Point (Field StreamClientObj n_eta_provider) (Local n_eta_adapter),
      Point (Field StreamClientObj n_location_provider) (Local n_loc_adapter),
      Point (Field StreamClientObj n_current_request_id) (Handle n_cluster_bridge),
      Spawn StreamClientObj]"

definition make_location :: "app_stmt list" where
  "make_location =
     make_bridge n_location_bridge LocationObj @
     [Assign (Field LocationObj n_gps_provider_ctrl) (Handle n_controller),
      Assign (Field LocationObj n_trip_id_provider_ta) (Local n_trip_adapter)]"

text \<open>What the handlers and the state callback capture.\<close>

definition connect_handlers :: "app_stmt list" where
  "connect_handlers =
     [Assign (Field StreamClientObj n_on_trip_init_ctrl) (Handle n_controller),
      Assign (Field StreamClientObj n_on_trip_init_sc) (Local n_stream_client),
      Assign (Field StreamClientObj n_on_trip_move_ctrl) (Handle n_controller),
      Assign (Field StreamClientObj n_on_order_update_location_ctrl) (Handle n_controller),
      Assign (Field StreamClientObj n_on_order_update_location_sc) (Local n_stream_client),
      Assign (Field StreamClientObj n_on_trip_cancel_ctrl) (Handle n_controller),
      Assign (Field StreamClientObj n_on_trip_cancel_sc) (Local n_stream_client),
      Assign (Field ControllerObj n_trip_state_callback_sc) (Local n_stream_client),
      Assign (Field ControllerObj n_trip_state_callback_lb) (Handle n_location_bridge)]"

text \<open>The handles are returned, the locals go in reverse order.\<close>

definition startAutowareApp :: "bool \<Rightarrow> bool \<Rightarrow> app_stmt list" where
  "startAutowareApp given ready =
     open_session given @ make_controller ready @ make_bridges @ make_adapters @ make_client @ make_location @
     connect_handlers @
     [Assign (Handle n_stream_client) (Local n_stream_client),
      Assign (Thread n_ros_thread) (Handle n_controller)] @
     map (\<lambda>x. Reset (Local x)) [n_stream_client, n_trip_adapter, n_loc_adapter, n_eta_adapter, n_node]"

section \<open>Stopping\<close>

definition stopAutowareApp :: "app_stmt list" where
  "stopAutowareApp =
     map Join [PlanningObj, PerceptionObj, TripObj, ClusterObj, LocationObj, StreamClientObj] @
     [Reset (Thread n_ros_thread)] @
     map (\<lambda>x. Reset (Handle x))
       [n_trip_bridge, n_perception_bridge, n_planning_bridge, n_cluster_bridge, n_location_bridge,
        n_controller, n_zsession]"

text \<open>The handles left go with \<open>app\<close> when \<open>main\<close> returns.\<close>

definition leave_main :: "app_stmt list" where
  "leave_main = [Reset (Handle n_stream_client)]"

section \<open>What is there then\<close>

text \<open>The process before, with the session of the caller or without.\<close>

definition before_start :: "bool \<Rightarrow> app_heap" where
  "before_start given =
     (if given then empty_heap\<lparr>live := [SessionObj], owning := [(Handle n_zsession_in, SessionObj)]\<rparr> else empty_heap)"

definition start_heap :: "bool \<Rightarrow> bool \<Rightarrow> memory_error + app_heap" where
  "start_heap given ready = exec_all (startAutowareApp given ready) (before_start given)"

text \<open>
  The application keeps itself: the Autoware controller's state callback holds the stream client
  and the location bridge, the location bridge's providers hold the controller and the trip
  adapter, the stream client's handlers hold the stream client.
\<close>

definition app_knot :: "((app_name, app_object) holder \<times> app_object) list" where
  "app_knot =
     [(Field ControllerObj n_trip_state_callback_lb, LocationObj),
      (Field ControllerObj n_trip_state_callback_sc, StreamClientObj),
      (Field LocationObj n_gps_provider_ctrl, ControllerObj),
      (Field LocationObj n_trip_id_provider_ta, TripAdapterObj),
      (Field LocationObj n_session, SessionObj),
      (Field StreamClientObj n_on_trip_init_sc, StreamClientObj)]"

definition client_pointers :: "((app_name, app_object) holder \<times> app_object) list" where
  "client_pointers =
     [(Field StreamClientObj n_trip_manager, TripAdapterObj),
      (Field StreamClientObj n_eta_provider, EtaAdapterObj),
      (Field StreamClientObj n_location_provider, LocationAdapterObj)]"

lemma start_computed:
  "case start_heap given ready of Inl e \<Rightarrow> False
   | Inr h \<Rightarrow> check_knot app_knot h \<and> list_all (\<lambda>e. map_of (raw h) (fst e) = Some (snd e)) client_pointers \<and>
       EtaAdapterObj \<notin> set (live h) \<and> LocationAdapterObj \<notin> set (live h) \<and> ControllerObj \<in> set (running h)"
  by (cases given; cases ready; simp only:; code_simp)

lemma stop_computed:
  "case exec_all (startAutowareApp given ready @ stopAutowareApp @ leave_main) (before_start given) of Inl e \<Rightarrow> False
   | Inr h \<Rightarrow> set (live h) = set ([ControllerObj, LocationObj, StreamClientObj, TripAdapterObj, SessionObj] @
         (if ready then [TripControllerObj] else [])) \<and> running h = [ControllerObj]"
  by (cases given; cases ready; simp only:; code_simp)

lemma before_start_sound: "sound (before_start given)"
  by (simp add: before_start_def sound_def linked_def empty_heap_def use_count_def)

lemma start_sound: "start_heap given ready = Inr h \<Longrightarrow> sound h"
  unfolding start_heap_def by (rule exec_all_sound [OF before_start_sound])

lemma stopped_heap:
  assumes "start_heap given ready = Inr h"
  obtains g where "exec_all (stopAutowareApp @ leave_main) h = Inr g" "running g = [ControllerObj]"
    "set (live g) = {ControllerObj, LocationObj, StreamClientObj, TripAdapterObj, SessionObj} \<union>
       (if ready then {TripControllerObj} else {})"
proof -
  have "exec_all (startAutowareApp given ready @ stopAutowareApp @ leave_main) (before_start given) =
      exec_all (stopAutowareApp @ leave_main) h"
    using assms by (simp only: exec_all_append [of "startAutowareApp given ready"] start_heap_def sum.case)
  then show thesis
    using stop_computed [where given = given and ready = ready] that
    by (cases "exec_all (stopAutowareApp @ leave_main) h") auto
qed

text \<open>Each of the client's raw pointers is a member of an object of the knot, so it stays as it is.\<close>

lemma start_kept:
  assumes "start_heap given ready = Inr h"
  shows "kept (set app_knot) (set client_pointers) h"
proof -
  have "check_knot app_knot h" "list_all (\<lambda>e. map_of (raw h) (fst e) = Some (snd e)) client_pointers"
    using start_computed [of given ready] assms by simp_all
  moreover have "\<forall>e \<in> set client_pointers. \<exists>q \<in> snd ` set app_knot. held_by q (fst e)"
    by (simp add: client_pointers_def app_knot_def)
  ultimately show ?thesis using check_knot by (simp only: kept_def list_all_iff) blast
qed

lemma app_kept:
  assumes "start_heap given ready = Inr h" "exec_all ss h = Inr h'"
    "\<forall>s \<in> set ss. spares (fst ` set (app_knot @ client_pointers)) s"
  shows "kept (set app_knot) (set client_pointers) h'"
  using exec_all_kept [OF start_kept [OF assms(1)] _ assms(2)] assms(3) by (simp add: image_Un)

section \<open>Reports through the client's pointers\<close>

text \<open>
  What a report asks a provider, it asks through the raw pointer the client has kept; the answer
  of a provider that is gone is undefined.
\<close>

definition ReportEta_through ::
  "app_heap \<Rightarrow> eta_data \<Rightarrow> real \<Rightarrow> real \<Rightarrow> real \<Rightarrow> stream_client \<Rightarrow> memory_error + stream_client" where
  "ReportEta_through h provider_eta distance_m time_seconds fare c =
     (case deref (Field StreamClientObj n_eta_provider) h of
        Inl e \<Rightarrow> Inl e
      | Inr _ \<Rightarrow> Inr (ReportEta provider_eta distance_m time_seconds fare c))"

definition ReportLocation_through :: "app_heap \<Rightarrow> location_data \<Rightarrow> stream_client \<Rightarrow> memory_error + stream_client" where
  "ReportLocation_through h d c =
     (case deref (Field StreamClientObj n_location_provider) h of
        Inl e \<Rightarrow> Inl e
      | Inr _ \<Rightarrow> Inr (ReportLocation_current d c))"

definition ReportStatus_through ::
  "app_heap \<Rightarrow> trip_adapter \<Rightarrow> string \<Rightarrow> stream_client \<Rightarrow> memory_error + stream_client" where
  "ReportStatus_through h tm st c =
     (case deref (Field StreamClientObj n_trip_manager) h of
        Inl e \<Rightarrow> Inl e
      | Inr _ \<Rightarrow> Inr (ReportStatus tm st c))"

definition ReportArrive_through :: "app_heap \<Rightarrow> trip_adapter \<Rightarrow> stream_client \<Rightarrow> memory_error + stream_client" where
  "ReportArrive_through h tm c =
     (case deref (Field StreamClientObj n_trip_manager) h of
        Inl e \<Rightarrow> Inl e
      | Inr _ \<Rightarrow> Inr (ReportArrive tm c))"

lemmas report_through_defs =
  ReportEta_through_def ReportLocation_through_def ReportStatus_through_def ReportArrive_through_def

lemma deref_kept: "kept X R h \<Longrightarrow> (x, p) \<in> R \<Longrightarrow> deref x h = (if p \<in> set (live h) then Inr p else Inl Freed)"
  by (auto simp: kept_def deref_def)

end
