(* ===== verification/OwnershipProperties.thy ===== *)
theory OwnershipProperties
  imports AppOwnership
begin

text \<open>
  What the ownership of the agent's objects means for the reports to the gateway and for the
  end of the process.
\<close>

text \<open>
  C27. From the return of startAutowareApp on, whatever is done that leaves the application's own
  pointers alone and makes no new providers, every ETA report and every report of the provider's
  location reads a provider that has been destroyed, while the status and arrival reports reach
  their trip manager, and no owning pointer dangles.
\<close>

theorem providers_freed:
  assumes "start_heap given ready = Inr h" "exec_all ss h = Inr h'"
    "\<forall>s \<in> set ss. spares (fst ` set (app_knot @ client_pointers)) s"
    "\<forall>s \<in> set ss. \<not> makes EtaAdapterObj s \<and> \<not> makes LocationAdapterObj s"
  shows "ReportEta_through h' d x t f c = Inl Freed \<and> ReportLocation_through h' l c = Inl Freed \<and>
    ReportStatus_through h' tm st c = Inr (ReportStatus tm st c) \<and>
    ReportArrive_through h' tm c = Inr (ReportArrive tm c) \<and> sound h'"
proof -
  note k = app_kept [OF assms(1-3)]
  have "EtaAdapterObj \<notin> set (live h)" "LocationAdapterObj \<notin> set (live h)"
    using start_computed [of given ready] assms(1) by simp_all
  then have "EtaAdapterObj \<notin> set (live h')" "LocationAdapterObj \<notin> set (live h')"
    using exec_all_gone [OF assms(2)] assms(4) by blast+
  moreover have "TripAdapterObj \<in> set (live h')" using kept_live [OF k] by (simp add: app_knot_def)
  moreover have "sound h'" by (rule exec_all_sound [OF start_sound [OF assms(1)] assms(2)])
  ultimately show ?thesis
    using deref_kept [OF k] by (simp add: report_through_defs client_pointers_def)
qed

theorem providers_freed_witness:
  "case start_heap False True of Inl e \<Rightarrow> False
   | Inr h \<Rightarrow> ReportEta_through h \<lparr>ed_request_id = 7, ed_time_seconds = 0, ed_fare = 0\<rparr> 1200 60 8
       (new_stream_client ''V1'' 0) = Inl Freed"
proof -
  obtain h where h: "start_heap False True = Inr h"
    using start_computed [of False True] by (cases "start_heap False True") simp_all
  have "exec_all [] h = Inr h" by simp
  from providers_freed [OF h this] h show ?thesis by simp
qed

text \<open>
  C28. From the return of startAutowareApp on, whatever is done that leaves the application's own
  pointers alone and does not wait for the thread of the Autoware controller, the controller, its
  thread, the location bridge, the stream client, the trip adapter and the zenoh session remain.
  stopAutowareApp and the end of main are such statements: after them exactly these objects are
  left, with the trip controller when it was made, and only the controller's thread runs.
\<close>

theorem stop_leaves_agent:
  assumes "start_heap given ready = Inr h" "exec_all ss h = Inr h'"
    "\<forall>s \<in> set ss. spares (fst ` set (app_knot @ client_pointers)) s" "Join ControllerObj \<notin> set ss"
  shows "{ControllerObj, LocationObj, StreamClientObj, TripAdapterObj, SessionObj} \<subseteq> set (live h') \<and>
    ControllerObj \<in> set (running h') \<and>
    (\<exists>g. exec_all (stopAutowareApp @ leave_main) h = Inr g \<and> running g = [ControllerObj] \<and>
       set (live g) = {ControllerObj, LocationObj, StreamClientObj, TripAdapterObj, SessionObj} \<union>
         (if ready then {TripControllerObj} else {}))"
proof (intro conjI)
  note k = app_kept [OF assms(1-3)]
  show "{ControllerObj, LocationObj, StreamClientObj, TripAdapterObj, SessionObj} \<subseteq> set (live h')"
    using kept_live [OF k] by (simp add: app_knot_def)
  have "ControllerObj \<in> set (running h)" using start_computed [of given ready] assms(1) by simp
  then show "ControllerObj \<in> set (running h')"
    using exec_all_runs [OF start_kept [OF assms(1)] _ assms(2) _ _ assms(4)] assms(3)
    by (simp add: image_Un) (simp add: app_knot_def)
  show "\<exists>g. exec_all (stopAutowareApp @ leave_main) h = Inr g \<and> running g = [ControllerObj] \<and>
       set (live g) = {ControllerObj, LocationObj, StreamClientObj, TripAdapterObj, SessionObj} \<union>
         (if ready then {TripControllerObj} else {})"
    by (rule stopped_heap [OF assms(1)]) blast
qed

theorem stop_leaves_agent_witness:
  "case exec_all (startAutowareApp True True @ stopAutowareApp) (before_start True) of Inl e \<Rightarrow> False
   | Inr h \<Rightarrow> ControllerObj \<in> set (live h) \<and> ControllerObj \<in> set (running h)"
proof -
  obtain h where h: "start_heap True True = Inr h"
    using start_computed [of True True] by (cases "start_heap True True") simp_all
  have s: "\<forall>s \<in> set stopAutowareApp. spares (fst ` set (app_knot @ client_pointers)) s"
      "Join ControllerObj \<notin> set stopAutowareApp"
    by (simp_all add: stopAutowareApp_def app_knot_def client_pointers_def)
  obtain g where "exec_all (stopAutowareApp @ leave_main) h = Inr g" by (rule stopped_heap [OF h])
  then obtain h' where h': "exec_all stopAutowareApp h = Inr h'"
    by (cases "exec_all stopAutowareApp h") (auto simp: exec_all_append)
  from stop_leaves_agent [OF h h' s] h h' show ?thesis
    by (simp add: exec_all_append start_heap_def)
qed

end
