(* ===== verification/Publications.thy ===== *)
theory Publications
  imports ClusterBridge PlanningBridge PerceptionBridge TripBridge LocationBridge
begin

text \<open>
  \<open>zenoh_publisher.h\<close> and what the five bridges put on the session they share: each bridge is a
  publisher with a key of its own, and \<open>broadcastFrame\<close> puts the serialised frame there. The
  bridges run beside each other, in any order of their steps.
\<close>

section \<open>The publisher\<close>

text \<open>What was put on the session's keys, in order; payloads are of a type \<open>'b\<close>.\<close>

type_synonym 'b network = "(string \<times> 'b) list"

record zenoh_publisher =
  zp_key :: string

definition declare_publisher :: "string \<Rightarrow> zenoh_publisher" where
  "declare_publisher key = \<lparr>zp_key = key\<rparr>"

definition publish :: "zenoh_publisher \<Rightarrow> 'b \<Rightarrow> 'b network \<Rightarrow> 'b network" where
  "publish p payload net = net @ [(zp_key p, payload)]"

definition cluster_publisher :: zenoh_publisher where
  "cluster_publisher = declare_publisher ''autoware/cluster''"

definition planning_publisher :: zenoh_publisher where
  "planning_publisher = declare_publisher ''autoware/planning''"

definition perception_publisher :: zenoh_publisher where
  "perception_publisher = declare_publisher ''autoware/perception''"

definition trip_publisher :: zenoh_publisher where
  "trip_publisher = declare_publisher ''autoware/trip''"

definition location_publisher :: zenoh_publisher where
  "location_publisher = declare_publisher ''autoware/location''"

text \<open>
  The serialisers, which belong to the generated protobuf classes and the JSON library, are
  parameters.
\<close>

record 'b serializers =
  ser_cluster :: "vehicle_frame \<Rightarrow> 'b"
  ser_planning :: "planning_frame \<Rightarrow> 'b"
  ser_perception :: "perception_frame \<Rightarrow> 'b"
  ser_trip :: "trip_frame \<Rightarrow> 'b"
  dump_location :: "location_json \<Rightarrow> 'b"

definition broadcast_vehicle :: "'b serializers \<Rightarrow> vehicle_frame \<Rightarrow> 'b network \<Rightarrow> 'b network" where
  "broadcast_vehicle k frame = publish cluster_publisher (ser_cluster k frame)"

definition broadcast_planning :: "'b serializers \<Rightarrow> planning_frame \<Rightarrow> 'b network \<Rightarrow> 'b network" where
  "broadcast_planning k frame = publish planning_publisher (ser_planning k frame)"

definition broadcast_perception :: "'b serializers \<Rightarrow> perception_frame \<Rightarrow> 'b network \<Rightarrow> 'b network" where
  "broadcast_perception k frame = publish perception_publisher (ser_perception k frame)"

definition broadcast_trip :: "'b serializers \<Rightarrow> trip_frame \<Rightarrow> 'b network \<Rightarrow> 'b network" where
  "broadcast_trip k frame = publish trip_publisher (ser_trip k frame)"

definition broadcast_json :: "'b serializers \<Rightarrow> location_json \<Rightarrow> 'b network \<Rightarrow> 'b network" where
  "broadcast_json k j = publish location_publisher (dump_location k j)"

section \<open>The five bridges\<close>

record 'b bridges =
  br_cluster :: cluster_bridge
  br_planning :: planning_bridge
  br_perception :: perception_bridge
  br_trip :: trip_bridge
  br_location :: location_bridge
  br_net :: "'b network"

datatype 'c bridges_event =
    AtCluster "(cluster_msg, i64) loop_event"
  | AtPlanning "(planning_msg, i64) loop_event"
  | AtPerception "('c perception_msg, i64) loop_event"
  | AtTrip "(trip_msg, trip_tick_input) loop_event"
  | AtLocation "(bool, location_input) loop_event"

text \<open>The frames a step has built are broadcast in it.\<close>

definition built :: "('s, 'f) bridge \<Rightarrow> ('s, 'f) bridge \<Rightarrow> 'f list" where
  "built b b' = drop (length (frames b)) (frames b')"

fun bridges_step ::
  "'b serializers \<Rightarrow> ('c \<Rightarrow> cloud_point list) \<Rightarrow> 'c bridges_event \<Rightarrow> 'b bridges \<Rightarrow> exn + 'b bridges" where
  "bridges_step k points (AtCluster e) s =
     (case cluster_step e (br_cluster s) of Inl x \<Rightarrow> Inl x
      | Inr b \<Rightarrow> Inr (s\<lparr>br_cluster := b, br_net := fold (broadcast_vehicle k) (built (br_cluster s) b) (br_net s)\<rparr>))"
| "bridges_step k points (AtPlanning e) s =
     (case planning_step e (br_planning s) of Inl x \<Rightarrow> Inl x
      | Inr b \<Rightarrow> Inr (s\<lparr>br_planning := b, br_net := fold (broadcast_planning k) (built (br_planning s) b) (br_net s)\<rparr>))"
| "bridges_step k points (AtPerception e) s =
     (case perception_step points e (br_perception s) of Inl x \<Rightarrow> Inl x
      | Inr b \<Rightarrow> Inr (s\<lparr>br_perception := b,
          br_net := fold (broadcast_perception k) (built (br_perception s) b) (br_net s)\<rparr>))"
| "bridges_step k points (AtTrip e) s =
     (case trip_step e (br_trip s) of Inl x \<Rightarrow> Inl x
      | Inr b \<Rightarrow> Inr (s\<lparr>br_trip := b, br_net := fold (broadcast_trip k) (built (br_trip s) b) (br_net s)\<rparr>))"
| "bridges_step k points (AtLocation e) s =
     (case location_step e (br_location s) of Inl x \<Rightarrow> Inl x
      | Inr b \<Rightarrow> Inr (s\<lparr>br_location := b, br_net := fold (broadcast_json k) (built (br_location s) b) (br_net s)\<rparr>))"

text \<open>What a subscriber of a key receives.\<close>

definition payloads :: "string \<Rightarrow> 'b network \<Rightarrow> 'b list" where
  "payloads key net = map snd (filter (\<lambda>e. fst e = key) net)"

lemma payloads_none [simp]: "payloads key [] = []"
  by (simp add: payloads_def)

lemma payloads_put [simp]: "payloads key (publish p x net) = payloads key net @ (if zp_key p = key then [x] else [])"
  by (simp add: payloads_def publish_def)

lemma payloads_broadcast:
  "payloads key (fold (\<lambda>f. publish p (ser f)) fs net) = payloads key net @ (if zp_key p = key then map ser fs else [])"
  by (induction fs arbitrary: net) auto

lemma payloads_broadcasts [simp]:
  "payloads key (fold (broadcast_vehicle k) fs1 net) =
     payloads key net @ (if zp_key cluster_publisher = key then map (ser_cluster k) fs1 else [])"
  "payloads key (fold (broadcast_planning k) fs2 net) =
     payloads key net @ (if zp_key planning_publisher = key then map (ser_planning k) fs2 else [])"
  "payloads key (fold (broadcast_perception k) fs3 net) =
     payloads key net @ (if zp_key perception_publisher = key then map (ser_perception k) fs3 else [])"
  "payloads key (fold (broadcast_trip k) fs4 net) =
     payloads key net @ (if zp_key trip_publisher = key then map (ser_trip k) fs4 else [])"
  "payloads key (fold (broadcast_json k) fs5 net) =
     payloads key net @ (if zp_key location_publisher = key then map (dump_location k) fs5 else [])"
  unfolding broadcast_vehicle_def [abs_def] broadcast_planning_def [abs_def] broadcast_perception_def [abs_def]
    broadcast_trip_def [abs_def] broadcast_json_def [abs_def]
  by (rule payloads_broadcast)+

lemma keys [simp]:
  "zp_key cluster_publisher = ''autoware/cluster''" "zp_key planning_publisher = ''autoware/planning''"
  "zp_key perception_publisher = ''autoware/perception''" "zp_key trip_publisher = ''autoware/trip''"
  "zp_key location_publisher = ''autoware/location''"
  by (simp_all add: cluster_publisher_def planning_publisher_def perception_publisher_def trip_publisher_def
      location_publisher_def declare_publisher_def)

section \<open>One bridge among the others\<close>

text \<open>
  A component of a system with steps of its own: every step of the system is one of its steps or
  leaves it alone, its frames only grow, and its key carries what it builds.
\<close>

locale published =
  fixes sstep :: "'e \<Rightarrow> 'y \<Rightarrow> exn + 'y"
    and bstep :: "'l \<Rightarrow> ('s, 'f) bridge \<Rightarrow> exn + ('s, 'f) bridge"
    and part :: "'y \<Rightarrow> ('s, 'f) bridge"
    and sel :: "'e \<Rightarrow> 'l option"
    and net :: "'y \<Rightarrow> 'b network"
    and key :: string
    and ser :: "'f \<Rightarrow> 'b"
  assumes other: "sstep e y = Inr y' \<Longrightarrow> sel e = None \<Longrightarrow>
      part y' = part y \<and> payloads key (net y') = payloads key (net y)"
    and mine: "sstep e y = Inr y' \<Longrightarrow> sel e = Some l \<Longrightarrow>
      bstep l (part y) = Inr (part y') \<and>
      payloads key (net y') = payloads key (net y) @ map ser (built (part y) (part y'))"
    and grows: "bstep l b = Inr b' \<Longrightarrow> \<exists>fs. frames b' = frames b @ fs"
begin

lemma runs_alone:
  "run sstep es y = Inr y' \<Longrightarrow> payloads key (net y) = map ser (frames (part y)) \<Longrightarrow>
     run bstep (List.map_filter sel es) (part y) = Inr (part y') \<and>
     payloads key (net y') = map ser (frames (part y'))"
proof (induction es arbitrary: y)
  case Nil
  then show ?case by (simp add: List.map_filter_simps)
next
  case (Cons e es)
  then obtain t where t: "sstep e y = Inr t" "run sstep es t = Inr y'" by (auto split: sum.splits)
  show ?case
  proof (cases "sel e")
    case None
    have "part t = part y" "payloads key (net t) = payloads key (net y)" using other [OF t(1) None] by simp_all
    with Cons.IH [OF t(2)] Cons.prems(2) show ?thesis by (simp add: List.map_filter_simps None)
  next
    case (Some l)
    note m = mine [OF t(1) Some]
    obtain fs where "frames (part t) = frames (part y) @ fs" using grows m by blast
    then have "payloads key (net t) = map ser (frames (part t))" using m Cons.prems(2) by (simp add: built_def)
    with Cons.IH [OF t(2)] m show ?thesis by (simp add: List.map_filter_simps Some)
  qed
qed

end

fun at_cluster :: "'c bridges_event \<Rightarrow> (cluster_msg, i64) loop_event option" where
  "at_cluster (AtCluster e) = Some e"
| "at_cluster _ = None"

fun at_planning :: "'c bridges_event \<Rightarrow> (planning_msg, i64) loop_event option" where
  "at_planning (AtPlanning e) = Some e"
| "at_planning _ = None"

fun at_perception :: "'c bridges_event \<Rightarrow> ('c perception_msg, i64) loop_event option" where
  "at_perception (AtPerception e) = Some e"
| "at_perception _ = None"

fun at_trip :: "'c bridges_event \<Rightarrow> (trip_msg, trip_tick_input) loop_event option" where
  "at_trip (AtTrip e) = Some e"
| "at_trip _ = None"

fun at_location :: "'c bridges_event \<Rightarrow> (bool, location_input) loop_event option" where
  "at_location (AtLocation e) = Some e"
| "at_location _ = None"

lemma loop_grows:
  "loop_step apply_msg (onTick_with refresh sends build) e b = Inr b' \<Longrightarrow> \<exists>fs. frames b' = frames b @ fs"
  by (cases e) (auto simp: onTick_with_frames scheduleNextTick_def loop_cancel_def split: if_splits)

lemmas bridge_loops =
  cluster_step_def cluster_onTick_def planning_step_def planning_onTick_def perception_step_def perception_onTick_def
  trip_step_def trip_onTick_def location_step_def location_onTick_def

interpretation cluster_pub: published
  "bridges_step k points" cluster_step br_cluster at_cluster br_net "''autoware/cluster''" "ser_cluster k" for k points
proof unfold_locales
  show "br_cluster y' = br_cluster y \<and> payloads ''autoware/cluster'' (br_net y') = payloads ''autoware/cluster'' (br_net y)"
    if "bridges_step k points e y = Inr y'" "at_cluster e = None" for e y y'
    using that by (cases e) (auto split: sum.splits)
  show "cluster_step l (br_cluster y) = Inr (br_cluster y') \<and>
      payloads ''autoware/cluster'' (br_net y') =
        payloads ''autoware/cluster'' (br_net y) @ map (ser_cluster k) (built (br_cluster y) (br_cluster y'))"
    if "bridges_step k points e y = Inr y'" "at_cluster e = Some l" for e y y' l
    using that by (cases e) (auto split: sum.splits)
  show "\<exists>fs. frames b' = frames b @ fs" if "cluster_step l b = Inr b'" for l b b'
    using that unfolding bridge_loops by (rule loop_grows)
qed

interpretation planning_pub: published
  "bridges_step k points" planning_step br_planning at_planning br_net "''autoware/planning''" "ser_planning k" for k points
proof unfold_locales
  show "br_planning y' = br_planning y \<and> payloads ''autoware/planning'' (br_net y') = payloads ''autoware/planning'' (br_net y)"
    if "bridges_step k points e y = Inr y'" "at_planning e = None" for e y y'
    using that by (cases e) (auto split: sum.splits)
  show "planning_step l (br_planning y) = Inr (br_planning y') \<and>
      payloads ''autoware/planning'' (br_net y') =
        payloads ''autoware/planning'' (br_net y) @ map (ser_planning k) (built (br_planning y) (br_planning y'))"
    if "bridges_step k points e y = Inr y'" "at_planning e = Some l" for e y y' l
    using that by (cases e) (auto split: sum.splits)
  show "\<exists>fs. frames b' = frames b @ fs" if "planning_step l b = Inr b'" for l b b'
    using that unfolding bridge_loops by (rule loop_grows)
qed

interpretation perception_pub: published
  "bridges_step k points" "perception_step points" br_perception at_perception br_net "''autoware/perception''" "ser_perception k" for k points
proof unfold_locales
  show "br_perception y' = br_perception y \<and> payloads ''autoware/perception'' (br_net y') = payloads ''autoware/perception'' (br_net y)"
    if "bridges_step k points e y = Inr y'" "at_perception e = None" for e y y'
    using that by (cases e) (auto split: sum.splits)
  show "perception_step points l (br_perception y) = Inr (br_perception y') \<and>
      payloads ''autoware/perception'' (br_net y') =
        payloads ''autoware/perception'' (br_net y) @ map (ser_perception k) (built (br_perception y) (br_perception y'))"
    if "bridges_step k points e y = Inr y'" "at_perception e = Some l" for e y y' l
    using that by (cases e) (auto split: sum.splits)
  show "\<exists>fs. frames b' = frames b @ fs" if "perception_step points l b = Inr b'" for l b b'
    using that unfolding bridge_loops by (rule loop_grows)
qed

interpretation trip_pub: published
  "bridges_step k points" trip_step br_trip at_trip br_net "''autoware/trip''" "ser_trip k" for k points
proof unfold_locales
  show "br_trip y' = br_trip y \<and> payloads ''autoware/trip'' (br_net y') = payloads ''autoware/trip'' (br_net y)"
    if "bridges_step k points e y = Inr y'" "at_trip e = None" for e y y'
    using that by (cases e) (auto split: sum.splits)
  show "trip_step l (br_trip y) = Inr (br_trip y') \<and>
      payloads ''autoware/trip'' (br_net y') =
        payloads ''autoware/trip'' (br_net y) @ map (ser_trip k) (built (br_trip y) (br_trip y'))"
    if "bridges_step k points e y = Inr y'" "at_trip e = Some l" for e y y' l
    using that by (cases e) (auto split: sum.splits)
  show "\<exists>fs. frames b' = frames b @ fs" if "trip_step l b = Inr b'" for l b b'
    using that unfolding bridge_loops by (rule loop_grows)
qed

interpretation location_pub: published
  "bridges_step k points" location_step br_location at_location br_net "''autoware/location''" "dump_location k" for k points
proof unfold_locales
  show "br_location y' = br_location y \<and> payloads ''autoware/location'' (br_net y') = payloads ''autoware/location'' (br_net y)"
    if "bridges_step k points e y = Inr y'" "at_location e = None" for e y y'
    using that by (cases e) (auto split: sum.splits)
  show "location_step l (br_location y) = Inr (br_location y') \<and>
      payloads ''autoware/location'' (br_net y') =
        payloads ''autoware/location'' (br_net y) @ map (dump_location k) (built (br_location y) (br_location y'))"
    if "bridges_step k points e y = Inr y'" "at_location e = Some l" for e y y' l
    using that by (cases e) (auto split: sum.splits)
  show "\<exists>fs. frames b' = frames b @ fs" if "location_step l b = Inr b'" for l b b'
    using that unfolding bridge_loops by (rule loop_grows)
qed

section \<open>All five\<close>

definition new_bridges :: "time_point \<Rightarrow> 'b bridges" where
  "new_bridges t0 =
     \<lparr>br_cluster = new_bridge new_frame_state, br_planning = new_bridge new_planning_state,
      br_perception = new_bridge new_perception_state, br_trip = new_bridge (new_trip_frame_state t0),
      br_location = new_bridge new_location_state, br_net = []\<rparr>"

lemma loop_never_raises [simp]: "loop_step apply_msg tick e b \<noteq> Inl x"
  by (cases e) auto

lemma bridges_step_total: "\<exists>s'. bridges_step k points e s = Inr s'"
  by (cases e)
     (auto simp: cluster_step_def planning_step_def perception_step_def trip_step_def location_step_def
       split: sum.splits)

lemma bridges_run_total: "\<exists>s'. run (bridges_step k points) es s = Inr s'"
proof (induction es arbitrary: s)
  case (Cons e es)
  obtain t where "bridges_step k points e s = Inr t" using bridges_step_total by blast
  with Cons.IH [of t] show ?case by simp
qed simp

text \<open>
  C29. Whatever the order in which the steps of the five bridges come, each bridge runs as it would
  alone on its own events, and a subscriber of its key receives exactly the frames it has built,
  serialised, in their order, and nothing else.
\<close>

theorem bridges_published:
  "\<exists>s'. run (bridges_step k points) es (new_bridges t0) = Inr s' \<and>
     run cluster_step (List.map_filter at_cluster es) (new_bridge new_frame_state) = Inr (br_cluster s') \<and>
     payloads ''autoware/cluster'' (br_net s') = map (ser_cluster k) (frames (br_cluster s')) \<and>
     run planning_step (List.map_filter at_planning es) (new_bridge new_planning_state) = Inr (br_planning s') \<and>
     payloads ''autoware/planning'' (br_net s') = map (ser_planning k) (frames (br_planning s')) \<and>
     run (perception_step points) (List.map_filter at_perception es) (new_bridge new_perception_state) =
       Inr (br_perception s') \<and>
     payloads ''autoware/perception'' (br_net s') = map (ser_perception k) (frames (br_perception s')) \<and>
     run trip_step (List.map_filter at_trip es) (new_bridge (new_trip_frame_state t0)) = Inr (br_trip s') \<and>
     payloads ''autoware/trip'' (br_net s') = map (ser_trip k) (frames (br_trip s')) \<and>
     run location_step (List.map_filter at_location es) (new_bridge new_location_state) = Inr (br_location s') \<and>
     payloads ''autoware/location'' (br_net s') = map (dump_location k) (frames (br_location s'))"
proof -
  obtain s' where s': "run (bridges_step k points) es (new_bridges t0) = Inr s'"
    using bridges_run_total by blast
  show ?thesis
    using cluster_pub.runs_alone [OF s'] planning_pub.runs_alone [OF s'] perception_pub.runs_alone [OF s']
      trip_pub.runs_alone [OF s'] location_pub.runs_alone [OF s'] s'
    by (intro exI [of _ s']) (simp add: new_bridges_def new_bridge_def)
qed

end
