(* ===== verification/Spec2Isabelle.thy ===== *)
theory Spec2Isabelle
  imports MapProperties DiagnosticsProperties TripProperties PoseProperties TripLog StartupProperties AppProperties
    JourneyProperties GatewayProperties BridgeProperties PlanningProperties StreamingProperties ShutdownProperties MainProcess
    OwnershipProperties Publications
begin

text \<open>
  Verification library of the Autoware agent: the process on the vehicle that takes trip
  commands from a gateway over a gRPC stream, drives Autoware through them, and publishes what the
  vehicle does to displays. The paths below are under \<open>src/\<close> of the repository's own \<open>src\<close>
  directory.

  \<^bold>\<open>The parts and how they meet.\<close> \<open>AutowareApp.cpp\<close> reads commands from
  \<open>gateway_bridge/include/VehicleGatewayStreamClient.h\<close> and posts them to the strand of
  \<open>gateway_bridge/src/AutowareController.cc\<close>, which owns the lanelet map
  (\<open>map_routes/LaneletMap.cc\<close>, configured by \<open>map_routes/MapProjectorInfo.cc\<close>) and the trip
  controller (\<open>gateway_bridge/src/TripController.cc\<close>). The trip controller quotes a trip in two
  legs, drives to the pickup place, waits, and drives to the destination; its callbacks come back
  through the Autoware controller to the application, which reports them to the gateway. Five
  bridges (\<open>cluster_bridge\<close>, \<open>planning_bridge\<close>, \<open>perception_bridge\<close>, \<open>trip_bridge\<close>,
  \<open>location_bridge\<close>) turn subscriptions into frames at a fixed rate.

  \<^bold>\<open>Groundwork.\<close> \<open>Agent_Prelude\<close>: machine integer types, the abnormal ends of a handler as a
  datatype, results as sums, shared lemmas. \<open>Cxx\<close>: the part of the C++ library that is
  computed with (decimal printing and parsing of 64-bit integers, \<open>duration_cast\<close>, \<open>clamp\<close>,
  \<open>atan2\<close>). \<open>RosMessages\<close>, \<open>SensorMessages\<close>: the messages, with the fields the code reads.
  \<open>StrandMachine\<close>: runs and reachable states of a step function, and the locale
  \<open>strand_machine\<close> of an invariant every handler keeps; it is interpreted by the trip
  controller (\<open>TripInvariant\<close>, \<open>TripPoses\<close>, \<open>LanePoses\<close>), the Autoware controller, the stream
  client, the application (\<open>AppInvariant\<close>, \<open>AppStreaming\<close>), the shutdown and the process.

  \<^bold>\<open>Map.\<close> \<open>LaneletMap\<close>: state and operations of \<open>LaneletMap.cc\<close>; the lanelet2 map, projector and
  routing graph are fields of the state. \<open>LaneSearch\<close>: the scan finds the first nearest
  candidate. \<open>LaneCache\<close>: the cache only grows, by at most one entry for each lanelet.
  \<open>LaneLookup\<close>: the locale \<open>cached_lookup\<close> and its two interpretations, by
  \<open>findNearestLane\<close> and \<open>findNearestConnectedLane\<close>. \<open>MapConfig\<close>: configuration and
  paths. \<open>LaneDiagnostics\<close>: the three diagnostic operations as the lines they log; the flood fill
  of \<open>debugConnectedComponents\<close> is a function on the visited set and the queue, total because
  identifiers have 64 bits, and its loops keep the invariant that the components found so far
  are closed under the links of the graph. \<open>MapProperties\<close>, \<open>DiagnosticsProperties\<close>: the
  properties.

  \<^bold>\<open>Trip controller.\<close> \<open>TripTypes\<close>, \<open>TripController\<close>: \<open>TripStates.h\<close>, \<open>TripStatus.h\<close>,
  \<open>TripTimings.h\<close> and every operation of \<open>TripController.cc\<close>. Messages sent, services called
  and callbacks made are appended to \<open>outbox\<close>, in order. \<open>TripMachine\<close>: one event for each
  handler posted to the strand. \<open>TripInvariant\<close>: the invariant by phase and the abstract
  machine \<open>successors\<close> every step follows. \<open>TripReplies\<close>: each query callback is answered
  once. \<open>TripDeadline\<close>: an accepted query is over after a bounded time, given a
  bound on the time between ticks. \<open>TripEffects\<close>: each effect is justified, each change of state reported.
  \<open>DemoMap\<close>, \<open>TripJourney\<close>: an example map and whole trips on it, used as witnesses.
  \<open>OutboxShift\<close>: no step reads the outbox, so the effects of a run do not depend on those before
  it. \<open>TripSignals\<close>: the scripts of a quote, an approach and a ride, and the effects of each that
  somebody hears of. \<open>TripPoses\<close>: the status names a cached lane by its decimal text and
  carries its pose, as an invariant by phase (\<open>placed\<close>). \<open>LanePoses\<close>: what a pose on a
  lane is, and that lookups and handlers keep every cached lane and everything sent such poses
  (\<open>typed\<close>). \<open>TripProperties\<close>, \<open>PoseProperties\<close>: the properties.

  \<^bold>\<open>Agent.\<close> \<open>AutowareController\<close>: the posted handlers, with guards for a controller that does
  not exist yet, and the relaying of effects to callbacks. \<open>TripLog\<close>: the lines it logs for a
  change of state, and the property of the lanes they name. \<open>GatewayClient\<close>: the provider
  interfaces (locale \<open>trip_manager\<close>, interpreted by the adapter of
  \<open>AutowareControllerProvider.h\<close>), the reports, the dispatch of commands, and the stream as a
  machine: opening, taking an event, writing it, the watchdog, the end of reading, joining,
  shutdown. \<open>AutowareApp\<close>: the application; reading a command, the handlers, the callbacks, and
  tasks run one by one from a queue that stands for the strand. \<open>AppInvariant\<close>: a task is a
  step of the trip controller followed by its callbacks; nothing the agent does ends abnormally.
  \<open>AppReports\<close>: which reports follow from which effects, and how many arrivals can be reported.
  \<open>AppJourney\<close>: each listener of the controller (the locale \<open>listener\<close>: the gateway, the strand
  and the streaming switch) hears a voice of its own in the effects of a task, and the stages of
  a trip with what each says; \<open>JourneyProperties\<close> puts the stages together.
  \<open>AppShutdown\<close>: \<open>stopAutowareApp\<close> as a machine of the caller and the threads it waits for;
  each bridge appears by its timer, which is shown to be what its loop does to the timer.
  \<open>MainProcess\<close>: \<open>main.cc\<close> around it, the polling of the flag that the signal handler sets.
  \<open>SharedPointers\<close>: objects that live as long as they are owned, raw pointers, threads, and what
  statements do to them; no owning pointer ever dangles, and objects that own each other stay.
  \<open>AppOwnership\<close>: \<open>startAutowareApp\<close>, \<open>stopAutowareApp\<close> and the end of \<open>main\<close> as such
  statements, one for each owning pointer made, captured or reset, and the reports of the stream
  client through its raw pointers. \<open>OwnershipProperties\<close>: which of them dangle, and what is left
  at the end.
  \<open>StartupProperties\<close> (construction from the files of a map), \<open>AppProperties\<close>,
  \<open>GatewayProperties\<close>, \<open>ShutdownProperties\<close>: the properties.

  \<^bold>\<open>Bridges.\<close> \<open>FrameLoop\<close>: what the five bridges share: the timer that is armed again by its own
  handler, the frame counter, shutdown, and the locale \<open>topic_store\<close> of handlers that overwrite
  per topic, under which a state depends only on the latest message of each topic.
  \<open>ClusterBridge\<close>, \<open>PlanningBridge\<close>, \<open>PerceptionBridge\<close>, \<open>TripBridge\<close>, \<open>LocationBridge\<close>:
  messages, conversions, handlers and frames of each, and its interpretation of \<open>topic_store\<close>.
  \<open>Publications\<close>: \<open>zenoh_publisher.h\<close> and the five bridges beside each other on one session;
  the locale \<open>published\<close>, interpreted by each of them, gives that a bridge runs as it would alone
  and that its key carries its frames. \<open>BridgeProperties\<close>, \<open>PlanningProperties\<close>: the properties.

  \<^bold>\<open>Reading the model.\<close> Values of type \<open>double\<close> and \<open>float\<close> are real numbers: rounding, NaN and
  infinities are outside the model (a coordinate of the point cloud may be marked as not finite).
  Integers keep their width where the code counts with them: identifiers and frame numbers have 64
  bits, object counts and numbers 32. Clock readings are unbounded integers of nanoseconds. A
  handler posted to a strand runs to its end before the next; the stream's writer and the timer
  loops, which run in threads of their own, are steps that may come in any order. The steps of a
  run are bounded only by the run itself; there is no fuel. The timeouts are
  those of \<open>TripTimings.h\<close>, kept as a record the controller carries.

  \<^bold>\<open>Not modelled.\<close> Logging other than the lines of the diagnostic operations and of the changes of
  state; the libraries themselves (lanelet2, YAML, PCL, protobuf, gRPC, ROS, zenoh), which appear
  as parameters or as the events they deliver, so that what is put on a key of the session counts
  as received; data races between the reader's thread and the strand on the trip status, and
  between a timer and its cancellation, which takes place at one moment here. The application of
  \<open>AutowareApp\<close> reads its providers as if they lived; which of them do is what \<open>AppOwnership\<close>
  says. There, objects the libraries keep for themselves and pointers inside the map and the
  ROS node are left out, and a running callback holds nothing of its own.
\<close>

end
